(* ===== verification/AF_Prelude.thy ===== *)
theory AF_Prelude
  imports Main "HOL-Library.Monad_Syntax"
begin

text \<open>
  Shared vocabulary of the development: the collections of simplification and introduction
  rules the component theories fill, and generic facts on lists and on the option monad.
  An operation of the C++ code that can run into undefined behaviour (a null or dangling
  pointer, an index outside a vector, a failed assertion) is a function into \<open>option\<close>;
  \<open>None\<close> stands for the undefined behaviour.
\<close>

named_theorems cs_simps \<open>unfolding rules of the node containers\<close>
named_theorems world_simps \<open>rewrite rules of the accessors of the world\<close>
named_theorems keeps \<open>facts that an operation respects the relation of the surrounding locale\<close>

section \<open>Lists\<close>

abbreviation without :: "'a \<Rightarrow> 'a list \<Rightarrow> 'a list" where
  "without x xs \<equiv> filter (\<lambda>y. y \<noteq> x) xs"

lemma without_notin [simp]: "x \<notin> set xs \<Longrightarrow> without x xs = xs"
  by (induction xs) auto

lemma set_without: "set (without x xs) = set xs - {x}"
  by auto

lemma butlast_last_id: "xs \<noteq> [] \<Longrightarrow> butlast xs @ [last xs] = xs"
  by simp

lemma set_butlast_distinct:
  "distinct xs \<Longrightarrow> xs \<noteq> [] \<Longrightarrow> set (butlast xs) = set xs - {last xs}"
  by (induction xs rule: rev_induct) auto

lemma hd_tl_set: "distinct xs \<Longrightarrow> xs \<noteq> [] \<Longrightarrow> set (tl xs) = set xs - {hd xs}"
  by (cases xs) auto

section \<open>The option monad\<close>

lemma bind_SomeE:
  assumes "Option.bind m f = Some y"
  obtains x where "m = Some x" and "f x = Some y"
  using assms by (auto simp: bind_eq_Some_conv)

lemma if_None_Some [simp]: "(if b then None else m) = Some x \<longleftrightarrow> \<not> b \<and> m = Some x"
  by simp

lemma if_Some_None [simp]: "(if b then m else None) = Some x \<longleftrightarrow> b \<and> m = Some x"
  by simp

text \<open>A fold over a list in the option monad: the C++ range-for whose body may fail.\<close>

primrec foldM :: "('a \<Rightarrow> 's \<Rightarrow> 's option) \<Rightarrow> 'a list \<Rightarrow> 's \<Rightarrow> 's option" where
  "foldM f [] s = Some s"
| "foldM f (x # xs) s = do { s' \<leftarrow> f x s; foldM f xs s' }"

lemma foldM_append:
  "foldM f (xs @ ys) s = do { s' \<leftarrow> foldM f xs s; foldM f ys s' }"
  by (induction xs arbitrary: s) (auto split: Option.bind_split)

lemma foldM_cong [fundef_cong]:
  assumes "xs = ys" and "s = t" and "\<And>x s. x \<in> set ys \<Longrightarrow> f x s = g x s"
  shows "foldM f xs s = foldM g ys t"
proof -
  have "(\<And>x s. x \<in> set ys \<Longrightarrow> f x s = g x s) \<Longrightarrow> foldM f ys t = foldM g ys t"
  proof (induction ys arbitrary: t)
    case (Cons y ys)
    show ?case
      using Cons.prems [of y] Cons.prems Cons.IH
      by (cases "g y t") auto
  qed simp
  with assms show ?thesis by simp
qed

lemma foldM_rel:
  assumes "\<And>s. R s s" and "\<And>s t u. R s t \<Longrightarrow> R t u \<Longrightarrow> R s u"
    and "\<And>x s t. x \<in> set xs \<Longrightarrow> f x s = Some t \<Longrightarrow> R s t"
    and "foldM f xs s = Some t"
  shows "R s t"
  using assms(3,4)
proof (induction xs arbitrary: s)
  case Nil
  then show ?case using assms(1) by simp
next
  case (Cons x xs)
  from Cons.prems(2) obtain s' where s': "f x s = Some s'" "foldM f xs s' = Some t"
    by (auto elim: bind_SomeE)
  have "R s s'" by (rule Cons.prems(1) [OF _ s'(1)]) simp
  moreover have "R s' t"
    by (rule Cons.IH [OF _ s'(2)], rule Cons.prems(1), simp_all)
  ultimately show ?case by (rule assms(2))
qed

text \<open>A traversal that collects results.\<close>

primrec mapM :: "('a \<Rightarrow> 'b option) \<Rightarrow> 'a list \<Rightarrow> 'b list option" where
  "mapM f [] = Some []"
| "mapM f (x # xs) = do { y \<leftarrow> f x; ys \<leftarrow> mapM f xs; Some (y # ys) }"

lemma mapM_length: "mapM f xs = Some ys \<Longrightarrow> length ys = length xs"
  by (induction xs arbitrary: ys) (auto elim!: bind_SomeE)

lemma mapM_nth: "mapM f xs = Some ys \<Longrightarrow> i < length xs \<Longrightarrow> f (xs ! i) = Some (ys ! i)"
  by (induction xs arbitrary: ys i) (auto simp: nth_Cons less_Suc_eq_0_disj elim!: bind_SomeE)

lemma mapM_map: "(\<And>x. x \<in> set xs \<Longrightarrow> f (g x) = Some (h x)) \<Longrightarrow> mapM f (map g xs) = Some (map h xs)"
  by (induction xs) auto

lemma foldM_inv:
  assumes "foldM f xs s = Some t" "P s"
    and "\<And>x s t. x \<in> set xs \<Longrightarrow> P s \<Longrightarrow> f x s = Some t \<Longrightarrow> P t"
  shows "P t"
  using assms
proof (induction xs arbitrary: s)
  case (Cons x xs)
  from Cons.prems(1) obtain s' where s': "f x s = Some s'" "foldM f xs s' = Some t"
    by (auto elim: bind_SomeE)
  then have "P s'" using Cons.prems(2,3) by (meson list.set_intros(1))
  from Cons.IH [OF s'(2) this] Cons.prems(3) show ?case by (meson list.set_intros(2))
qed simp

end
