(* ===== verification/Fifo.thy ===== *)
theory Fifo
  imports AF_Prelude
begin

text \<open>
  The interface of a first-in first-out container: what its clients rely on when they push
  nodes or events and later pop them. Pushing may be restricted (\<open>ok\<close>): the intrusive list
  cannot link an address twice. The law on a sequence of operations is proved once here and
  interpreted on the intrusive list, on the lists of the node containers and on the event
  queue.
\<close>

primrec pop_times :: "('q \<Rightarrow> ('a option \<times> 'q) option) \<Rightarrow> nat \<Rightarrow> 'q \<Rightarrow> ('a list \<times> 'q) option" where
  "pop_times pop 0 q = Some ([], q)"
| "pop_times pop (Suc n) q =
     do { (r, q1) \<leftarrow> pop q;
          x \<leftarrow> r;
          (xs, q2) \<leftarrow> pop_times pop n q1;
          Some (x # xs, q2) }"

locale fifo =
  fixes holds :: "'q \<Rightarrow> 'a list \<Rightarrow> bool"
    and ok :: "'a \<Rightarrow> 'a list \<Rightarrow> bool"
    and push :: "'a \<Rightarrow> 'q \<Rightarrow> 'q option"
    and pop :: "'q \<Rightarrow> ('a option \<times> 'q) option"
  assumes push_law: "holds q xs \<Longrightarrow> ok x xs \<Longrightarrow> \<exists>q'. push x q = Some q' \<and> holds q' (xs @ [x])"
    and pop_law: "holds q (x # xs) \<Longrightarrow> \<exists>q'. pop q = Some (Some x, q') \<and> holds q' xs"
    and pop_empty_law: "holds q [] \<Longrightarrow> pop q = Some (None, q)"
begin

lemma push_many:
  assumes "holds q xs" and "\<And>us v vs. ys = us @ v # vs \<Longrightarrow> ok v (xs @ us)"
  shows "\<exists>q'. foldM push ys q = Some q' \<and> holds q' (xs @ ys)"
  using assms
proof (induction ys arbitrary: q xs)
  case Nil
  then show ?case by simp
next
  case (Cons y ys)
  have "ok y (xs @ [])" by (rule Cons.prems(2) [of "[]" y ys]) simp
  with Cons.prems(1) obtain q1 where q1: "push y q = Some q1" "holds q1 (xs @ [y])"
    using push_law by fastforce
  have "\<exists>q2. foldM push ys q1 = Some q2 \<and> holds q2 ((xs @ [y]) @ ys)"
  proof (rule Cons.IH [OF q1(2)])
    fix us v vs
    assume "ys = us @ v # vs"
    then show "ok v ((xs @ [y]) @ us)" using Cons.prems(2) [of "y # us" v vs] by simp
  qed
  then obtain q2 where "foldM push ys q1 = Some q2" "holds q2 ((xs @ [y]) @ ys)" by blast
  with q1(1) show ?case by simp
qed

lemma pop_many:
  assumes "holds q (xs @ ys)"
  shows "\<exists>q'. pop_times pop (length xs) q = Some (xs, q') \<and> holds q' ys"
  using assms
proof (induction xs arbitrary: q)
  case Nil
  then show ?case by simp
next
  case (Cons x xs)
  from Cons.prems obtain q1 where q1: "pop q = Some (Some x, q1)" "holds q1 (xs @ ys)"
    using pop_law by fastforce
  from Cons.IH [OF q1(2)] obtain q2
    where "pop_times pop (length xs) q1 = Some (xs, q2)" "holds q2 ys" by blast
  with q1(1) show ?case by simp
qed

lemma push_then_pop:
  assumes "holds q []" and "\<And>us v vs. ys = us @ v # vs \<Longrightarrow> ok v us"
  shows "\<exists>q1 q2. foldM push ys q = Some q1
    \<and> pop_times pop (length ys) q1 = Some (ys, q2) \<and> holds q2 []"
proof -
  obtain q1 where q1: "foldM push ys q = Some q1" "holds q1 ys"
    using push_many [OF assms(1), of ys] assms(2) by auto
  with pop_many [of q1 ys "[]"] show ?thesis by auto
qed

end

end
