(* ===== verification/Node_Container.thy ===== *)
theory Node_Container
  imports Fifo "HOL-Library.AList" "HOL-Library.Multiset"
begin

text \<open>
  The node containers (\<open>src/core/custom_struct.cpp\<close>, the container part of
  \<open>src/core/executor.cpp\<close>, and the lists of \<open>src/core/async_manager.cpp\<close>). A node is in at
  most one container and points back to it (\<open>container_\<close>); pushing it elsewhere removes it from
  the container it points to.

  There are three implementations of \<open>INodeContainer\<close>: \<open>_NodeList\<close> (a \<open>std::list\<close>, first in first
  out: the two lists of the \<open>AsyncManager\<close>), \<open>NodeLinkedList\<close> (the intrusive list of theory
  Intrusive_List: the nodes of an agent waiting for an event) and \<open>DfsExecutor\<close> (a vector used as
  a stack). A store \<open>cstore\<close> keeps all of them with the \<open>container_\<close> field of the nodes. The local
  \<open>NodeLinkedList\<close> that \<open>HandleEvent\<close> and \<open>TriggerEvent\<close> swap a waiting list into is an element of
  \<open>cs_local\<close>, the innermost first: the swap moves the ring of links but not the \<open>container_\<close>
  pointers, which still name the list of the agent; removing a node unlinks it from the ring it is
  in, whatever list its pointer names.
\<close>

section \<open>State\<close>

text \<open>A pointer to a node: the chart that owns it and its index there.\<close>

datatype nptr = NP (np_chart: nat) (np_index: nat)

type_synonym wkey = "nat \<times> int"

datatype cref = CExec nat | CWait nat int | CAsyncW | CAsyncA

record cstore =
  cs_of :: "nptr \<Rightarrow> cref option"
  cs_exec :: "nat \<Rightarrow> nptr list"
  cs_hist :: "nat \<Rightarrow> nptr list"
  cs_wait :: "(wkey \<times> nptr list) list"
  cs_local :: "nptr list list"
  cs_await :: "nptr list"
  cs_aact :: "nptr list"

definition empty_cstore :: cstore where
  "empty_cstore = \<lparr>cs_of = (\<lambda>_. None), cs_exec = (\<lambda>_. []), cs_hist = (\<lambda>_. []), cs_wait = [],
     cs_local = [], cs_await = [], cs_aact = []\<rparr>"

definition rings :: "cstore \<Rightarrow> nptr list" where
  "rings cs = concat (map snd (cs_wait cs)) @ concat (cs_local cs)"

definition set_of :: "nptr \<Rightarrow> cref option \<Rightarrow> cstore \<Rightarrow> cstore" where
  "set_of n c cs = cs\<lparr>cs_of := (cs_of cs)(n := c)\<rparr>"

section \<open>Remove\<close>

text \<open>\<open>LinkedList::remove\<close> dereferences the null links of a node that is in no list.\<close>

definition unlink :: "nptr \<Rightarrow> cstore \<Rightarrow> cstore option" where
  "unlink n cs =
     (if n \<in> set (rings cs)
      then Some (cs\<lparr>cs_wait := map (\<lambda>(k, xs). (k, without n xs)) (cs_wait cs),
                    cs_local := map (without n) (cs_local cs)\<rparr>)
      else None)"

definition LinkedList_Remove :: "nptr \<Rightarrow> cstore \<Rightarrow> cstore option" where
  "LinkedList_Remove n cs = map_option (set_of n None) (unlink n cs)"

definition Exec_Remove :: "nat \<Rightarrow> nptr \<Rightarrow> cstore \<Rightarrow> cstore" where
  "Exec_Remove k n cs =
     set_of n None (cs\<lparr>cs_exec := (cs_exec cs)(k := without n (cs_exec cs k))\<rparr>)"

definition Await_Remove :: "nptr \<Rightarrow> cstore \<Rightarrow> cstore" where
  "Await_Remove n cs = set_of n None (cs\<lparr>cs_await := without n (cs_await cs)\<rparr>)"

definition Aact_Remove :: "nptr \<Rightarrow> cstore \<Rightarrow> cstore" where
  "Aact_Remove n cs = set_of n None (cs\<lparr>cs_aact := without n (cs_aact cs)\<rparr>)"

text \<open>The virtual call \<open>container->Remove(node)\<close>, and the same when the pointer may be null.\<close>

fun container_Remove :: "cref \<Rightarrow> nptr \<Rightarrow> cstore \<Rightarrow> cstore option" where
  "container_Remove (CExec k) n cs = Some (Exec_Remove k n cs)"
| "container_Remove (CWait a e) n cs = LinkedList_Remove n cs"
| "container_Remove CAsyncW n cs = Some (Await_Remove n cs)"
| "container_Remove CAsyncA n cs = Some (Aact_Remove n cs)"

definition leave :: "nptr \<Rightarrow> cstore \<Rightarrow> cstore option" where
  "leave n cs = (case cs_of cs n of None \<Rightarrow> Some cs | Some c \<Rightarrow> container_Remove c n cs)"

section \<open>Push and Pop\<close>

definition Exec_Push :: "nat \<Rightarrow> nptr \<Rightarrow> cstore \<Rightarrow> cstore option" where
  "Exec_Push k n cs =
     do { cs \<leftarrow> leave n cs;
          Some (set_of n (Some (CExec k))
            (cs\<lparr>cs_exec := (cs_exec cs)(k := cs_exec cs k @ [n])\<rparr>)) }"

definition Exec_Pop :: "nat \<Rightarrow> cstore \<Rightarrow> (nptr \<times> cstore) option" where
  "Exec_Pop k cs =
     (if cs_exec cs k = [] then None
      else let n = last (cs_exec cs k);
               cs = cs\<lparr>cs_hist := (cs_hist cs)(k := cs_hist cs k @ [n]),
                       cs_exec := (cs_exec cs)(k := butlast (cs_exec cs k))\<rparr>
           in Some (n, if cs_of cs n = Some (CExec k) then set_of n None cs else cs))"

definition Exec_GetTop :: "nat \<Rightarrow> cstore \<Rightarrow> nptr option" where
  "Exec_GetTop k cs = (if cs_exec cs k = [] then None else Some (last (cs_exec cs k)))"

definition Exec_clear :: "nat \<Rightarrow> cstore \<Rightarrow> cstore" where
  "Exec_clear k cs = cs\<lparr>cs_exec := (cs_exec cs)(k := [])\<rparr>"

definition hist_clear :: "nat \<Rightarrow> cstore \<Rightarrow> cstore" where
  "hist_clear k cs = cs\<lparr>cs_hist := (cs_hist cs)(k := [])\<rparr>"

text \<open>The waiting list of an agent for an event: \<open>wait_create\<close> is the allocation in
  \<open>Agent::GetWaitNodes\<close>; pushing a node that is still linked would corrupt the ring.\<close>

definition wait_create :: "wkey \<Rightarrow> cstore \<Rightarrow> cstore" where
  "wait_create k cs =
     (if map_of (cs_wait cs) k = None then cs\<lparr>cs_wait := cs_wait cs @ [(k, [])]\<rparr> else cs)"

definition Wait_Push :: "wkey \<Rightarrow> nptr \<Rightarrow> cstore \<Rightarrow> cstore option" where
  "Wait_Push k n cs =
     do { cs \<leftarrow> leave n cs;
          xs \<leftarrow> map_of (cs_wait cs) k;
          if n \<in> set (rings cs) then None
          else Some (set_of n (Some (CWait (fst k) (snd k)))
                 (cs\<lparr>cs_wait := AList.update k (xs @ [n]) (cs_wait cs)\<rparr>)) }"

text \<open>The swap with a fresh local list, the pop from it and its destruction.\<close>

definition wait_swap :: "wkey \<Rightarrow> cstore \<Rightarrow> cstore option" where
  "wait_swap k cs =
     do { xs \<leftarrow> map_of (cs_wait cs) k;
          Some (cs\<lparr>cs_wait := AList.update k [] (cs_wait cs), cs_local := xs # cs_local cs\<rparr>) }"

definition local_Pop :: "cstore \<Rightarrow> (nptr \<times> cstore) option" where
  "local_Pop cs =
     (case cs_local cs of
        (n # xs) # ls \<Rightarrow> Some (n, set_of n None (cs\<lparr>cs_local := xs # ls\<rparr>))
      | _ \<Rightarrow> None)"

definition clear_of :: "nptr list \<Rightarrow> cstore \<Rightarrow> cstore" where
  "clear_of xs cs = cs\<lparr>cs_of := (\<lambda>n. if n \<in> set xs then None else cs_of cs n)\<rparr>"

definition local_delete :: "cstore \<Rightarrow> cstore option" where
  "local_delete cs =
     (case cs_local cs of
        xs # ls \<Rightarrow> Some (clear_of xs (cs\<lparr>cs_local := ls\<rparr>))
      | [] \<Rightarrow> None)"

text \<open>The lists of an agent that is destroyed.\<close>

definition wait_delete :: "nat \<Rightarrow> cstore \<Rightarrow> cstore" where
  "wait_delete a cs =
     clear_of (concat (map snd (filter (\<lambda>(k, _). fst k = a) (cs_wait cs))))
       (cs\<lparr>cs_wait := filter (\<lambda>(k, _). fst k \<noteq> a) (cs_wait cs)\<rparr>)"

definition Await_Push :: "nptr \<Rightarrow> cstore \<Rightarrow> cstore option" where
  "Await_Push n cs =
     do { cs \<leftarrow> leave n cs;
          Some (set_of n (Some CAsyncW) (cs\<lparr>cs_await := cs_await cs @ [n]\<rparr>)) }"

definition Aact_Push :: "nptr \<Rightarrow> cstore \<Rightarrow> cstore option" where
  "Aact_Push n cs =
     do { cs \<leftarrow> leave n cs;
          Some (set_of n (Some CAsyncA) (cs\<lparr>cs_aact := cs_aact cs @ [n]\<rparr>)) }"

definition Aact_Pop :: "cstore \<Rightarrow> (nptr option \<times> cstore) option" where
  "Aact_Pop cs =
     (case cs_aact cs of
        [] \<Rightarrow> Some (None, cs)
      | n # ns \<Rightarrow> Some (Some n, set_of n None (cs\<lparr>cs_aact := ns\<rparr>)))"

section \<open>The invariant\<close>

definition cs_inv :: "cstore \<Rightarrow> bool" where
  "cs_inv cs \<longleftrightarrow>
     (\<forall>k n. n \<in> set (cs_exec cs k) \<longrightarrow> cs_of cs n = Some (CExec k))
   \<and> (\<forall>n. n \<in> set (cs_await cs) \<longrightarrow> cs_of cs n = Some CAsyncW)
   \<and> (\<forall>n. n \<in> set (cs_aact cs) \<longrightarrow> cs_of cs n = Some CAsyncA)
   \<and> (\<forall>n. n \<in> set (rings cs) \<longleftrightarrow> (\<exists>a e. cs_of cs n = Some (CWait a e)))
   \<and> (\<forall>k. distinct (cs_exec cs k)) \<and> distinct (cs_await cs) \<and> distinct (cs_aact cs)
   \<and> distinct (rings cs) \<and> distinct (map fst (cs_wait cs))"

definition contained :: "nptr \<Rightarrow> cstore \<Rightarrow> bool" where
  "contained n cs \<longleftrightarrow>
     (\<exists>k. n \<in> set (cs_exec cs k)) \<or> n \<in> set (cs_await cs) \<or> n \<in> set (cs_aact cs) \<or> n \<in> set (rings cs)"

text \<open>The store without a node: in no container, pointing to none.\<close>

definition purge :: "nptr \<Rightarrow> cstore \<Rightarrow> cstore" where
  "purge n cs = cs\<lparr>cs_of := (cs_of cs)(n := None), cs_exec := (\<lambda>k. without n (cs_exec cs k)),
     cs_wait := map (\<lambda>(k, xs). (k, without n xs)) (cs_wait cs),
     cs_local := map (without n) (cs_local cs),
     cs_await := without n (cs_await cs), cs_aact := without n (cs_aact cs)\<rparr>"

lemma map_without_id: "n \<notin> set (concat (map snd kvs)) \<Longrightarrow> map (\<lambda>(k, xs). (k, without n xs)) kvs = kvs"
  by (induction kvs) auto

lemma map_without_id': "n \<notin> set (concat xss) \<Longrightarrow> map (without n) xss = xss"
  by (induction xss) auto

lemma concat_without: "concat (map (without n) xss) = without n (concat xss)"
  by (induction xss) auto

lemma concat_without_snd:
  "concat (map snd (map (\<lambda>(k, xs). (k, without n xs)) kvs)) = without n (concat (map snd kvs))"
  by (induction kvs) auto

lemma purge_sel [simp]:
  "cs_of (purge n cs) = (cs_of cs)(n := None)"
  "cs_exec (purge n cs) k = without n (cs_exec cs k)"
  "cs_hist (purge n cs) = cs_hist cs"
  "cs_await (purge n cs) = without n (cs_await cs)"
  "cs_aact (purge n cs) = without n (cs_aact cs)"
  "cs_wait (purge n cs) = map (\<lambda>(k, xs). (k, without n xs)) (cs_wait cs)"
  "cs_local (purge n cs) = map (without n) (cs_local cs)"
  by (simp_all add: purge_def)

lemma rings_purge: "rings (purge n cs) = without n (rings cs)"
  by (simp only: rings_def purge_sel concat_without concat_without_snd filter_append)

lemma fst_purge: "map fst (map (\<lambda>(k, xs). (k, without n xs)) kvs) = map fst kvs"
  by (induction kvs) auto

lemma map_of_purge:
  "map_of (map (\<lambda>(k, xs). (k, without n xs)) kvs) k = map_option (without n) (map_of kvs k)"
  by (induction kvs) auto

lemma not_in_rings:
  "n \<notin> set (rings cs) \<Longrightarrow> map (\<lambda>(k, xs). (k, without n xs)) (cs_wait cs) = cs_wait cs
    \<and> map (without n) (cs_local cs) = cs_local cs"
  unfolding rings_def by (intro conjI map_without_id map_without_id') auto

lemma exec_without: "(\<And>j. j \<noteq> k \<Longrightarrow> n \<notin> set (f j)) \<Longrightarrow> (\<lambda>j. without n (f j)) = f(k := without n (f k))"
  by (auto simp: fun_eq_iff)

text \<open>Under the invariant, leaving the container the pointer names is leaving all of them, and it
  never fails.\<close>

lemma leave_purge:
  assumes "cs_inv cs"
  shows "leave n cs = Some (purge n cs)"
proof -
  have ring: "n \<in> set (rings cs) \<longleftrightarrow> (\<exists>a e. cs_of cs n = Some (CWait a e))"
    and exec: "\<forall>k. n \<in> set (cs_exec cs k) \<longrightarrow> cs_of cs n = Some (CExec k)"
    and await: "n \<in> set (cs_await cs) \<longrightarrow> cs_of cs n = Some CAsyncW"
    and aact: "n \<in> set (cs_aact cs) \<longrightarrow> cs_of cs n = Some CAsyncA"
    using assms by (auto simp: cs_inv_def)
  show ?thesis
  proof (cases "cs_of cs n")
    case None
    then have "purge n cs = cs"
      using ring exec await aact not_in_rings [of n cs]
      by (cases cs) (auto simp: purge_def fun_eq_iff)
    with None show ?thesis by (simp add: leave_def)
  next
    case (Some c)
    show ?thesis
    proof (cases c)
      case (CExec k)
      with Some have "(\<lambda>j. without n (cs_exec cs j)) = (cs_exec cs)(k := without n (cs_exec cs k))"
        using exec by (intro exec_without) auto
      with Some CExec show ?thesis
        using ring await aact not_in_rings [of n cs]
        by (cases cs) (auto simp: leave_def Exec_Remove_def set_of_def purge_def)
    next
      case (CWait a e)
      with Some have "n \<in> set (rings cs)" "(\<lambda>j. without n (cs_exec cs j)) = cs_exec cs"
        using ring exec by (auto simp: fun_eq_iff)
      with Some CWait show ?thesis using await aact
        by (cases cs) (auto simp: leave_def LinkedList_Remove_def unlink_def set_of_def purge_def)
    next
      case CAsyncW
      with Some have "(\<lambda>j. without n (cs_exec cs j)) = cs_exec cs"
        using exec by (auto simp: fun_eq_iff)
      with Some CAsyncW show ?thesis using ring aact not_in_rings [of n cs]
        by (cases cs) (auto simp: leave_def Await_Remove_def set_of_def purge_def)
    next
      case CAsyncA
      with Some have "(\<lambda>j. without n (cs_exec cs j)) = cs_exec cs"
        using exec by (auto simp: fun_eq_iff)
      with Some CAsyncA show ?thesis using ring await not_in_rings [of n cs]
        by (cases cs) (auto simp: leave_def Aact_Remove_def set_of_def purge_def)
    qed
  qed
qed

lemma purge_inv: "cs_inv cs \<Longrightarrow> cs_inv (purge n cs)"
  by (auto simp: cs_inv_def rings_purge fst_purge simp del: map_map)

lemma purge_contained: "contained m (purge n cs) \<longleftrightarrow> m \<noteq> n \<and> contained m cs"
  by (auto simp: contained_def rings_purge)

lemma leave_of: "leave n cs = Some cs' \<Longrightarrow> cs_of cs' n = None"
  by (auto simp: leave_def LinkedList_Remove_def unlink_def Exec_Remove_def Await_Remove_def
      Aact_Remove_def set_of_def split: option.splits cref.splits if_splits elim: container_Remove.elims)

lemma leave_keeps [keeps]: "cs_inv cs \<Longrightarrow> leave n cs = Some cs' \<Longrightarrow> cs_inv cs'"
  by (metis leave_purge option.inject purge_inv)

lemma contained_of: "cs_inv cs \<Longrightarrow> contained n cs \<Longrightarrow> cs_of cs n \<noteq> None"
  by (auto simp: contained_def cs_inv_def)

text \<open>Updating the ring of a key.\<close>

lemma rings_update:
  assumes "map_of kvs k = Some xs" and "distinct (map fst kvs)"
  shows "\<exists>us vs. concat (map snd kvs) = us @ xs @ vs
    \<and> concat (map snd (AList.update k ys kvs)) = us @ ys @ vs"
  using assms
proof (induction kvs)
  case (Cons kv kvs)
  show ?case
  proof (cases "fst kv = k")
    case True
    with Cons.prems have "concat (map snd (kv # kvs)) = [] @ xs @ concat (map snd kvs)"
      "concat (map snd (AList.update k ys (kv # kvs))) = [] @ ys @ concat (map snd kvs)"
      by (cases kv; simp)+
    then show ?thesis by blast
  next
    case False
    with Cons obtain us vs where "concat (map snd kvs) = us @ xs @ vs"
      "concat (map snd (AList.update k ys kvs)) = us @ ys @ vs" by auto
    with False have "concat (map snd (kv # kvs)) = (snd kv @ us) @ xs @ vs"
      "concat (map snd (AList.update k ys (kv # kvs))) = (snd kv @ us) @ ys @ vs"
      by (cases kv; simp)+
    then show ?thesis by blast
  qed
qed simp

section \<open>Every operation keeps the invariant\<close>

lemma rings_simps [simp]:
  "rings (cs\<lparr>cs_of := f\<rparr>) = rings cs" "rings (cs\<lparr>cs_exec := g\<rparr>) = rings cs"
  "rings (cs\<lparr>cs_hist := h\<rparr>) = rings cs" "rings (cs\<lparr>cs_await := xs\<rparr>) = rings cs"
  "rings (cs\<lparr>cs_aact := xs\<rparr>) = rings cs" "rings (set_of n c cs) = rings cs"
  by (simp_all add: rings_def set_of_def)

lemma set_of_sel [simp]:
  "cs_of (set_of n c cs) = (cs_of cs)(n := c)" "cs_exec (set_of n c cs) = cs_exec cs"
  "cs_hist (set_of n c cs) = cs_hist cs" "cs_wait (set_of n c cs) = cs_wait cs"
  "cs_local (set_of n c cs) = cs_local cs" "cs_await (set_of n c cs) = cs_await cs"
  "cs_aact (set_of n c cs) = cs_aact cs"
  by (simp_all add: set_of_def)

lemma purged_free:
  "n \<notin> set (cs_exec (purge n cs) k)" "n \<notin> set (cs_await (purge n cs))"
  "n \<notin> set (cs_aact (purge n cs))" "n \<notin> set (rings (purge n cs))"
  by (auto simp: rings_purge)

text \<open>Facts on a store and a node outside all containers, in the form the pushes need.\<close>

lemma Exec_Push_inv [keeps]:
  assumes "cs_inv cs" "Exec_Push k n cs = Some cs'"
  shows "cs_inv cs'"
proof -
  have "cs_inv (purge n cs)" by (rule purge_inv [OF assms(1)])
  moreover have "cs' = set_of n (Some (CExec k)) ((purge n cs)
      \<lparr>cs_exec := (cs_exec (purge n cs))(k := cs_exec (purge n cs) k @ [n])\<rparr>)"
    using assms by (simp add: Exec_Push_def leave_purge)
  ultimately show ?thesis using purged_free [of n cs]
    unfolding cs_inv_def by (auto simp del: purge_sel)
qed

lemma Await_Push_inv [keeps]:
  assumes "cs_inv cs" "Await_Push n cs = Some cs'"
  shows "cs_inv cs'"
proof -
  have "cs_inv (purge n cs)" by (rule purge_inv [OF assms(1)])
  moreover have "cs' = set_of n (Some CAsyncW) ((purge n cs)
      \<lparr>cs_await := cs_await (purge n cs) @ [n]\<rparr>)"
    using assms by (simp add: Await_Push_def leave_purge)
  ultimately show ?thesis using purged_free [of n cs]
    unfolding cs_inv_def by (auto simp del: purge_sel)
qed

lemma Aact_Push_inv [keeps]:
  assumes "cs_inv cs" "Aact_Push n cs = Some cs'"
  shows "cs_inv cs'"
proof -
  have "cs_inv (purge n cs)" by (rule purge_inv [OF assms(1)])
  moreover have "cs' = set_of n (Some CAsyncA) ((purge n cs)
      \<lparr>cs_aact := cs_aact (purge n cs) @ [n]\<rparr>)"
    using assms by (simp add: Aact_Push_def leave_purge)
  ultimately show ?thesis using purged_free [of n cs]
    unfolding cs_inv_def by (auto simp del: purge_sel)
qed

lemma Wait_Push_inv [keeps]:
  assumes "cs_inv cs" "Wait_Push k n cs = Some cs'"
  shows "cs_inv cs'"
proof -
  let ?p = "purge n cs"
  have p: "cs_inv ?p" by (rule purge_inv [OF assms(1)])
  obtain xs where xs: "map_of (cs_wait ?p) k = Some xs"
    and cs': "cs' = set_of n (Some (CWait (fst k) (snd k)))
      (?p\<lparr>cs_wait := AList.update k (xs @ [n]) (cs_wait ?p)\<rparr>)"
    using assms by (auto simp: Wait_Push_def leave_purge simp del: purge_sel elim!: bind_SomeE
        split: if_splits)
  have d: "distinct (map fst (cs_wait ?p))" using p by (simp add: cs_inv_def)
  obtain us vs where "concat (map snd (cs_wait ?p)) = us @ xs @ vs"
    and "concat (map snd (AList.update k (xs @ [n]) (cs_wait ?p))) = us @ (xs @ [n]) @ vs"
    using rings_update [OF xs d] by blast
  then have r: "rings ?p = us @ xs @ vs @ concat (cs_local ?p)"
    and r': "rings cs' = us @ xs @ n # vs @ concat (cs_local ?p)"
    by (simp_all add: rings_def cs' del: purge_sel)
  have "distinct (map fst (cs_wait cs'))" using d by (simp add: cs' distinct_update del: purge_sel)
  moreover have "distinct (rings cs')" "set (rings cs') = insert n (set (rings ?p))"
    using p purged_free(4) [of n cs] unfolding r r' cs_inv_def by auto
  ultimately show ?thesis using p purged_free(1-3) [of n cs]
    unfolding cs_inv_def by (auto simp: cs' simp del: purge_sel)
qed

lemma wait_create_inv [keeps]: "cs_inv cs \<Longrightarrow> cs_inv (wait_create k cs)"
proof (cases "map_of (cs_wait cs) k")
  case None
  assume "cs_inv cs"
  moreover from None have "rings (wait_create k cs) = rings cs" "k \<notin> fst ` set (cs_wait cs)"
    by (simp_all add: wait_create_def rings_def map_of_eq_None_iff)
  ultimately show ?thesis using None by (auto simp: cs_inv_def wait_create_def)
qed (simp add: wait_create_def)

lemma wait_swap_inv [keeps]:
  assumes "cs_inv cs" "wait_swap k cs = Some cs'"
  shows "cs_inv cs'"
proof -
  obtain xs where xs: "map_of (cs_wait cs) k = Some xs"
    and cs': "cs' = cs\<lparr>cs_wait := AList.update k [] (cs_wait cs), cs_local := xs # cs_local cs\<rparr>"
    using assms(2) by (auto simp: wait_swap_def elim!: bind_SomeE)
  have d: "distinct (map fst (cs_wait cs))" using assms(1) by (simp add: cs_inv_def)
  obtain us vs where "concat (map snd (cs_wait cs)) = us @ xs @ vs"
    and "concat (map snd (AList.update k [] (cs_wait cs))) = us @ [] @ vs"
    using rings_update [OF xs d] by blast
  then have r: "rings cs = us @ xs @ vs @ concat (cs_local cs)"
    and r': "rings cs' = us @ vs @ xs @ concat (cs_local cs)"
    by (simp_all add: rings_def cs')
  then have "distinct (rings cs') = distinct (rings cs)" "set (rings cs') = set (rings cs)"
    by auto
  with assms(1) show ?thesis
    by (auto simp: cs_inv_def cs' distinct_update)
qed

lemma clear_of_inv:
  assumes inv: "cs_inv cs" and r: "mset (rings cs) = mset gone + mset (rings cs1)"
    and same: "cs_of cs1 = cs_of cs" "cs_exec cs1 = cs_exec cs" "cs_await cs1 = cs_await cs"
      "cs_aact cs1 = cs_aact cs" and keys: "distinct (map fst (cs_wait cs1))"
  shows "cs_inv (clear_of gone cs1)"
proof -
  have "mset (rings cs) = mset (gone @ rings cs1)" using r by simp
  then have "set (rings cs) = set (gone @ rings cs1)" "distinct (rings cs) = distinct (gone @ rings cs1)"
    by (metis mset_eq_setD, metis mset_eq_imp_distinct_iff)
  then have set_eq: "\<And>n. n \<in> set (rings cs) \<longleftrightarrow> n \<in> set gone \<or> n \<in> set (rings cs1)"
    and dist: "distinct (rings cs1)" "\<And>n. n \<in> set gone \<Longrightarrow> n \<notin> set (rings cs1)"
    using inv by (auto simp: cs_inv_def)
  have iff: "\<And>n. n \<in> set (rings cs) \<longleftrightarrow> (\<exists>a e. cs_of cs n = Some (CWait a e))"
    using inv by (simp add: cs_inv_def)
  then have "\<And>n. n \<in> set gone \<Longrightarrow> \<exists>a e. cs_of cs n = Some (CWait a e)"
    using set_eq by blast
  then have free: "\<And>n k. n \<in> set gone \<Longrightarrow> n \<notin> set (cs_exec cs k) \<and> n \<notin> set (cs_await cs) \<and> n \<notin> set (cs_aact cs)"
    using inv by (fastforce simp: cs_inv_def)
  have "\<And>n. n \<in> set (rings cs1) \<longleftrightarrow> (\<exists>a e. cs_of cs n = Some (CWait a e)) \<and> n \<notin> set gone"
    using iff set_eq dist(2) by blast
  with inv free keys dist show ?thesis
    by (auto simp: clear_of_def cs_inv_def same)
qed

lemma set_of_None: "set_of n None cs = clear_of [n] cs"
  by (auto simp: set_of_def clear_of_def fun_eq_iff)

lemma local_Pop_inv [keeps]: "cs_inv cs \<Longrightarrow> local_Pop cs = Some (n, cs') \<Longrightarrow> cs_inv cs'"
  unfolding local_Pop_def set_of_None
  by (auto split: list.splits intro!: clear_of_inv) (auto simp: rings_def cs_inv_def)

lemma local_delete_inv [keeps]: "cs_inv cs \<Longrightarrow> local_delete cs = Some cs' \<Longrightarrow> cs_inv cs'"
  by (auto simp: local_delete_def split: list.splits intro!: clear_of_inv)
    (auto simp: rings_def cs_inv_def)

lemma mset_concat_filter:
  "mset (concat (map snd kvs)) = mset (concat (map snd (filter P kvs)))
     + mset (concat (map snd (filter (\<lambda>x. \<not> P x) kvs)))"
  by (induction kvs) auto

lemma Exec_Pop_inv [keeps]:
  assumes "cs_inv cs" "Exec_Pop k cs = Some (n, cs')"
  shows "cs_inv cs'"
proof -
  have n: "cs_exec cs k \<noteq> []" "n = last (cs_exec cs k)" "cs_of cs n = Some (CExec k)"
    using assms by (auto simp: Exec_Pop_def Let_def cs_inv_def split: if_splits)
  have "set (butlast (cs_exec cs k)) = set (cs_exec cs k) - {n}"
    using assms(1) n by (auto simp: set_butlast_distinct cs_inv_def)
  moreover have "cs' = set_of n None (cs\<lparr>cs_hist := (cs_hist cs)(k := cs_hist cs k @ [n]),
      cs_exec := (cs_exec cs)(k := butlast (cs_exec cs k))\<rparr>)"
    using assms(2) n by (simp add: Exec_Pop_def Let_def)
  ultimately show ?thesis using assms(1) n(3)
    by (auto simp: cs_inv_def distinct_butlast)
qed

lemma Exec_clear_inv [keeps]: "cs_inv cs \<Longrightarrow> cs_inv (Exec_clear k cs)"
  by (auto simp: cs_inv_def Exec_clear_def)

lemma hist_clear_inv [keeps]: "cs_inv cs \<Longrightarrow> cs_inv (hist_clear k cs)"
  by (auto simp: cs_inv_def hist_clear_def)

lemma Aact_Pop_inv [keeps]: "cs_inv cs \<Longrightarrow> Aact_Pop cs = Some (r, cs') \<Longrightarrow> cs_inv cs'"
proof (cases "cs_aact cs")
  case (Cons x xs)
  assume a: "cs_inv cs" "Aact_Pop cs = Some (r, cs')"
  with Cons have "cs_of cs x = Some CAsyncA" by (simp add: cs_inv_def)
  with a Cons show ?thesis by (auto simp: Aact_Pop_def cs_inv_def)
qed (simp add: Aact_Pop_def)

lemma wait_delete_inv [keeps]: "cs_inv cs \<Longrightarrow> cs_inv (wait_delete a cs)"
  unfolding wait_delete_def
proof (rule clear_of_inv)
  have "(\<lambda>(k :: wkey, xs :: nptr list). fst k \<noteq> a) = (\<lambda>x. \<not> (\<lambda>(k, _). fst k = a) x)" by auto
  then show "mset (rings cs) = mset (concat (map snd (filter (\<lambda>(k, _). fst k = a) (cs_wait cs))))
      + mset (rings (cs\<lparr>cs_wait := filter (\<lambda>(k, _). fst k \<noteq> a) (cs_wait cs)\<rparr>))"
    using mset_concat_filter [of "cs_wait cs" "\<lambda>(k, _). fst k = a"] by (simp add: rings_def)
qed (auto simp: cs_inv_def distinct_map inj_on_def)

end
