(* ===== verification/Chart_Data.thy ===== *)
theory Chart_Data
  imports AF_Prelude
begin

text \<open>
  The data of flowcharts: \<open>NodeData\<close> (\<open>src/core/node_data.cpp\<close>, \<open>include/core/node_data.h\<close>),
  \<open>Parameter\<close> and \<open>ChartData\<close> (\<open>src/core/chart_data.cpp\<close>, \<open>include/core/chart_data.h\<close>). The
  \<open>NodeData\<close> objects of a chart are the elements of its list, a pointer to one is its index; the
  pointers between the versions of a chart are addresses of the heap of chart data.
\<close>

section \<open>NodeData\<close>

text \<open>A node runs a function of the script language, named by the arguments of
  \<open>CreateNodeFunc\<close>, or one of the three member functions of the manager a \<open>ControlNodeFunc\<close> is
  created with.\<close>

datatype control = WaitAll | StopNode | StopFlow

datatype node_func = Script string string | Control control "int list"

record node_data =
  data_id :: nat
  var_id :: int
  is_event :: bool
  is_no_loop_check :: bool
  node_func :: "node_func option"
  children_false :: "nat list"
  children_true :: "nat list"
  node_text :: string
  node_uid :: string

definition new_node_data :: "nat \<Rightarrow> node_data" where
  "new_node_data i = \<lparr>data_id = i, var_id = - 1, is_event = False, is_no_loop_check = False,
     node_func = None, children_false = [], children_true = [], node_text = [], node_uid = []\<rparr>"

definition GetSubsequenceIds :: "bool \<Rightarrow> node_data \<Rightarrow> nat list" where
  "GetSubsequenceIds result nd = (if result then children_true nd else children_false nd)"

definition SetChildren :: "nat list \<Rightarrow> nat list \<Rightarrow> node_data \<Rightarrow> node_data" where
  "SetChildren f s nd = nd\<lparr>children_false := f, children_true := s\<rparr>"

definition AddSubsequence :: "nat \<Rightarrow> int \<Rightarrow> node_data \<Rightarrow> node_data" where
  "AddSubsequence i type nd =
     (if type = 0 then nd\<lparr>children_false := children_false nd @ [i]\<rparr>
      else if type = 1 then nd\<lparr>children_true := children_true nd @ [i]\<rparr>
      else if type = 2 then nd\<lparr>children_false := children_false nd @ [i],
                               children_true := children_true nd @ [i]\<rparr>
      else nd)"

section \<open>ChartData\<close>

record parameter =
  param_name :: string
  param_type :: string
  is_params :: bool

record chart_data =
  variable_count :: nat
  params_count :: nat
  prev_ptr :: "nat option"
  next_ptr :: "nat option"
  version :: nat
  variables :: "parameter list"
  variable_dict :: "string \<rightharpoonup> nat"
  node_list :: "node_data list"
  chart_name :: string
  start_func_name :: string

definition new_chart_data :: chart_data where
  "new_chart_data = \<lparr>variable_count = 0, params_count = 0, prev_ptr = None, next_ptr = None,
     version = 0, variables = [], variable_dict = (\<lambda>_. None), node_list = [], chart_name = [],
     start_func_name = []\<rparr>"

definition GetNodeCount :: "chart_data \<Rightarrow> nat" where
  "GetNodeCount d = length (node_list d)"

definition GetNodeData :: "nat \<Rightarrow> chart_data \<Rightarrow> node_data option" where
  "GetNodeData i d = (if i < length (node_list d) then Some (node_list d ! i) else None)"

text \<open>The overload that searches by uid returns a null pointer when there is no such node.\<close>

definition GetNodeData_uid :: "string \<Rightarrow> chart_data \<Rightarrow> nat option" where
  "GetNodeData_uid uid d =
     map_option fst (List.find (\<lambda>(i, nd). node_uid nd = uid) (enumerate 0 (node_list d)))"

definition error_var_name :: string where
  "error_var_name = ''__error''"

definition GetVariable :: "int \<Rightarrow> chart_data \<Rightarrow> parameter option" where
  "GetVariable idx d =
     (if idx < 0 \<or> idx \<ge> int (length (variables d)) then None else Some (variables d ! nat idx))"

definition GetVariableName :: "int \<Rightarrow> chart_data \<Rightarrow> string" where
  "GetVariableName idx d =
     (if idx < 0 \<or> idx \<ge> int (length (variables d)) then error_var_name
      else param_name (variables d ! nat idx))"

definition GetVarIndex :: "string \<Rightarrow> chart_data \<Rightarrow> int" where
  "GetVarIndex name d = (case variable_dict d name of Some i \<Rightarrow> int i | None \<Rightarrow> - 1)"

definition SetNodes :: "node_data list \<Rightarrow> chart_data \<Rightarrow> chart_data" where
  "SetNodes nodes d = d\<lparr>node_list := nodes\<rparr>"

section \<open>Versions of a chart\<close>

type_synonym data_heap = "nat \<rightharpoonup> chart_data"

text \<open>\<open>old->Update(new_data)\<close>; the two may be the same object.\<close>

definition Update :: "nat \<Rightarrow> nat \<Rightarrow> data_heap \<Rightarrow> data_heap option" where
  "Update old new_data h =
     do { d \<leftarrow> h new_data;
          let h = h(new_data \<mapsto> d\<lparr>prev_ptr := Some old\<rparr>);
          d \<leftarrow> h old;
          let h = h(old \<mapsto> d\<lparr>next_ptr := Some new_data\<rparr>);
          d \<leftarrow> h old;
          let v = version d + 1;
          d \<leftarrow> h new_data;
          Some (h(new_data \<mapsto> d\<lparr>version := v\<rparr>)) }"

text \<open>The destructor deletes the previous versions first, unless the chart was updated with
  itself; a chain that comes back to a version already deleted would be a double free.\<close>

partial_function (option) delete_chart_data :: "nat \<Rightarrow> data_heap \<Rightarrow> data_heap option" where
  "delete_chart_data p h =
     do { d \<leftarrow> h p;
          h \<leftarrow> (case prev_ptr d of
                None \<Rightarrow> Some h
              | Some q \<Rightarrow> if q \<noteq> p then delete_chart_data q h else Some h);
          Some (h(p := None)) }"

declare delete_chart_data.simps [code]

text \<open>\<open>Manager::ReloadChartData\<close> on the dictionary of charts.\<close>

definition ReloadChartData ::
  "nat option \<Rightarrow> (string \<rightharpoonup> nat) \<times> data_heap \<Rightarrow> (bool \<times> (string \<rightharpoonup> nat) \<times> data_heap) option" where
  "ReloadChartData new_data s =
     (case new_data of
        None \<Rightarrow> Some (False, s)
      | Some p \<Rightarrow>
          do { let (dict, h) = s;
               d \<leftarrow> h p;
               case dict (chart_name d) of
                 Some old \<Rightarrow> do { h \<leftarrow> Update old p h; Some (True, dict(chart_name d \<mapsto> p), h) }
               | None \<Rightarrow> Some (True, dict(chart_name d \<mapsto> p), h) })"

definition ImportChartData ::
  "nat list \<Rightarrow> (string \<rightharpoonup> nat) \<times> data_heap \<Rightarrow> (nat \<times> (string \<rightharpoonup> nat) \<times> data_heap) option" where
  "ImportChartData ps s =
     foldM (\<lambda>p (n, s). do { (b, s) \<leftarrow> ReloadChartData (Some p) s; Some (if b then n + 1 else n, s) })
       ps (0, s)"

end
