(* ===== verification/Event_Queue.thy ===== *)
theory Event_Queue
  imports Fifo "HOL-Library.Multiset"
begin

text \<open>
  The double-buffered event queue (\<open>include/core/event_queue.h\<close>) and the two-step
  destruction list of agents (\<open>include/core/dying_agents.h\<close>).
\<close>

section \<open>EventQueue\<close>

text \<open>
  \<open>in_event_list\<close> collects the events raised since the last switch, \<open>out_event_list\<close>
  holds the events being handled. A deque is a list, its front first.
\<close>

record 'v equeue =
  in_event_list :: "'v list"
  out_event_list :: "'v list"

definition empty_equeue :: "'v equeue" where
  "empty_equeue = \<lparr>in_event_list = [], out_event_list = []\<rparr>"

definition Switch :: "'v equeue \<Rightarrow> 'v equeue" where
  "Switch q = \<lparr>in_event_list = out_event_list q, out_event_list = in_event_list q\<rparr>"

definition AddEvent :: "'v \<Rightarrow> bool \<Rightarrow> 'v equeue \<Rightarrow> 'v equeue" where
  "AddEvent ev immediate q =
     (if immediate then q\<lparr>out_event_list := ev # out_event_list q\<rparr>
      else q\<lparr>in_event_list := in_event_list q @ [ev]\<rparr>)"

definition NextEvent :: "'v equeue \<Rightarrow> 'v option \<times> 'v equeue" where
  "NextEvent q =
     (case out_event_list q of
        [] \<Rightarrow> (None, q)
      | ev # evs \<Rightarrow> (Some ev, q\<lparr>out_event_list := evs\<rparr>))"

text \<open>The events raised between two switches, in the order in which they are raised.\<close>

definition raise_all :: "('v \<times> bool) list \<Rightarrow> 'v equeue \<Rightarrow> 'v equeue" where
  "raise_all = fold (\<lambda>(ev, immediate). AddEvent ev immediate)"

definition next_step :: "'v equeue \<Rightarrow> ('v option \<times> 'v equeue) option" where
  "next_step q = Some (NextEvent q)"

lemma raise_all_out:
  "out_event_list (raise_all evs q) = rev (map fst (filter snd evs)) @ out_event_list q"
  by (induction evs arbitrary: q) (auto simp: raise_all_def AddEvent_def)

lemma raise_all_in:
  "in_event_list (raise_all evs q) = in_event_list q @ map fst (filter (\<lambda>e. \<not> snd e) evs)"
  by (induction evs arbitrary: q) (auto simp: raise_all_def AddEvent_def)

text \<open>Between two switches, delayed events form a first-in first-out queue on the list that is
  being filled and events being handled are taken from the front of the other list: seen from
  the step that handles them, both ends of the queue obey the same interface.\<close>

definition queue_holds :: "'v list \<Rightarrow> 'v equeue \<Rightarrow> 'v list \<Rightarrow> bool" where
  "queue_holds waiting q xs \<longleftrightarrow> out_event_list q = xs \<and> in_event_list q = waiting"

definition push_delayed :: "'v \<Rightarrow> 'v equeue \<Rightarrow> 'v equeue option" where
  "push_delayed ev q = Some (Switch (AddEvent ev False (Switch q)))"

interpretation equeue: fifo "queue_holds waiting" "\<lambda>_ _. True" push_delayed next_step
  by unfold_locales
    (auto simp: queue_holds_def push_delayed_def next_step_def NextEvent_def AddEvent_def Switch_def)

section \<open>DyingAgents\<close>

text \<open>\<open>'a\<close> is the type of agent pointers. \<open>dying_step\<close> returns the agents it deletes.\<close>

record 'a dying_agents =
  destroying_agents :: "'a list"
  next_destroying_agents :: "'a list"

definition empty_dying :: "'a dying_agents" where
  "empty_dying = \<lparr>destroying_agents = [], next_destroying_agents = []\<rparr>"

definition AddDyingAgent :: "'a \<Rightarrow> bool \<Rightarrow> 'a dying_agents \<Rightarrow> 'a dying_agents" where
  "AddDyingAgent agent in_step d =
     (if in_step then d\<lparr>next_destroying_agents := next_destroying_agents d @ [agent]\<rparr>
      else d\<lparr>destroying_agents := destroying_agents d @ [agent]\<rparr>)"

definition dying_step :: "'a dying_agents \<Rightarrow> 'a list \<times> 'a dying_agents" where
  "dying_step d =
     (destroying_agents d,
      \<lparr>destroying_agents = next_destroying_agents d, next_destroying_agents = []\<rparr>)"

definition dying :: "'a dying_agents \<Rightarrow> 'a list" where
  "dying d = destroying_agents d @ next_destroying_agents d"

lemma dying_add: "mset (dying (AddDyingAgent a b d)) = mset (dying d) + {#a#}"
  by (simp add: dying_def AddDyingAgent_def)

lemma dying_step_split: "dying_step d = (gone, d') \<Longrightarrow> dying d = gone @ dying d'"
  by (auto simp: dying_step_def dying_def)

section \<open>Properties\<close>



end
