(* ===== verification/Event_Info.thy ===== *)
theory Event_Info
  imports AF_Prelude
begin

text \<open>
  The table of events (\<open>src/core/event_manager.cpp\<close>, \<open>include/core/event_manager.h\<close>) with the
  two static members \<open>AsyncEventBase::START_EVENT\<close> and \<open>TICK_EVENT\<close>. An event is looked up by its
  position in the list.
\<close>

record event_info =
  info_id :: int
  info_arg_count :: int
  info_name :: string

record event_manager =
  event_info_list :: "event_info list"
  START_EVENT :: int
  TICK_EVENT :: int

definition EventManager :: event_manager where
  "EventManager = \<lparr>event_info_list =
       [\<lparr>info_id = 0, info_arg_count = 0, info_name = ''None''\<rparr>,
        \<lparr>info_id = 1, info_arg_count = 0, info_name = ''Start''\<rparr>,
        \<lparr>info_id = 2, info_arg_count = 0, info_name = ''Tick''\<rparr>],
     START_EVENT = 1, TICK_EVENT = 2\<rparr>"

definition GetEventCount :: "event_manager \<Rightarrow> int" where
  "GetEventCount em = int (length (event_info_list em))"

text \<open>\<open>event_id < event_info_list_.size()\<close> compares unsigned: a negative identifier is a large
  number and out of range.\<close>

definition in_table :: "int \<Rightarrow> event_manager \<Rightarrow> bool" where
  "in_table event_id em \<longleftrightarrow> 0 \<le> event_id \<and> event_id < GetEventCount em"

definition GetEventArgsCount :: "int \<Rightarrow> event_manager \<Rightarrow> int" where
  "GetEventArgsCount event_id em =
     (if in_table event_id em then info_arg_count (event_info_list em ! nat event_id) else - 1)"

definition GetEventName :: "int \<Rightarrow> event_manager \<Rightarrow> string option" where
  "GetEventName event_id em =
     (let i = (if in_table event_id em then nat event_id else 0)
      in if i < length (event_info_list em) then Some (info_name (event_info_list em ! i)) else None)"

end
