(* ===== verification/Timer_Wheel.thy ===== *)
theory Timer_Wheel
  imports AF_Prelude
begin

text \<open>
  The hierarchical timer wheel of \<open>thirdparty/ratas.h\<close> as \<open>TimerManager\<close>
  (\<open>src/core/timer_manager.cpp\<close>) uses it. Level \<open>L\<close> of the wheel counts units of \<open>256 ^ L\<close>
  ticks; a slot is a doubly linked list used as a stack, here a list with its head first.
  Ticks are natural numbers (the code has 64 bits, a tick is a millisecond). \<open>TimerManager\<close> never
  passes a limit on the number of executed events, so \<open>ticks_pending_\<close> stays 0 and \<open>advance\<close>
  returns true: both are left out.

  Executing an event runs code of the owner of the wheel, which may schedule and cancel events:
  the operations that execute take the state \<open>'s\<close> of the owner, the access to the wheel in it and
  the callback \<open>exec\<close>.
\<close>

section \<open>State and operations\<close>

record 'k wheel =
  nows :: "nat \<Rightarrow> nat"
  slots :: "nat \<Rightarrow> nat \<Rightarrow> 'k list"
  scheduled_at :: "'k \<Rightarrow> nat"
  slot_of :: "'k \<Rightarrow> (nat \<times> nat) option"

definition new_wheel :: "'k wheel" where
  "new_wheel = \<lparr>nows = (\<lambda>_. 0), slots = (\<lambda>_ _. []), scheduled_at = (\<lambda>_. 0), slot_of = (\<lambda>_. None)\<rparr>"

definition slot_set :: "nat \<Rightarrow> nat \<Rightarrow> 'k list \<Rightarrow> 'k wheel \<Rightarrow> 'k wheel" where
  "slot_set L i xs w = w\<lparr>slots := (slots w)(L := (slots w L)(i := xs))\<rparr>"

definition relink :: "'k \<Rightarrow> (nat \<times> nat) option \<Rightarrow> 'k wheel \<Rightarrow> 'k wheel" where
  "relink e new_slot w =
     (if new_slot = slot_of w e then w
      else let w = (case slot_of w e of None \<Rightarrow> w
                    | Some (L, i) \<Rightarrow> slot_set L i (without e (slots w L i)) w);
               w = (case new_slot of None \<Rightarrow> w
                    | Some (L, i) \<Rightarrow> slot_set L i (e # slots w L i) w)
           in w\<lparr>slot_of := (slot_of w)(e := new_slot)\<rparr>)"

definition cancel :: "'k \<Rightarrow> 'k wheel \<Rightarrow> 'k wheel" where
  "cancel e w = (if slot_of w e = None then w else relink e None w)"

definition pop_event :: "nat \<Rightarrow> nat \<Rightarrow> 'k wheel \<Rightarrow> ('k \<times> 'k wheel) option" where
  "pop_event L i w =
     (case slots w L i of
        [] \<Rightarrow> None
      | e # es \<Rightarrow> Some (e, (slot_set L i es w)\<lparr>slot_of := (slot_of w)(e := None)\<rparr>))"

text \<open>The loop of \<open>schedule\<close> that finds the level.\<close>

function pick_level :: "(nat \<Rightarrow> nat) \<Rightarrow> nat \<Rightarrow> nat \<Rightarrow> nat \<times> nat" where
  "pick_level now level delta =
     (if delta \<ge> 256 then pick_level now (level + 1) ((delta + now level mod 256) div 256)
      else (level, delta))"
  by pat_completeness auto
termination
proof (relation "measure (\<lambda>(now, level, delta). delta)")
  fix now :: "nat \<Rightarrow> nat" and level delta :: nat
  assume "256 \<le> delta"
  then have "(delta + now level mod 256) div 256 < delta"
    using mod_less_divisor [of 256 "now level"] by (simp add: div_less_iff_less_mult)
  then show "((now, level + 1, (delta + now level mod 256) div 256), (now, level, delta))
      \<in> measure (\<lambda>(now, level, delta). delta)" by simp
qed simp

declare pick_level.simps [simp del]

definition schedule :: "'k \<Rightarrow> nat \<Rightarrow> 'k wheel \<Rightarrow> 'k wheel option" where
  "schedule e delta w =
     (if delta = 0 then None
      else let (level, delta') = pick_level (nows w) 0 delta
           in if level > 7 then None
              else Some (relink e (Some (level, (nows w level + delta') mod 256))
                     (w\<lparr>scheduled_at := (scheduled_at w)(e := nows w 0 + delta)\<rparr>)))"

text \<open>The loop of \<open>process_current_slot\<close> over the slot \<open>(L, i)\<close>.\<close>

partial_function (option) drain_slot ::
  "('s \<Rightarrow> 'k wheel) \<Rightarrow> ('k wheel \<Rightarrow> 's \<Rightarrow> 's) \<Rightarrow> ('k \<Rightarrow> 's \<Rightarrow> 's option) \<Rightarrow> nat \<Rightarrow> nat \<Rightarrow> 's \<Rightarrow> 's option"
where
  "drain_slot getw putw exec L i s =
     (if slots (getw s) L i = [] then Some s
      else do { (e, w) \<leftarrow> pop_event L i (getw s);
                let s = putw w s;
                s \<leftarrow> (if L > 0
                      then if nows w 0 mod 256 \<noteq> 0 then None
                           else if nows w 0 \<ge> scheduled_at w e then exec e s
                           else map_option (\<lambda>w. putw w s) (schedule e (scheduled_at w e - nows w 0) w)
                      else exec e s);
                drain_slot getw putw exec L i s })"

declare drain_slot.simps [code]

text \<open>One tick of level \<open>L\<close>: the body of the loop of \<open>advance\<close> with \<open>process_current_slot\<close>, which
  advances the next level by one when it starts a new round. \<open>7 - L\<close> levels are above.\<close>

primrec tick_up ::
  "('s \<Rightarrow> 'k wheel) \<Rightarrow> ('k wheel \<Rightarrow> 's \<Rightarrow> 's) \<Rightarrow> ('k \<Rightarrow> 's \<Rightarrow> 's option) \<Rightarrow> nat \<Rightarrow> 's \<Rightarrow> 's option"
where
  "tick_up getw putw exec 0 s =
     (let w = getw s; now = nows w 7 + 1
      in drain_slot getw putw exec 7 (now mod 256) (putw (w\<lparr>nows := (nows w)(7 := now)\<rparr>) s))"
| "tick_up getw putw exec (Suc up) s =
     (let L = 6 - up; w = getw s; now = nows w L + 1;
          s = putw (w\<lparr>nows := (nows w)(L := now)\<rparr>) s
      in do { s \<leftarrow> (if now mod 256 = 0 then tick_up getw putw exec up s else Some s);
              drain_slot getw putw exec L (now mod 256) s })"

definition wheel_tick :: "('s \<Rightarrow> 'k wheel) \<Rightarrow> ('k wheel \<Rightarrow> 's \<Rightarrow> 's) \<Rightarrow> ('k \<Rightarrow> 's \<Rightarrow> 's option) \<Rightarrow> 's \<Rightarrow> 's option" where
  "wheel_tick getw putw exec s = tick_up getw putw exec 7 s"

primrec advance ::
  "('s \<Rightarrow> 'k wheel) \<Rightarrow> ('k wheel \<Rightarrow> 's \<Rightarrow> 's) \<Rightarrow> ('k \<Rightarrow> 's \<Rightarrow> 's option) \<Rightarrow> nat \<Rightarrow> 's \<Rightarrow> 's option" where
  "advance getw putw exec 0 s = Some s"
| "advance getw putw exec (Suc delta) s =
     do { s \<leftarrow> wheel_tick getw putw exec s; advance getw putw exec delta s }"

text \<open>\<open>TimerManager::Step\<close> and \<open>TimerManager::AddTimer\<close>.\<close>

definition TimerManager_Step ::
  "('s \<Rightarrow> 'k wheel) \<Rightarrow> ('k wheel \<Rightarrow> 's \<Rightarrow> 's) \<Rightarrow> ('k \<Rightarrow> 's \<Rightarrow> 's option) \<Rightarrow> int \<Rightarrow> 's \<Rightarrow> 's option" where
  "TimerManager_Step getw putw exec ms s =
     (if ms > 0 then advance getw putw exec (nat ms) s else Some s)"

definition AddTimer :: "'k \<Rightarrow> nat \<Rightarrow> 'k wheel \<Rightarrow> 'k wheel option" where
  "AddTimer timer ms w = schedule timer ms w"

section \<open>Induction\<close>

text \<open>The passes of the loop over a slot that it is possible to make.\<close>

lemma drain_slot_induct:
  assumes run: "drain_slot getw putw exec L i s = Some s'"
    and nil: "\<And>s. slots (getw s) L i = [] \<Longrightarrow> Q s s"
    and step: "\<And>s e w s1 s'. slots (getw s) L i \<noteq> [] \<Longrightarrow> pop_event L i (getw s) = Some (e, w) \<Longrightarrow>
      (if L > 0
       then if nows w 0 mod 256 \<noteq> 0 then None
            else if nows w 0 \<ge> scheduled_at w e then exec e (putw w s)
            else map_option (\<lambda>w'. putw w' (putw w s)) (schedule e (scheduled_at w e - nows w 0) w)
       else exec e (putw w s)) = Some s1 \<Longrightarrow> Q s1 s' \<Longrightarrow> Q s s'"
  shows "Q s s'"
proof -
  have "drain_slot g p x l j s = Some s' \<Longrightarrow> g = getw \<Longrightarrow> p = putw \<Longrightarrow> x = exec \<Longrightarrow> l = L \<Longrightarrow> j = i \<Longrightarrow> Q s s'"
    for g p x l j s s'
  proof (induction g p x l j s s' rule: drain_slot.raw_induct [rotated, consumes 1])
    case (1 rec g p x l j s s')
    show ?case
    proof (cases "slots (getw s) L i = []")
      case True
      with 1 nil show ?thesis by simp
    next
      case False
      with 1(2) [unfolded 1(3-)] obtain e w where pop: "pop_event L i (getw s) = Some (e, w)"
        by (cases "pop_event L i (getw s)") auto
      with False 1(2) [unfolded 1(3-)] obtain s1 where
        "(if L > 0
          then if nows w 0 mod 256 \<noteq> 0 then None
               else if nows w 0 \<ge> scheduled_at w e then exec e (putw w s)
               else map_option (\<lambda>w'. putw w' (putw w s)) (schedule e (scheduled_at w e - nows w 0) w)
          else exec e (putw w s)) = Some s1" "rec getw putw exec L i s1 = Some s'"
        by (simp only: if_False bind.simps prod.case Let_def) (elim bind_SomeE, erule that)
      with 1(1) step [OF False pop] show ?thesis by blast
    qed
  qed
  with run show ?thesis by blast
qed
end
