(* ===== verification/World.thy ===== *)
theory World
  imports Node_Container Chart_Data Event_Queue Event_Info Timer_Wheel
begin

text \<open>
  The state of the engine: the objects of \<open>include/core/{node,node_attacher,chart,agent,manager,
  executor}.h\<close> in heaps, with their accessors. A pointer to an agent or a chart is the address of
  its record; \<open>w_agents\<close> and \<open>w_charts\<close> have no entry for an address that is not allocated or was
  deleted, so that following a dangling pointer gives \<open>None\<close>. The \<open>Node\<close> objects of a chart live in
  its record and die with it.

  The script language is a parameter: its state is a value of type \<open>'e\<close>, its functions are
  resumable scripts (theory Script). The objects of the language (\<open>PyObject*\<close>) are the values below.
\<close>

datatype val = VNone | VBool bool | VInt int | VStr string | VObj nat

text \<open>Truth value of an object (\<open>ObjIsBool\<close>, \<open>PyObject_IsTrue\<close>); user objects are true.\<close>

fun ObjIsBool :: "val \<Rightarrow> bool" where
  "ObjIsBool VNone = False"
| "ObjIsBool (VBool b) = b"
| "ObjIsBool (VInt i) = (i \<noteq> 0)"
| "ObjIsBool (VStr s) = (s \<noteq> [])"
| "ObjIsBool (VObj _) = True"

fun PyBool_Check :: "val \<Rightarrow> bool" where
  "PyBool_Check (VBool _) = True"
| "PyBool_Check _ = False"

fun PyNumber_Check :: "val \<Rightarrow> bool" where
  "PyNumber_Check (VBool _) = True"
| "PyNumber_Check (VInt _) = True"
| "PyNumber_Check _ = False"

section \<open>Objects\<close>

datatype node_result = rFALSE | rTRUE | rSTOP

datatype node_status = Idle | Running | EndRun

text \<open>\<open>INodeAttacher\<close> and its three implementations. A \<open>NodeTimer\<close> is known to the timer wheel by
  its node.\<close>

datatype attacher =
    NodeTimer (time_interval: int)
  | Subchart (sub_chart: nat)
  | NodeWaitAll (node_ids: "(int \<times> bool) list")

record node =
  node_id :: nat
  pre_node_id :: int
  true_count :: nat
  false_count :: nat
  result :: node_result
  status :: node_status
  run_flag :: bool
  skip :: bool
  is_wait_all :: bool
  attacher :: "attacher option"

definition new_node :: "node_data \<Rightarrow> node" where
  "new_node d = \<lparr>node_id = data_id d, pre_node_id = - 1, true_count = 0, false_count = 0,
     result = rTRUE, status = Idle, run_flag = False, skip = False, is_wait_all = False,
     attacher = None\<rparr>"

text \<open>A chart, with the fields of the Python binding (\<open>include/py/py_chart.h\<close>): its variables, once
  allocated, the callback and the table of initial values.\<close>

record chart =
  owner_node :: "nptr option"
  chart_data_ptr :: nat
  chart_agent :: "nat option"
  chart_running :: bool
  nodes :: "node list"
  py_variables :: "val list option"
  py_call :: val
  py_init_table :: "(string \<times> val) list option"

datatype agent_status = AgentRunning | AgentDestroying

record agent =
  agent_id :: nat
  tick_interval :: int
  agent_status :: agent_status
  chart_dict :: "(string \<times> nat list) list"
  game_object :: nat

text \<open>A raised event keeps the identifier of the agent, not its address.\<close>

record event =
  ev_id :: int
  ev_agent_id :: nat
  ev_args :: "val list"

datatype timer_ref = TNode nptr | TAgent nat

section \<open>The world\<close>

text \<open>
  \<open>w_cur_agent\<close> and \<open>w_cur_node\<close> are the fields of the sixteen executors of the \<open>StackExecutor\<close>,
  \<open>w_index\<close> is its \<open>current_index_\<close> (its \<open>current_\<close> is always the executor of that index);
  \<open>w_async\<close> is \<open>nodes_set_\<close> of the \<open>AsyncManager\<close>.
\<close>

record 'e world =
  w_agents :: "nat \<rightharpoonup> agent"
  w_charts :: "nat \<rightharpoonup> chart"
  w_datas :: "nat \<rightharpoonup> chart_data"
  w_chart_dict :: "string \<rightharpoonup> nat"
  w_cs :: cstore
  w_async :: "nptr set"
  w_index :: nat
  w_cur_agent :: "nat \<Rightarrow> nat option"
  w_cur_node :: "nat \<Rightarrow> nptr option"
  w_event :: "event option"
  w_event_frame :: nat
  w_queue :: "event equeue"
  w_wheel :: "timer_ref wheel"
  w_agent_map :: "(nat \<times> nat) list"
  w_object_map :: "(nat \<times> nat) list"
  w_id_count :: nat
  w_dying :: "nat dying_agents"
  w_frame :: nat
  w_in_step :: bool
  w_defer :: bool
  w_stop_when_error :: bool
  w_interval :: int
  w_events :: event_manager
  w_next_agent :: nat
  w_next_chart :: nat
  w_env :: 'e

section \<open>Accessors\<close>

definition get_node :: "nptr \<Rightarrow> 'e world \<Rightarrow> node option" where
  "get_node n w =
     do { ch \<leftarrow> w_charts w (np_chart n);
          if np_index n < length (nodes ch) then Some (nodes ch ! np_index n) else None }"

definition upd_chart :: "nat \<Rightarrow> (chart \<Rightarrow> chart) \<Rightarrow> 'e world \<Rightarrow> 'e world option" where
  "upd_chart c f w = do { ch \<leftarrow> w_charts w c; Some (w\<lparr>w_charts := (w_charts w)(c \<mapsto> f ch)\<rparr>) }"

definition upd_node :: "nptr \<Rightarrow> (node \<Rightarrow> node) \<Rightarrow> 'e world \<Rightarrow> 'e world option" where
  "upd_node n f w =
     do { nd \<leftarrow> get_node n w;
          upd_chart (np_chart n) (\<lambda>ch. ch\<lparr>nodes := (nodes ch)[np_index n := f nd]\<rparr>) w }"

definition upd_agent :: "nat \<Rightarrow> (agent \<Rightarrow> agent) \<Rightarrow> 'e world \<Rightarrow> 'e world option" where
  "upd_agent a f w = do { ag \<leftarrow> w_agents w a; Some (w\<lparr>w_agents := (w_agents w)(a \<mapsto> f ag)\<rparr>) }"

definition on_cs :: "(cstore \<Rightarrow> cstore option) \<Rightarrow> 'e world \<Rightarrow> 'e world option" where
  "on_cs f w = do { cs \<leftarrow> f (w_cs w); Some (w\<lparr>w_cs := cs\<rparr>) }"

text \<open>\<open>node->GetData()\<close>, \<open>node->GetAgent()\<close>, \<open>chart->GetData()\<close>.\<close>

definition chart_data_of :: "nat \<Rightarrow> 'e world \<Rightarrow> chart_data option" where
  "chart_data_of c w = do { ch \<leftarrow> w_charts w c; w_datas w (chart_data_ptr ch) }"

definition data_of :: "nptr \<Rightarrow> 'e world \<Rightarrow> node_data option" where
  "data_of n w = do { d \<leftarrow> chart_data_of (np_chart n) w; GetNodeData (np_index n) d }"

definition agent_of :: "nptr \<Rightarrow> 'e world \<Rightarrow> nat option" where
  "agent_of n w = do { ch \<leftarrow> w_charts w (np_chart n); chart_agent ch }"

definition SetStatus :: "node_status \<Rightarrow> nptr \<Rightarrow> 'e world \<Rightarrow> 'e world option" where
  "SetStatus s n = upd_node n (\<lambda>nd. nd\<lparr>status := s\<rparr>)"

definition SetResult :: "node_result \<Rightarrow> nptr \<Rightarrow> 'e world \<Rightarrow> 'e world option" where
  "SetResult r n = upd_node n (\<lambda>nd. nd\<lparr>result := r\<rparr>)"

definition SetSkip :: "bool \<Rightarrow> nptr \<Rightarrow> 'e world \<Rightarrow> 'e world option" where
  "SetSkip b n = upd_node n (\<lambda>nd. nd\<lparr>skip := b\<rparr>)"

definition SetRunFlag :: "bool \<Rightarrow> nptr \<Rightarrow> 'e world \<Rightarrow> 'e world option" where
  "SetRunFlag b n = upd_node n (\<lambda>nd. nd\<lparr>run_flag := b\<rparr>)"

definition set_attacher :: "attacher option \<Rightarrow> nptr \<Rightarrow> 'e world \<Rightarrow> 'e world option" where
  "set_attacher a n = upd_node n (\<lambda>nd. nd\<lparr>attacher := a\<rparr>)"

definition result_of_bool :: "bool \<Rightarrow> node_result" where
  "result_of_bool b = (if b then rTRUE else rFALSE)"

definition set_running :: "bool \<Rightarrow> nat \<Rightarrow> 'e world \<Rightarrow> 'e world option" where
  "set_running b c = upd_chart c (\<lambda>ch. ch\<lparr>chart_running := b\<rparr>)"

definition set_agent :: "nat option \<Rightarrow> nat \<Rightarrow> 'e world \<Rightarrow> 'e world option" where
  "set_agent a c = upd_chart c (\<lambda>ch. ch\<lparr>chart_agent := a\<rparr>)"

definition GetCurrentNode :: "'e world \<Rightarrow> nptr option" where
  "GetCurrentNode w = w_cur_node w (w_index w)"

end
