(* ===== verification/Lifecycle.thy ===== *)
theory Lifecycle
  imports World
begin

text \<open>
  Stopping and destroying: \<open>Node::Stop\<close> and the destructors of \<open>src/core/node.cpp\<close>,
  \<open>src/core/node_timer.cpp\<close>, \<open>src/core/chart.cpp\<close>, \<open>src/core/agent.cpp\<close>, and the variables of a
  Python chart (\<open>src/py/py_chart.cpp\<close>). A node with a subchart stops and destroys it: the recursion
  goes from a chart to the subcharts of its nodes. Its depth is bounded by the number of charts ever
  created, because a subchart is created after the chart of its owner node; that number is the
  fuel, and theory \<open>Stopping\<close> proves that it is enough.
\<close>

section \<open>Variables of a chart\<close>

definition GetVarCount :: "nat \<Rightarrow> 'e world \<Rightarrow> nat option" where
  "GetVarCount c w = map_option variable_count (chart_data_of c w)"

text \<open>\<open>for i < var_count: variables_[i] = None\<close>, on an array of length \<open>length vs\<close>.\<close>

definition none_upto :: "nat \<Rightarrow> val list \<Rightarrow> val list option" where
  "none_upto k vs = (if k \<le> length vs then Some (replicate k VNone @ drop k vs) else None)"

definition ClearVariables :: "nat \<Rightarrow> 'e world \<Rightarrow> 'e world option" where
  "ClearVariables c w =
     do { k \<leftarrow> GetVarCount c w;
          ch \<leftarrow> w_charts w c;
          case py_variables ch of
            None \<Rightarrow> Some w
          | Some vs \<Rightarrow> do { vs \<leftarrow> none_upto k vs; upd_chart c (\<lambda>ch. ch\<lparr>py_variables := Some vs\<rparr>) w } }"

definition InitArgs :: "nat \<Rightarrow> 'e world \<Rightarrow> 'e world option" where
  "InitArgs c w =
     do { k \<leftarrow> GetVarCount c w;
          ch \<leftarrow> w_charts w c;
          vs \<leftarrow> (case py_variables ch of
                  None \<Rightarrow> Some (replicate k VNone)
                | Some vs \<Rightarrow> none_upto k vs);
          upd_chart c (\<lambda>ch. ch\<lparr>py_variables := Some vs\<rparr>) w }"

text \<open>The check lets \<open>id = var_count\<close> through, one past the end of the array.\<close>

definition SetVar :: "int \<Rightarrow> val \<Rightarrow> nat \<Rightarrow> 'e world \<Rightarrow> (bool \<times> 'e world) option" where
  "SetVar i v c w =
     do { k \<leftarrow> GetVarCount c w;
          if i > int k \<or> i < 0 then Some (False, w)
          else do { ch \<leftarrow> w_charts w c;
                    vs \<leftarrow> py_variables ch;
                    if nat i < length vs
                    then map_option (Pair True)
                           (upd_chart c (\<lambda>ch. ch\<lparr>py_variables := Some (vs[nat i := v])\<rparr>) w)
                    else None } }"

definition GetVar :: "int \<Rightarrow> nat \<Rightarrow> 'e world \<Rightarrow> val option" where
  "GetVar i c w =
     do { k \<leftarrow> GetVarCount c w;
          if i > int k \<or> i < 0 then Some VNone
          else do { ch \<leftarrow> w_charts w c;
                    vs \<leftarrow> py_variables ch;
                    if nat i < length vs then Some (vs ! nat i) else None } }"

definition SetArgs :: "val list \<Rightarrow> nat \<Rightarrow> 'e world \<Rightarrow> 'e world option" where
  "SetArgs args c w =
     do { k \<leftarrow> GetVarCount c w;
          foldM (\<lambda>i w. map_option snd (SetVar (int i) (args ! i) c w)) [0..<min k (length args)] w }"

section \<open>Stopping\<close>

definition reset_ids :: "(int \<times> bool) list \<Rightarrow> (int \<times> bool) list" where
  "reset_ids ids = map (\<lambda>(i, _). (i, False)) ids"

definition cancel_timer :: "timer_ref \<Rightarrow> 'e world \<Rightarrow> 'e world" where
  "cancel_timer t w = w\<lparr>w_wheel := cancel t (w_wheel w)\<rparr>"

text \<open>\<open>attacher_->Stop()\<close>; \<open>stop_chart\<close> is \<open>Chart::Stop\<close>.\<close>

definition Attacher_Stop ::
  "(nat \<Rightarrow> 'e world \<Rightarrow> 'e world option) \<Rightarrow> attacher \<Rightarrow> nptr \<Rightarrow> 'e world \<Rightarrow> 'e world option" where
  "Attacher_Stop stop_chart a n w =
     (case a of
        NodeTimer _ \<Rightarrow> Some (cancel_timer (TNode n) w)
      | Subchart c \<Rightarrow> stop_chart c w
      | NodeWaitAll ids \<Rightarrow> set_attacher (Some (NodeWaitAll (reset_ids ids))) n w)"

definition Node_Stop_with :: "(nat \<Rightarrow> 'e world \<Rightarrow> 'e world option) \<Rightarrow> nptr \<Rightarrow> 'e world \<Rightarrow> 'e world option" where
  "Node_Stop_with stop_chart n w =
     do { w \<leftarrow> upd_node n (\<lambda>nd. nd\<lparr>status := Idle, result := rSTOP, run_flag := False, skip := False\<rparr>) w;
          nd \<leftarrow> get_node n w;
          w \<leftarrow> (case attacher nd of None \<Rightarrow> Some w | Some a \<Rightarrow> Attacher_Stop stop_chart a n w);
          on_cs (leave n) w }"

primrec Chart_Stop_fuel :: "nat \<Rightarrow> nat \<Rightarrow> 'e world \<Rightarrow> 'e world option" where
  "Chart_Stop_fuel 0 c w = None"
| "Chart_Stop_fuel (Suc f) c w =
     do { ch \<leftarrow> w_charts w c;
          w \<leftarrow> foldM (\<lambda>i. Node_Stop_with (Chart_Stop_fuel f) (NP c i)) [0..<length (nodes ch)] w;
          w \<leftarrow> set_running False c w;
          ClearVariables c w }"

definition Chart_Stop :: "nat \<Rightarrow> 'e world \<Rightarrow> 'e world option" where
  "Chart_Stop c w = Chart_Stop_fuel (w_next_chart w) c w"

definition Node_Stop :: "nptr \<Rightarrow> 'e world \<Rightarrow> 'e world option" where
  "Node_Stop n w = Node_Stop_with (Chart_Stop_fuel (w_next_chart w)) n w"

section \<open>Destroying\<close>

definition Chart_Name :: "nat \<Rightarrow> 'e world \<Rightarrow> string option" where
  "Chart_Name c w = map_option chart_name (chart_data_of c w)"

text \<open>\<open>Agent::EraseChart\<close> on agent \<open>a\<close>.\<close>

definition EraseChart :: "nat \<Rightarrow> nat \<Rightarrow> 'e world \<Rightarrow> (bool \<times> 'e world) option" where
  "EraseChart a c w =
     do { name \<leftarrow> Chart_Name c w;
          ag \<leftarrow> w_agents w a;
          case map_of (chart_dict ag) name of
            None \<Rightarrow> Some (False, w)
          | Some cs \<Rightarrow>
              if c \<in> set cs
              then do { w \<leftarrow> set_agent None c w;
                        w \<leftarrow> upd_agent a (\<lambda>ag. ag\<lparr>chart_dict :=
                               AList.update name (remove1 c cs) (chart_dict ag)\<rparr>) w;
                        Some (True, w) }
              else Some (False, w) }"

text \<open>\<open>delete attacher_\<close>; \<open>delete_chart\<close> is the destruction of a chart.\<close>

definition delete_attacher ::
  "(nat \<Rightarrow> 'e world \<Rightarrow> 'e world option) \<Rightarrow> attacher \<Rightarrow> nptr \<Rightarrow> 'e world \<Rightarrow> 'e world option" where
  "delete_attacher delete_chart a n w =
     (case a of
        NodeTimer _ \<Rightarrow> Some (cancel_timer (TNode n) w)
      | Subchart c \<Rightarrow> delete_chart c w
      | NodeWaitAll _ \<Rightarrow> Some w)"

definition SetAttacher_with ::
  "(nat \<Rightarrow> 'e world \<Rightarrow> 'e world option) \<Rightarrow> attacher option \<Rightarrow> nptr \<Rightarrow> 'e world \<Rightarrow> 'e world option" where
  "SetAttacher_with delete_chart a n w =
     do { nd \<leftarrow> get_node n w;
          w \<leftarrow> (case attacher nd of None \<Rightarrow> Some w | Some old \<Rightarrow> delete_attacher delete_chart old n w);
          set_attacher a n w }"

text \<open>\<open>~Node\<close>, with the fuel of the nested stops.\<close>

definition delete_node ::
  "nat \<Rightarrow> (nat \<Rightarrow> 'e world \<Rightarrow> 'e world option) \<Rightarrow> nptr \<Rightarrow> 'e world \<Rightarrow> 'e world option" where
  "delete_node f delete_chart n w =
     do { w \<leftarrow> Node_Stop_with (Chart_Stop_fuel f) n w;
          SetAttacher_with delete_chart None n w }"

text \<open>\<open>~PyChart\<close> and \<open>~Chart\<close>.\<close>

primrec delete_chart_fuel :: "nat \<Rightarrow> nat \<Rightarrow> 'e world \<Rightarrow> 'e world option" where
  "delete_chart_fuel 0 c w = None"
| "delete_chart_fuel (Suc f) c w =
     do { w \<leftarrow> ClearVariables c w;
          ch \<leftarrow> w_charts w c;
          w \<leftarrow> foldM (\<lambda>i. delete_node f (delete_chart_fuel f) (NP c i)) [0..<length (nodes ch)] w;
          ch \<leftarrow> w_charts w c;
          w \<leftarrow> (case chart_agent ch of None \<Rightarrow> Some w
                | Some a \<Rightarrow> map_option snd (EraseChart a c w));
          w \<leftarrow> (case owner_node ch of None \<Rightarrow> Some w | Some n \<Rightarrow> set_attacher None n w);
          Some (w\<lparr>w_charts := (w_charts w)(c := None)\<rparr>) }"

definition delete_chart :: "nat \<Rightarrow> 'e world \<Rightarrow> 'e world option" where
  "delete_chart c w = delete_chart_fuel (w_next_chart w) c w"

definition SetAttacher :: "attacher option \<Rightarrow> nptr \<Rightarrow> 'e world \<Rightarrow> 'e world option" where
  "SetAttacher a n w = SetAttacher_with (delete_chart_fuel (w_next_chart w)) a n w"

text \<open>The loop of \<open>~Agent\<close> over one list of charts. Every pass removes the chart it looks at from
  the list of the agent; \<open>k\<close> passes at most, where \<open>k\<close> is the length of the list.\<close>

primrec delete_chart_list :: "nat \<Rightarrow> string \<Rightarrow> nat \<Rightarrow> 'e world \<Rightarrow> 'e world option" where
  "delete_chart_list a name 0 w =
     do { ag \<leftarrow> w_agents w a;
          cs \<leftarrow> map_of (chart_dict ag) name;
          if cs = [] then Some w else None }"
| "delete_chart_list a name (Suc k) w =
     do { ag \<leftarrow> w_agents w a;
          cs \<leftarrow> map_of (chart_dict ag) name;
          if cs = [] then Some w
          else do { ch \<leftarrow> w_charts w (last cs);
                    w \<leftarrow> (case owner_node ch of
                            Some n \<Rightarrow> SetAttacher None n w
                          | None \<Rightarrow> delete_chart (last cs) w);
                    delete_chart_list a name k w } }"

definition delete_agent :: "nat \<Rightarrow> 'e world \<Rightarrow> 'e world option" where
  "delete_agent a w =
     do { let w = cancel_timer (TAgent a) w;
          w \<leftarrow> on_cs (\<lambda>cs. Some (wait_delete a cs)) w;
          ag \<leftarrow> w_agents w a;
          w \<leftarrow> foldM (\<lambda>(name, cs). delete_chart_list a name (length cs)) (chart_dict ag) w;
          Some (w\<lparr>w_agents := (w_agents w)(a := None)\<rparr>) }"

end
