(* ===== verification/Node_Ops.thy ===== *)
theory Node_Ops
  imports Lifecycle
begin

text \<open>
  The operations of the manager and of agents that do not run nodes: what a node function does to
  the node it runs in (\<open>Wait\<close>, \<open>WaitAll\<close>, \<open>StopNode\<close>, \<open>StopFlow\<close>, \<open>WaitEvent\<close>, the asynchronous
  contexts), registration of agents, attaching, finding and removing charts
  (\<open>src/core/manager.cpp\<close>, \<open>src/core/agent.cpp\<close>, \<open>src/core/node_timer.cpp\<close>,
  \<open>src/core/async_manager.cpp\<close>, \<open>include/core/agent_manager.h\<close>, \<open>src/py/py_manager.cpp\<close>).
\<close>

section \<open>Timers\<close>

definition DEFAULT_AGENT_TICK :: int where "DEFAULT_AGENT_TICK = 1000"
definition DEFAULT_STEP_INTERVAL :: int where "DEFAULT_STEP_INTERVAL = 30"

definition Now :: "'e world \<Rightarrow> nat" where
  "Now w = nows (w_wheel w) 0"

text \<open>A negative interval converts to a tick beyond \<open>2 ^ 63\<close>; a zero interval fails the assertion
  of the wheel.\<close>

definition add_timer :: "timer_ref \<Rightarrow> int \<Rightarrow> 'e world \<Rightarrow> 'e world option" where
  "add_timer t ms w =
     do { wh \<leftarrow> AddTimer t (nat (ms mod 2 ^ 64)) (w_wheel w); Some (w\<lparr>w_wheel := wh\<rparr>) }"

definition NodeTimer_Register :: "nptr \<Rightarrow> int \<Rightarrow> 'e world \<Rightarrow> 'e world option" where
  "NodeTimer_Register n ms w =
     do { let w = cancel_timer (TNode n) w;
          a \<leftarrow> agent_of n w;
          _ \<leftarrow> w_agents w a;
          add_timer (TNode n) ms w }"

definition AgentTimer_Start :: "nat \<Rightarrow> 'e world \<Rightarrow> 'e world option" where
  "AgentTimer_Start a w = do { ag \<leftarrow> w_agents w a; add_timer (TAgent a) (tick_interval ag) w }"

definition SetTickInterval :: "int \<Rightarrow> nat \<Rightarrow> 'e world \<Rightarrow> 'e world option" where
  "SetTickInterval tick a w =
     do { w \<leftarrow> upd_agent a (\<lambda>ag. ag\<lparr>tick_interval := tick\<rparr>) w;
          ag \<leftarrow> w_agents w a;
          if agent_status ag = AgentRunning
          then AgentTimer_Start a (cancel_timer (TAgent a) w) else Some w }"

section \<open>Inside a node function\<close>

definition Manager_Wait :: "int \<Rightarrow> 'e world \<Rightarrow> 'e world option" where
  "Manager_Wait milliseconds w =
     (let ms = (if milliseconds \<le> 0 then 1 else milliseconds) in
      case GetCurrentNode w of
        None \<Rightarrow> Some w
      | Some n \<Rightarrow>
          do { nd \<leftarrow> get_node n w;
               w \<leftarrow> (case attacher nd of
                       Some (NodeTimer _) \<Rightarrow>
                         do { w \<leftarrow> NodeTimer_Register n ms w; set_attacher (Some (NodeTimer ms)) n w }
                     | _ \<Rightarrow>
                         do { w \<leftarrow> NodeTimer_Register n ms w; SetAttacher (Some (NodeTimer ms)) n w });
               w \<leftarrow> SetSkip True n w;
               w \<leftarrow> SetResult rTRUE n w;
               SetStatus Running n w })"

text \<open>\<open>NodeWaitAll::Init\<close> and \<open>NodeWaitAll::Run\<close> on the \<open>std::map\<close> of node identifiers.\<close>

definition WaitAll_Init :: "int list \<Rightarrow> (int \<times> bool) list" where
  "WaitAll_Init args = fold (\<lambda>i ids. if i \<in> set (map fst ids) then ids else ids @ [(i, False)]) args []"

definition WaitAll_Run :: "int \<Rightarrow> (int \<times> bool) list \<Rightarrow> bool \<times> (int \<times> bool) list" where
  "WaitAll_Run i ids =
     (if i \<in> set (map fst ids)
      then let ids = map (\<lambda>(j, b). (j, if j = i then True else b)) ids
           in if list_all snd ids then (True, reset_ids ids) else (False, ids)
      else (False, ids))"

text \<open>The cast of \<open>WaitAll\<close> is unchecked: on a node with another attacher its effect is
  undefined.\<close>

definition Manager_WaitAll :: "int list \<Rightarrow> 'e world \<Rightarrow> (bool \<times> 'e world) option" where
  "Manager_WaitAll args w =
     do { n \<leftarrow> GetCurrentNode w;
          w \<leftarrow> upd_node n (\<lambda>nd. nd\<lparr>is_wait_all := True\<rparr>) w;
          nd \<leftarrow> get_node n w;
          ids \<leftarrow> (case attacher nd of
                   None \<Rightarrow> Some (WaitAll_Init args)
                 | Some (NodeWaitAll ids) \<Rightarrow> Some ids
                 | Some _ \<Rightarrow> None);
          let (r, ids) = WaitAll_Run (pre_node_id nd) ids;
          w \<leftarrow> set_attacher (Some (NodeWaitAll ids)) n w;
          w \<leftarrow> (if \<not> r then SetStatus Running n w
                else do { w \<leftarrow> SetStatus EndRun n w; SetResult rTRUE n w });
          Some (r, w) }"

text \<open>\<open>executor_.Remove(node)\<close>, on the current executor.\<close>

definition executor_Remove :: "nptr \<Rightarrow> 'e world \<Rightarrow> 'e world option" where
  "executor_Remove n w =
     do { _ \<leftarrow> get_node n w; on_cs (\<lambda>cs. Some (Exec_Remove (w_index w) n cs)) w }"

definition stop_and_remove :: "nptr \<Rightarrow> 'e world \<Rightarrow> 'e world option" where
  "stop_and_remove n w = do { w \<leftarrow> Node_Stop n w; executor_Remove n w }"

definition Manager_StopNode :: "int list \<Rightarrow> 'e world \<Rightarrow> (bool \<times> 'e world) option" where
  "Manager_StopNode args w =
     do { n \<leftarrow> GetCurrentNode w;
          ch \<leftarrow> w_charts w (np_chart n);
          let max_id = int (length (nodes ch));
          w \<leftarrow> foldM (\<lambda>i w. if i \<ge> max_id then Some w
                          else if i < 0 then None
                          else stop_and_remove (NP (np_chart n) (nat i)) w) args w;
          Some (True, w) }"

text \<open>The loop over \<open>id_queue\<close>; \<open>succ\<close> gives the children of a node, those of success first, and
  \<open>m\<close> is the number of nodes: an identifier beyond it is an index outside the vector.\<close>

function stop_bfs :: "(nat \<Rightarrow> nat list option) \<Rightarrow> nat \<Rightarrow> nat list \<Rightarrow> nat set \<Rightarrow> nat set option" where
  "stop_bfs succ m [] stop_id = Some stop_id"
| "stop_bfs succ m (head # id_queue) stop_id =
     (if head \<in> stop_id then stop_bfs succ m id_queue stop_id
      else if head \<ge> m then None
      else do { cs \<leftarrow> succ head; stop_bfs succ m (id_queue @ cs) (insert head stop_id) })"
  by pat_completeness auto
termination
proof (relation "measures [\<lambda>(succ, m, q, V). card ({..<m} - V), \<lambda>(succ, m, q, V). length q]", goal_cases)
  case (3 succ m head q V cs)
  from 3(1,2) have "head \<in> {..<m} - V" by simp
  then have "{..<m} - insert head V \<subset> {..<m} - V" by blast
  then have "card ({..<m} - insert head V) < card ({..<m} - V)"
    by (rule psubset_card_mono [rotated]) (rule finite_Diff, rule finite_lessThan)
  then show ?case by simp
qed auto

definition node_children :: "nat \<Rightarrow> 'e world \<Rightarrow> nat \<Rightarrow> nat list option" where
  "node_children c w i =
     do { d \<leftarrow> data_of (NP c i) w; Some (GetSubsequenceIds True d @ GetSubsequenceIds False d) }"

definition collect_stop_ids :: "nat \<Rightarrow> nat \<Rightarrow> int list \<Rightarrow> 'e world \<Rightarrow> nat set option" where
  "collect_stop_ids c m args w =
     foldM (\<lambda>i V. if i \<ge> int m then Some V
                  else if i < 0 then None
                  else do { nd \<leftarrow> get_node (NP c (nat i)) w;
                            stop_bfs (node_children c w) m [node_id nd] V }) args {}"

definition Manager_StopFlow :: "int list \<Rightarrow> 'e world \<Rightarrow> (bool \<times> 'e world) option" where
  "Manager_StopFlow args w =
     do { n \<leftarrow> GetCurrentNode w;
          let c = np_chart n;
          ch \<leftarrow> w_charts w c;
          stop_id \<leftarrow> collect_stop_ids c (length (nodes ch)) args w;
          w \<leftarrow> foldM (\<lambda>i. stop_and_remove (NP c i)) (sorted_list_of_set stop_id) w;
          Some (True, w) }"

text \<open>The pushes and the pop of a container with the access to the node they make, and
  \<open>Agent::GetWaitNodes\<close> followed by \<open>Push\<close> in \<open>Agent::WaitEvent\<close>.\<close>

definition wait_Push :: "wkey \<Rightarrow> nptr \<Rightarrow> 'e world \<Rightarrow> 'e world option" where
  "wait_Push k n w = do { _ \<leftarrow> get_node n w; on_cs (\<lambda>cs. Wait_Push k n (wait_create k cs)) w }"

definition exec_Push :: "nat \<Rightarrow> nptr \<Rightarrow> 'e world \<Rightarrow> 'e world option" where
  "exec_Push i n w = do { _ \<leftarrow> get_node n w; on_cs (Exec_Push i n) w }"

definition exec_Pop :: "nat \<Rightarrow> 'e world \<Rightarrow> (nptr \<times> 'e world) option" where
  "exec_Pop i w =
     do { (n, cs) \<leftarrow> Exec_Pop i (w_cs w);
          _ \<leftarrow> get_node n w;
          Some (n, w\<lparr>w_cs := cs\<rparr>) }"

definition Agent_WaitEvent :: "nat \<Rightarrow> nptr \<Rightarrow> int \<Rightarrow> 'e world \<Rightarrow> 'e world option" where
  "Agent_WaitEvent a n event_id w =
     do { _ \<leftarrow> w_agents w a;
          if event_id < 0 \<or> event_id \<ge> GetEventCount (w_events w)
          then if event_id = 0 then None else Some w
          else do { w \<leftarrow> wait_Push (a, event_id) n w; SetStatus Running n w } }"

definition Manager_WaitEvent :: "nat option \<Rightarrow> int \<Rightarrow> 'e world \<Rightarrow> (bool \<times> 'e world) option" where
  "Manager_WaitEvent agent event_id w =
     (case GetCurrentNode w of
        None \<Rightarrow> Some (False, w)
      | Some n \<Rightarrow>
          do { d \<leftarrow> data_of n w;
               if \<not> is_event d then Some (False, w)
               else do { w \<leftarrow> SetStatus Running n w;
                         w \<leftarrow> SetSkip True n w;
                         w \<leftarrow> SetResult rTRUE n w;
                         a \<leftarrow> agent;
                         w \<leftarrow> Agent_WaitEvent a n event_id w;
                         Some (True, w) } })"

section \<open>Asynchronous nodes\<close>

definition AddNode :: "nptr \<Rightarrow> 'e world \<Rightarrow> 'e world option" where
  "AddNode n w =
     do { _ \<leftarrow> get_node n w;
          w \<leftarrow> on_cs (Await_Push n) w;
          Some (w\<lparr>w_async := insert n (w_async w)\<rparr>) }"

definition IsNodeWaiting :: "nptr \<Rightarrow> 'e world \<Rightarrow> bool" where
  "IsNodeWaiting n w \<longleftrightarrow> n \<in> w_async w"

definition RemoveNode :: "nptr \<Rightarrow> 'e world \<Rightarrow> 'e world option" where
  "RemoveNode n w =
     do { _ \<leftarrow> get_node n w;
          w \<leftarrow> on_cs (\<lambda>cs. Some (Await_Remove n cs)) w;
          Some (w\<lparr>w_async := w_async w - {n}\<rparr>) }"

definition ActivateNode :: "nptr \<Rightarrow> bool \<Rightarrow> 'e world \<Rightarrow> 'e world option" where
  "ActivateNode n skip_flag w =
     do { _ \<leftarrow> get_node n w;
          if cs_of (w_cs w) n = Some CAsyncA then Some w
          else do { w \<leftarrow> on_cs (Aact_Push n) w; SetSkip skip_flag n w } }"

definition CreateAsyncContext :: "'e world \<Rightarrow> (nptr option \<times> 'e world) option" where
  "CreateAsyncContext w =
     (case GetCurrentNode w of
        None \<Rightarrow> Some (None, w)
      | Some n \<Rightarrow> do { w \<leftarrow> SetStatus Running n w; w \<leftarrow> AddNode n w; Some (Some n, w) })"

text \<open>The context is the address of a node; a null context is in no set.\<close>

definition ContinueAsyncNode :: "nptr option \<Rightarrow> 'e world \<Rightarrow> (bool \<times> 'e world) option" where
  "ContinueAsyncNode context w =
     (case context of
        Some n \<Rightarrow> if IsNodeWaiting n w
                  then do { w \<leftarrow> RemoveNode n w; w \<leftarrow> ActivateNode n True w; Some (True, w) }
                  else Some (False, w)
      | None \<Rightarrow> Some (False, w))"

definition CancelAsyncNode :: "nptr option \<Rightarrow> bool \<Rightarrow> 'e world \<Rightarrow> (bool \<times> 'e world) option" where
  "CancelAsyncNode context stop w =
     (case context of
        Some n \<Rightarrow> if IsNodeWaiting n w
                  then do { w \<leftarrow> RemoveNode n w;
                            w \<leftarrow> (if \<not> stop
                                  then do { w \<leftarrow> ActivateNode n True w; SetResult rFALSE n w }
                                  else Some w);
                            Some (True, w) }
                  else Some (False, w)
      | None \<Rightarrow> Some (False, w))"

text \<open>\<open>PyManager::ContinueAsyncNode\<close>, which hands a value to the node.\<close>

definition Py_ContinueAsyncNode :: "nptr option \<Rightarrow> val \<Rightarrow> 'e world \<Rightarrow> (bool \<times> 'e world) option" where
  "Py_ContinueAsyncNode context v w =
     do { (r, w) \<leftarrow> ContinueAsyncNode context w;
          if r
          then do { n \<leftarrow> context;
                    d \<leftarrow> data_of n w;
                    w \<leftarrow> (if var_id d \<ge> 0 then map_option snd (SetVar (var_id d) v (np_chart n) w)
                          else Some w);
                    w \<leftarrow> SetResult (result_of_bool (ObjIsBool v)) n w;
                    Some (r, w) }
          else Some (r, w) }"

section \<open>Charts of an agent\<close>

definition GetChartData :: "string \<Rightarrow> 'e world \<Rightarrow> nat option" where
  "GetChartData name w = w_chart_dict w name"

text \<open>\<open>CreateChart\<close> with the constructor \<open>PyChart\<close>, then \<open>Chart::Init\<close>.\<close>

definition CreateChart :: "nat \<Rightarrow> nptr option \<Rightarrow> 'e world \<Rightarrow> (nat \<times> 'e world) option" where
  "CreateChart d owner w =
     do { data \<leftarrow> w_datas w d;
          let c = w_next_chart w;
          let ch = \<lparr>owner_node = owner, chart_data_ptr = d, chart_agent = None, chart_running = False,
               nodes = map new_node (node_list data), py_variables = None, py_call = VNone,
               py_init_table = None\<rparr>;
          Some (c, w\<lparr>w_charts := (w_charts w)(c \<mapsto> ch), w_next_chart := c + 1\<rparr>) }"

text \<open>The first chart of a list with the given owner node.\<close>

primrec find_owner :: "nptr option \<Rightarrow> nat list \<Rightarrow> 'e world \<Rightarrow> nat option option" where
  "find_owner owner [] w = Some None"
| "find_owner owner (c # cs) w =
     do { ch \<leftarrow> w_charts w c;
          if owner_node ch = owner then Some (Some c) else find_owner owner cs w }"

definition AddChart :: "nat \<Rightarrow> nptr option \<Rightarrow> nat \<Rightarrow> 'e world \<Rightarrow> (bool \<times> 'e world) option" where
  "AddChart c owner a w =
     do { name \<leftarrow> Chart_Name c w;
          ag \<leftarrow> w_agents w a;
          let dict = (if map_of (chart_dict ag) name = None then chart_dict ag @ [(name, [])]
                      else chart_dict ag);
          w \<leftarrow> upd_agent a (\<lambda>ag. ag\<lparr>chart_dict := dict\<rparr>) w;
          cs \<leftarrow> map_of dict name;
          found \<leftarrow> find_owner owner cs w;
          case found of
            Some _ \<Rightarrow> Some (False, w)
          | None \<Rightarrow>
              do { w \<leftarrow> set_agent (Some a) c w;
                   w \<leftarrow> upd_agent a (\<lambda>ag. ag\<lparr>chart_dict := AList.update name (cs @ [c]) dict\<rparr>) w;
                   Some (True, w) } }"

definition Agent_AttachChart :: "nat \<Rightarrow> nat \<Rightarrow> 'e world \<Rightarrow> (nat option \<times> 'e world) option" where
  "Agent_AttachChart d a w =
     do { (c, w) \<leftarrow> CreateChart d None w;
          (ok, w) \<leftarrow> AddChart c None a w;
          if ok then Some (Some c, w)
          else do { w \<leftarrow> delete_chart c w; Some (None, w) } }"

definition Manager_AttachChart :: "nat \<Rightarrow> string \<Rightarrow> 'e world \<Rightarrow> (nat option \<times> 'e world) option" where
  "Manager_AttachChart a name w =
     (case GetChartData name w of
        None \<Rightarrow> Some (None, w)
      | Some d \<Rightarrow> Agent_AttachChart d a w)"

definition FindChart :: "string \<Rightarrow> nptr option \<Rightarrow> nat \<Rightarrow> 'e world \<Rightarrow> nat option option" where
  "FindChart name owner a w =
     do { ag \<leftarrow> w_agents w a;
          case map_of (chart_dict ag) name of
            None \<Rightarrow> Some None
          | Some cs \<Rightarrow> find_owner owner cs w }"

definition RemoveChart :: "string \<Rightarrow> nat \<Rightarrow> 'e world \<Rightarrow> (bool \<times> 'e world) option" where
  "RemoveChart name a w =
     do { found \<leftarrow> FindChart name None a w;
          case found of
            None \<Rightarrow> Some (False, w)
          | Some c \<Rightarrow> do { w \<leftarrow> delete_chart c w; Some (True, w) } }"

definition StopChart :: "string \<Rightarrow> nat \<Rightarrow> 'e world \<Rightarrow> (bool \<times> 'e world) option" where
  "StopChart name a w =
     do { found \<leftarrow> FindChart name None a w;
          case found of
            None \<Rightarrow> Some (False, w)
          | Some c \<Rightarrow> do { w \<leftarrow> Chart_Stop c w; Some (True, w) } }"

definition all_charts :: "agent \<Rightarrow> nat list" where
  "all_charts ag = concat (map snd (chart_dict ag))"

definition Agent_Stop :: "nat \<Rightarrow> 'e world \<Rightarrow> 'e world option" where
  "Agent_Stop a w = do { ag \<leftarrow> w_agents w a; foldM Chart_Stop (all_charts ag) w }"

section \<open>Registration\<close>

definition GetAgent :: "nat \<Rightarrow> 'e world \<Rightarrow> nat option" where
  "GetAgent obj w = map_of (w_object_map w) obj"

definition GetAgentById :: "nat \<Rightarrow> 'e world \<Rightarrow> nat option" where
  "GetAgentById i w = map_of (w_agent_map w) i"

definition Register :: "nat \<Rightarrow> 'e world \<Rightarrow> (nat \<times> 'e world) option" where
  "Register obj w =
     (case GetAgent obj w of
        Some a \<Rightarrow> Some (a, w)
      | None \<Rightarrow>
          do { let a = w_next_agent w;
               let ag = \<lparr>agent_id = 1, tick_interval = DEFAULT_AGENT_TICK,
                    agent_status = AgentRunning, chart_dict = [], game_object = obj\<rparr>;
               w \<leftarrow> AgentTimer_Start a
                      (w\<lparr>w_agents := (w_agents w)(a \<mapsto> ag), w_next_agent := a + 1\<rparr>);
               let w = w\<lparr>w_object_map := AList.update obj a (w_object_map w)\<rparr>;
               let i = w_id_count w + 1;
               w \<leftarrow> upd_agent a (\<lambda>ag. ag\<lparr>agent_id := i\<rparr>) w;
               Some (a, w\<lparr>w_id_count := i, w_agent_map := AList.update i a (w_agent_map w)\<rparr>) })"

text \<open>\<open>PyManager::RegisterGameObject\<close>. The interval is compared with the default interval of a
  step, not with the default tick of an agent.\<close>

definition RegisterGameObject :: "nat \<Rightarrow> int \<Rightarrow> 'e world \<Rightarrow> (nat option \<times> 'e world) option" where
  "RegisterGameObject obj interval w =
     (let tick = (if interval \<le> 0 then DEFAULT_AGENT_TICK else interval) in
      if GetAgent obj w \<noteq> None then Some (None, w)
      else do { (a, w) \<leftarrow> Register obj w;
                w \<leftarrow> (if tick \<noteq> w_interval w then SetTickInterval tick a w else Some w);
                Some (Some a, w) })"

definition UnRegister :: "nat \<Rightarrow> 'e world \<Rightarrow> 'e world option" where
  "UnRegister a w =
     do { ag \<leftarrow> w_agents w a;
          Some (w\<lparr>w_agent_map := AList.delete (agent_id ag) (w_agent_map w),
                  w_object_map := AList.delete (game_object ag) (w_object_map w)\<rparr>) }"

definition Manager_UnregisterGameObject :: "nat option \<Rightarrow> 'e world \<Rightarrow> (bool \<times> 'e world) option" where
  "Manager_UnregisterGameObject agent w =
     (case agent of
        None \<Rightarrow> Some (False, w)
      | Some a \<Rightarrow>
          do { ag \<leftarrow> w_agents w a;
               if agent_status ag = AgentDestroying then Some (True, w)
               else do { w \<leftarrow> upd_agent a (\<lambda>ag. ag\<lparr>agent_status := AgentDestroying\<rparr>) w;
                         w \<leftarrow> Agent_Stop a w;
                         w \<leftarrow> UnRegister a w;
                         Some (True, w\<lparr>w_dying := AddDyingAgent a (w_in_step w) (w_dying w)\<rparr>) } })"

section \<open>Settings\<close>

definition SetDefaulTimeInterval :: "int \<Rightarrow> 'e world \<Rightarrow> 'e world" where
  "SetDefaulTimeInterval interval w =
     w\<lparr>w_interval := (if interval \<le> 0 then DEFAULT_STEP_INTERVAL else interval)\<rparr>"

definition SetNodeStopWhenError :: "bool \<Rightarrow> 'e world \<Rightarrow> 'e world" where
  "SetNodeStopWhenError b w = w\<lparr>w_stop_when_error := b\<rparr>"

definition SetDeferMode :: "bool \<Rightarrow> 'e world \<Rightarrow> 'e world" where
  "SetDeferMode b w = w\<lparr>w_defer := b\<rparr>"

end
