(* ===== verification/Script.thy ===== *)
theory Script
  imports Node_Ops
begin

text \<open>
  The script language as the engine sees it. Its functions are a parameter: a node function or a
  callback is a resumable script that either returns a value, raises an exception, or calls one of
  the functions the Python module exports (\<open>src/py/export_python.cpp\<close>, \<open>export_agent.cpp\<close>, \<open>export_chart.cpp\<close>,
  \<open>export_async.cpp\<close>) and continues with the reply. The state of the language, of type \<open>'e\<close>, is
  handed over at every call and given back with the reply, because the functions the engine runs in
  the meantime may change it.

  The arguments are the parsed ones. A game object is the address of its Python object. \<open>step\<close> is
  not a call of a script: the engine is not reentrant.
\<close>

text \<open>What \<open>dump\<close> reports of a node, of a chart and of the charts above it.\<close>

record node_dump =
  nd_uid :: string
  nd_id :: nat
  nd_true_count :: nat
  nd_false_count :: nat
  nd_is_running :: bool

record chart_dump =
  cd_path :: string
  cd_nodes :: "node_dump list"
  cd_variables :: "(string \<times> string) list"
  cd_stack :: "(string \<times> string \<times> nat) list"

datatype reply =
    RVal val
  | RAgent nat
  | RChart nat
  | RAsync "nptr option"
  | RCharts "nat list"
  | RDump "chart_dump list"

datatype api =
    Py_wait int
  | Py_wait_event "nat option" int
  | Py_call_sub string nat "val list"
  | Py_event nat int "val list"
  | Py_trigger nat int "val list"
  | Py_post nat int "val list"
  | Py_ret val
  | Py_set_var "int + string" val
  | Py_get_var "int + string"
  | Py_get_event_param int int
  | Py_suspend_node
  | Py_continue_node "nptr option" val
  | Py_cancel "nptr option" bool
  | Py_wait_all "int list"
  | Py_stop_node "int list"
  | Py_stop_flow "int list"
  | Py_register nat int
  | Py_get_agent nat
  | Py_deregister nat
  | Py_attach nat string "(string \<times> val) list option"
  | Py_remove nat string
  | Py_start nat "string list option"
  | Py_stop nat "string list option"
  | Py_time
  | Py_chart_is_running nat
  | Py_chart_set_callback nat val
  | Py_chart_start nat
  | Py_chart_stop nat
  | Py_agent_is_valid nat
  | Py_agent_attach nat string "(string \<times> val) list option"
  | Py_agent_remove nat string
  | Py_agent_start nat
  | Py_agent_stop nat
  | Py_agent_get_object nat
  | Py_agent_get_graph nat string
  | Py_agent_get_graphs nat
  | Py_dump nat

datatype 'e script =
    Ret val 'e
  | Raise 'e
  | Call api 'e "reply \<Rightarrow> 'e \<Rightarrow> 'e script"

text \<open>
  What the language provides: the function of a node, by its code and name, applied to the object
  of its agent; which values can be called and what calling one does; the conversion
  \<open>PyFloat_FromString\<close> of a parameter; the text of a value (\<open>PyObject_Str\<close>, \<open>"-"\<close> when it fails); and
  how deep callbacks may nest (Python's recursion limit).
\<close>

record 'e host =
  h_func :: "string \<Rightarrow> string \<Rightarrow> nat \<Rightarrow> 'e \<Rightarrow> 'e script"
  h_callable :: "val \<Rightarrow> bool"
  h_call :: "val \<Rightarrow> val \<Rightarrow> 'e \<Rightarrow> 'e script"
  h_float :: "val \<Rightarrow> val option"
  h_str :: "val \<Rightarrow> string"
  h_depth :: nat

text \<open>What an operation needs to call back into the engine: \<open>k_run\<close> is \<open>Manager::RunFlow\<close> from the
  current executor and \<open>k_call\<close> calls a function of the language.\<close>

record 'e knot =
  k_run :: "nptr \<Rightarrow> 'e world \<Rightarrow> (bool \<times> 'e world) option"
  k_call :: "val \<Rightarrow> val \<Rightarrow> 'e world \<Rightarrow> 'e world option"

end
