(* ===== verification/Engine.thy ===== *)
theory Engine
  imports Script
begin

text \<open>
  The operations that run nodes: events and triggers, starting and returning from charts, and
  subcharts (\<open>src/core/manager.cpp\<close>, \<open>agent.cpp\<close>, \<open>chart.cpp\<close>, \<open>include/core/executor.h\<close>,
  \<open>src/py/py_chart.cpp\<close>).

  These operations call each other through the script language. The cycle is cut at the nested
  call: an operation takes a knot with \<open>RunFlow\<close> at the next executor, and \<open>run_flow\<close> ties it by
  recursion on the number of executors left.
\<close>

definition MAX_EVENT_FRAME :: nat where "MAX_EVENT_FRAME = 16"
definition MAX_NODES_PER_EXECUTION :: nat where "MAX_NODES_PER_EXECUTION = 1024"
definition MAX_STACK_SIZE :: nat where "MAX_STACK_SIZE = 16"

section \<open>Events\<close>

text \<open>\<open>AsyncEventBase::GetWaitingNodes\<close>: the key of the waiting list, when there is one.\<close>

definition GetWaitingNodes :: "event \<Rightarrow> 'e world \<Rightarrow> wkey option" where
  "GetWaitingNodes ev w =
     (case GetAgentById (ev_agent_id ev) w of
        None \<Rightarrow> None
      | Some a \<Rightarrow>
          if ev_id ev < 0 \<or> ev_id ev \<ge> GetEventCount (w_events w) then None
          else if map_of (cs_wait (w_cs w)) (a, ev_id ev) = None then None
          else Some (a, ev_id ev))"

definition waiting_list :: "wkey \<Rightarrow> 'e world \<Rightarrow> nptr list" where
  "waiting_list k w = (case map_of (cs_wait (w_cs w)) k of None \<Rightarrow> [] | Some xs \<Rightarrow> xs)"

text \<open>The loop of \<open>_handleEvent\<close> over the local list, the first of \<open>cs_local\<close>. Nothing is ever
  pushed to a local list, so its length bounds the number of passes.\<close>

primrec handle_nodes :: "'e knot \<Rightarrow> nat \<Rightarrow> 'e world \<Rightarrow> 'e world option" where
  "handle_nodes K 0 w =
     (case cs_local (w_cs w) of [] # _ \<Rightarrow> Some w | _ \<Rightarrow> None)"
| "handle_nodes K (Suc k) w =
     (case cs_local (w_cs w) of
        [] # _ \<Rightarrow> Some w
      | _ \<Rightarrow> do { (n, cs) \<leftarrow> local_Pop (w_cs w);
                  w \<leftarrow> SetStatus Idle n (w\<lparr>w_cs := cs\<rparr>);
                  (_, w) \<leftarrow> k_run K n w;
                  handle_nodes K k w })"

definition handleEvent :: "'e knot \<Rightarrow> event \<Rightarrow> 'e world \<Rightarrow> 'e world option" where
  "handleEvent K ev w =
     do { let w = w\<lparr>w_event := Some ev\<rparr>;
          w \<leftarrow> handle_nodes K (length (hd (cs_local (w_cs w)))) w;
          Some (w\<lparr>w_event := None\<rparr>) }"

definition HandleEvent :: "'e knot \<Rightarrow> event \<Rightarrow> 'e world \<Rightarrow> 'e world option" where
  "HandleEvent K ev w =
     (case GetWaitingNodes ev w of
        None \<Rightarrow> Some w
      | Some k \<Rightarrow>
          if waiting_list k w = [] then Some w
          else do { w \<leftarrow> on_cs (wait_swap k) w;
                    w \<leftarrow> handleEvent K ev w;
                    on_cs local_delete w })"

definition TriggerEvent :: "'e knot \<Rightarrow> event \<Rightarrow> 'e world \<Rightarrow> (bool \<times> 'e world) option" where
  "TriggerEvent K ev w =
     (case GetWaitingNodes ev w of
        None \<Rightarrow> Some (True, w)
      | Some k \<Rightarrow>
          if waiting_list k w = [] then Some (True, w)
          else if w_event_frame w \<ge> MAX_EVENT_FRAME then Some (False, w)
          else do { let prev_ev = w_event w;
                    w \<leftarrow> on_cs (wait_swap k) (w\<lparr>w_event_frame := w_event_frame w + 1\<rparr>);
                    w \<leftarrow> handleEvent K ev w;
                    w \<leftarrow> on_cs local_delete
                      (w\<lparr>w_event_frame := w_event_frame w - 1, w_event := prev_ev\<rparr>);
                    Some (True, w) })"

definition post_event :: "event \<Rightarrow> bool \<Rightarrow> 'e world \<Rightarrow> 'e world" where
  "post_event ev immediate w = w\<lparr>w_queue := AddEvent ev immediate (w_queue w)\<rparr>"

definition Manager_Event ::
  "'e knot \<Rightarrow> int \<Rightarrow> nat option \<Rightarrow> val list \<Rightarrow> bool \<Rightarrow> bool \<Rightarrow> 'e world \<Rightarrow> (bool \<times> 'e world) option" where
  "Manager_Event K event_id agent args immediate trigger w =
     (if GetEventArgsCount event_id (w_events w) < 0 then Some (False, w)
      else case agent of
        None \<Rightarrow> Some (False, w)
      | Some a \<Rightarrow>
          do { ag \<leftarrow> w_agents w a;
               if agent_status ag = AgentDestroying then Some (False, w)
               else do { let ev = \<lparr>ev_id = event_id, ev_agent_id = agent_id ag, ev_args = args\<rparr>;
                         (done, w) \<leftarrow> (if trigger then TriggerEvent K ev w else Some (False, w));
                         Some (True, if done then w else post_event ev immediate w) } })"

section \<open>Charts\<close>

text \<open>\<open>StackExecutor::ContinueFlow\<close>: a subchart that returns while the function of its owner node
  is still running makes the executor below run that node again.\<close>

definition ContinueFlow :: "'e knot \<Rightarrow> nptr \<Rightarrow> 'e world \<Rightarrow> (bool \<times> 'e world) option" where
  "ContinueFlow K n w =
     (if w_index w > 0 \<and> w_cur_node w (w_index w - 1) = Some n
      then do { w \<leftarrow> SetRunFlag True n w;
                w \<leftarrow> exec_Push (w_index w - 1) n w;
                Some (True, w) }
      else k_run K n w)"

definition Chart_Return :: "'e knot \<Rightarrow> bool \<Rightarrow> nat \<Rightarrow> 'e world \<Rightarrow> 'e world option" where
  "Chart_Return K b c w =
     do { ch \<leftarrow> w_charts w c;
          w \<leftarrow> (case owner_node ch of
                  None \<Rightarrow> Some w
                | Some n \<Rightarrow>
                    do { w \<leftarrow> Node_Stop n w;
                         w \<leftarrow> SetResult (result_of_bool b) n w;
                         w \<leftarrow> SetSkip True n w;
                         w \<leftarrow> SetRunFlag False n w;
                         a \<leftarrow> agent_of n w;
                         _ \<leftarrow> w_agents w a;
                         (r, w) \<leftarrow> ContinueFlow K n w;
                         if r then Some w
                         else do { w \<leftarrow> Agent_WaitEvent a n (START_EVENT (w_events w)) w;
                                   map_option snd
                                     (Manager_Event K (START_EVENT (w_events w)) (Some a) [] True False w) } });
          Chart_Stop c w }"

definition InvokeCallback :: "'e host \<Rightarrow> 'e knot \<Rightarrow> val \<Rightarrow> nat \<Rightarrow> 'e world \<Rightarrow> 'e world option" where
  "InvokeCallback H K v c w =
     do { ch \<leftarrow> w_charts w c;
          if h_callable H (py_call ch)
          then do { w \<leftarrow> upd_chart c (\<lambda>ch. ch\<lparr>py_call := VNone\<rparr>) w;
                    k_call K (py_call ch) v w }
          else Some w }"

text \<open>\<open>PyChart::Return(bool)\<close> and \<open>PyChart::Return(PyObject*)\<close>.\<close>

definition PyChart_Return_bool :: "'e host \<Rightarrow> 'e knot \<Rightarrow> bool \<Rightarrow> nat \<Rightarrow> 'e world \<Rightarrow> 'e world option" where
  "PyChart_Return_bool H K b c w =
     do { w \<leftarrow> Chart_Return K b c w; InvokeCallback H K (VBool b) c w }"

definition PyChart_Return :: "'e host \<Rightarrow> 'e knot \<Rightarrow> val \<Rightarrow> nat \<Rightarrow> 'e world \<Rightarrow> 'e world option" where
  "PyChart_Return H K v c w =
     do { ch \<leftarrow> w_charts w c;
          if \<not> chart_running ch then Some w
          else do { w \<leftarrow> (case owner_node ch of
                            None \<Rightarrow> Some w
                          | Some n \<Rightarrow>
                              do { d \<leftarrow> data_of n w;
                                   if var_id d \<ge> 0
                                   then map_option snd (SetVar (var_id d) v (np_chart n) w)
                                   else Some w });
                    w \<leftarrow> Chart_Return K (ObjIsBool v) c w;
                    InvokeCallback H K v c w } }"

text \<open>\<open>PyChart::SetArgsFromDict\<close>: the conversion of one parameter.\<close>

definition convert_param :: "'e host \<Rightarrow> string \<Rightarrow> val \<Rightarrow> val option" where
  "convert_param H type v =
     (if type = ''Bool'' \<and> \<not> PyBool_Check v
      then (case v of VStr s \<Rightarrow> Some (VBool (s = ''true'')) | _ \<Rightarrow> None)
      else if type = ''Number'' \<and> \<not> PyNumber_Check v then h_float H v
      else Some v)"

definition SetArgsFromDict ::
  "'e host \<Rightarrow> (string \<times> val) list \<Rightarrow> nat \<Rightarrow> 'e world \<Rightarrow> 'e world option" where
  "SetArgsFromDict H dict c w =
     do { d \<leftarrow> chart_data_of c w;
          foldM (\<lambda>i w. if i \<ge> length (variables d) then None
                       else let param = variables d ! i in
                            case map_of dict (param_name param) of
                              None \<Rightarrow> Some w
                            | Some v \<Rightarrow> do { v \<leftarrow> convert_param H (param_type param) v;
                                             map_option snd (SetVar (int i) v c w) })
            [0..<params_count d] w }"

definition ResetVariables :: "'e host \<Rightarrow> nat \<Rightarrow> 'e world \<Rightarrow> 'e world option" where
  "ResetVariables H c w =
     do { w \<leftarrow> InitArgs c w;
          ch \<leftarrow> w_charts w c;
          case py_init_table ch of None \<Rightarrow> Some w | Some dict \<Rightarrow> SetArgsFromDict H dict c w }"

text \<open>\<open>Agent::StartChart(Chart*, bool, void*, int)\<close> on agent \<open>a\<close>.\<close>

definition StartChart ::
  "'e host \<Rightarrow> 'e knot \<Rightarrow> nat \<Rightarrow> bool \<Rightarrow> val list \<Rightarrow> nat \<Rightarrow> 'e world \<Rightarrow> (bool \<times> 'e world) option" where
  "StartChart H K c sync args a w =
     do { ch \<leftarrow> w_charts w c;
          if chart_running ch then Some (False, w)
          else do {
            w \<leftarrow> ResetVariables H c w;
            w \<leftarrow> (if args \<noteq> [] then SetArgs args c w else Some w);
            w \<leftarrow> set_running True c w;
            let start_node = NP c 0;
            d \<leftarrow> chart_data_of c w;
            w \<leftarrow> SetSkip (start_func_name d = []) start_node w;
            w \<leftarrow> SetResult rTRUE start_node w;
            w \<leftarrow> SetStatus Running start_node w;
            (done, w) \<leftarrow> (if sync then k_run K start_node w else Some (False, w));
            if done then Some (True, w)
            else do { w \<leftarrow> Agent_WaitEvent a start_node (START_EVENT (w_events w)) w;
                      (_, w) \<leftarrow> Manager_Event K (START_EVENT (w_events w)) (Some a) [] False False w;
                      Some (True, w) } } }"

definition StartChart_name ::
  "'e host \<Rightarrow> 'e knot \<Rightarrow> string \<Rightarrow> nat \<Rightarrow> 'e world \<Rightarrow> (bool \<times> 'e world) option" where
  "StartChart_name H K name a w =
     do { found \<leftarrow> FindChart name None a w;
          case found of
            None \<Rightarrow> Some (False, w)
          | Some c \<Rightarrow>
              do { ch \<leftarrow> w_charts w c;
                   if chart_running ch then Some (False, w)
                   else do { (_, w) \<leftarrow> StartChart H K c (\<not> w_defer w) [] a w; Some (True, w) } } }"

text \<open>\<open>Agent::Start\<close> iterates over the charts of the agent while it starts them. When starting one
  changes the set of charts (a chart that runs at once and calls a subchart on the same agent), the
  iterators of the loop may be invalid.\<close>

definition Agent_Start :: "'e host \<Rightarrow> 'e knot \<Rightarrow> nat \<Rightarrow> 'e world \<Rightarrow> (nat \<times> 'e world) option" where
  "Agent_Start H K a w =
     do { ag0 \<leftarrow> w_agents w a;
          foldM (\<lambda>c (count, w).
              do { ch \<leftarrow> w_charts w c;
                   if owner_node ch = None \<and> \<not> chart_running ch
                   then do { (r, w) \<leftarrow> StartChart H K c (\<not> w_defer w) [] a w;
                             ag \<leftarrow> w_agents w a;
                             if all_charts ag \<noteq> all_charts ag0 then None
                             else Some (if r then count + 1 else count, w) }
                   else Some (count, w) })
            (all_charts ag0) (0, w) }"

definition Manager_Subchart ::
  "'e host \<Rightarrow> 'e knot \<Rightarrow> string \<Rightarrow> nat option \<Rightarrow> val list \<Rightarrow> 'e world \<Rightarrow> (bool \<times> 'e world) option" where
  "Manager_Subchart H K name agent args w =
     (case agent of
        None \<Rightarrow> Some (False, w)
      | Some a \<Rightarrow>
          do { n \<leftarrow> GetCurrentNode w;
               nd \<leftarrow> get_node n w;
               case GetChartData name w of
                 None \<Rightarrow> Some (False, w)
               | Some d \<Rightarrow>
                   do { (reuse, w) \<leftarrow>
                          (case attacher nd of
                             None \<Rightarrow> Some (None, w)
                           | Some (Subchart sc) \<Rightarrow>
                               do { sch \<leftarrow> w_charts w sc;
                                    if chart_agent sch = Some a
                                    then if d \<noteq> chart_data_ptr sch
                                         then do { w \<leftarrow> SetAttacher None n w; Some (None, w) }
                                         else Some (Some sc, w)
                                    else do { w \<leftarrow> SetAttacher None n w; Some (None, w) } }
                           | Some _ \<Rightarrow> None);
                        (c, w) \<leftarrow>
                          (case reuse of
                             Some c \<Rightarrow> Some (c, w)
                           | None \<Rightarrow>
                               do { (c, w) \<leftarrow> CreateChart d (Some n) w;
                                    (_, w) \<leftarrow> AddChart c (Some n) a w;
                                    w \<leftarrow> SetAttacher (Some (Subchart c)) n w;
                                    Some (c, w) });
                        w \<leftarrow> SetStatus Running n w;
                        (_, w) \<leftarrow> StartChart H K c True args a w;
                        Some (True, w) } })"

end
