(* ===== verification/Python_Module.thy ===== *)
theory Python_Module
  imports Engine
begin

text \<open>
  The functions of the Python module and the methods of its objects that scripts call
  (\<open>src/py/export_python.cpp\<close>, \<open>export_agent.cpp\<close>, \<open>export_chart.cpp\<close>, \<open>export_async.cpp\<close>,
  \<open>py_manager.cpp\<close>), and running the function of a node (\<open>src/py/py_nodefunc.cpp\<close>,
  \<open>src/core/node.cpp\<close>).
\<close>

section \<open>The functions exported to scripts\<close>

text \<open>\<open>GetVarIndex\<close> on the chart of the current node, for a variable given by name.\<close>

definition current_var :: "string \<Rightarrow> 'e world \<Rightarrow> int option" where
  "current_var name w =
     do { n \<leftarrow> GetCurrentNode w; d \<leftarrow> chart_data_of (np_chart n) w; Some (GetVarIndex name d) }"

text \<open>\<open>PyManager::SetVar\<close> and \<open>PyManager::GetVar\<close>.\<close>

definition PyManager_SetVar :: "int \<Rightarrow> val \<Rightarrow> 'e world \<Rightarrow> (bool \<times> 'e world) option" where
  "PyManager_SetVar i v w = do { n \<leftarrow> GetCurrentNode w; SetVar i v (np_chart n) w }"

definition PyManager_GetVar :: "int \<Rightarrow> 'e world \<Rightarrow> val option" where
  "PyManager_GetVar i w = do { n \<leftarrow> GetCurrentNode w; GetVar i (np_chart n) w }"

text \<open>\<open>PyManager::GetEventParam\<close>; outside a handler \<open>current_event_\<close> is null.\<close>

definition GetEventParam :: "int \<Rightarrow> int \<Rightarrow> 'e world \<Rightarrow> val option" where
  "GetEventParam event_id idx w =
     do { ev \<leftarrow> w_event w;
          if idx \<ge> int (length (ev_args ev)) then Some VNone
          else if idx < 0 then None
          else Some (ev_args ev ! nat idx) }"

text \<open>\<open>start(obj, list)\<close> and \<open>stop(obj, list)\<close> of the module.\<close>

definition module_start ::
  "'e host \<Rightarrow> 'e knot \<Rightarrow> nat \<Rightarrow> string list option \<Rightarrow> 'e world \<Rightarrow> (nat \<times> 'e world) option" where
  "module_start H K obj names w =
     (case GetAgent obj w of
        None \<Rightarrow> Some (0, w)
      | Some a \<Rightarrow>
          (case names of
             None \<Rightarrow> Agent_Start H K a w
           | Some xs \<Rightarrow>
               foldM (\<lambda>name (count, w).
                   do { (r, w) \<leftarrow> StartChart_name H K name a w; Some (if r then count + 1 else count, w) })
                 xs (0, w)))"

definition module_stop :: "nat \<Rightarrow> string list option \<Rightarrow> 'e world \<Rightarrow> (bool \<times> 'e world) option" where
  "module_stop obj names w =
     (case GetAgent obj w of
        None \<Rightarrow> Some (False, w)
      | Some a \<Rightarrow>
          (case names of
             None \<Rightarrow> map_option (Pair True) (Agent_Stop a w)
           | Some xs \<Rightarrow>
               map_option (Pair True) (foldM (\<lambda>name w. map_option snd (StopChart name a w)) xs w)))"

definition module_attach ::
  "nat \<Rightarrow> string \<Rightarrow> (string \<times> val) list option \<Rightarrow> 'e world \<Rightarrow> (reply \<times> 'e world) option" where
  "module_attach obj path params w =
     do { (a, w) \<leftarrow> Register obj w;
          (found, w) \<leftarrow> Manager_AttachChart a path w;
          case found of
            None \<Rightarrow> Some (RVal VNone, w)
          | Some c \<Rightarrow>
              do { w \<leftarrow> (case params of None \<Rightarrow> Some w
                         | Some dict \<Rightarrow> upd_chart c (\<lambda>ch. ch\<lparr>py_init_table := Some dict\<rparr>) w);
                   Some (RChart c, w) } }"

definition module_wait_event :: "nat option \<Rightarrow> int \<Rightarrow> 'e world \<Rightarrow> (bool \<times> 'e world) option" where
  "module_wait_event obj event_id w =
     (case obj of
        None \<Rightarrow> Some (False, w)
      | Some ob \<Rightarrow>
          do { (agent, w) \<leftarrow> (case GetAgent ob w of
                                Some a \<Rightarrow> Some (Some a, w)
                              | None \<Rightarrow> RegisterGameObject ob DEFAULT_AGENT_TICK w);
               Manager_WaitEvent agent event_id w })"

text \<open>\<open>PyManager::Subchart\<close> registers an unknown object.\<close>

definition PyManager_Subchart ::
  "'e host \<Rightarrow> 'e knot \<Rightarrow> string \<Rightarrow> nat \<Rightarrow> val list \<Rightarrow> 'e world \<Rightarrow> (bool \<times> 'e world) option" where
  "PyManager_Subchart H K name obj args w =
     do { (a, w) \<leftarrow> Register obj w; Manager_Subchart H K name (Some a) args w }"

definition PyManager_Return :: "'e host \<Rightarrow> 'e knot \<Rightarrow> val \<Rightarrow> 'e world \<Rightarrow> (bool \<times> 'e world) option" where
  "PyManager_Return H K v w =
     do { n \<leftarrow> GetCurrentNode w;
          w \<leftarrow> PyChart_Return H K v (np_chart n) w;
          Some (ObjIsBool v, w) }"

text \<open>The methods of the chart objects; the object keeps the address of its chart.\<close>

definition chart_object_start :: "'e host \<Rightarrow> 'e knot \<Rightarrow> nat \<Rightarrow> 'e world \<Rightarrow> (bool \<times> 'e world) option" where
  "chart_object_start H K c w =
     do { ch \<leftarrow> w_charts w c;
          if chart_running ch then Some (False, w)
          else do { a \<leftarrow> chart_agent ch;
                    _ \<leftarrow> w_agents w a;
                    StartChart H K c (\<not> w_defer w) [] a w } }"

definition chart_object_stop :: "nat \<Rightarrow> 'e world \<Rightarrow> (bool \<times> 'e world) option" where
  "chart_object_stop c w =
     do { ch \<leftarrow> w_charts w c;
          if \<not> chart_running ch then Some (False, w)
          else map_option (Pair True) (Chart_Stop c w) }"

definition chart_object_is_running :: "nat \<Rightarrow> 'e world \<Rightarrow> (bool \<times> 'e world) option" where
  "chart_object_is_running c w = do { ch \<leftarrow> w_charts w c; Some (chart_running ch, w) }"

definition chart_object_set_callback ::
  "'e host \<Rightarrow> nat \<Rightarrow> val \<Rightarrow> 'e world \<Rightarrow> (reply \<times> 'e world) option" where
  "chart_object_set_callback H c f w =
     (if h_callable H f
      then do { w \<leftarrow> upd_chart c (\<lambda>ch. ch\<lparr>py_call := f\<rparr>) w; Some (RVal (VBool True), w) }
      else Some (RVal VNone, w))"

text \<open>The remaining functions of the module and the methods of \<open>AsyncObject\<close>. The number of
  milliseconds is cast from a \<open>long\<close> to an \<open>int\<close>.\<close>

definition int_of_long :: "int \<Rightarrow> int" where
  "int_of_long i = (i + 2 ^ 31) mod 2 ^ 32 - 2 ^ 31"

definition module_wait :: "int \<Rightarrow> 'e world \<Rightarrow> (bool \<times> 'e world) option" where
  "module_wait seconds w = map_option (Pair True) (Manager_Wait (int_of_long (1000 * seconds)) w)"

definition module_call_sub ::
  "'e host \<Rightarrow> 'e knot \<Rightarrow> string \<Rightarrow> nat \<Rightarrow> val list \<Rightarrow> 'e world \<Rightarrow> (bool \<times> 'e world) option" where
  "module_call_sub H K name obj args w =
     do { (_, w) \<leftarrow> PyManager_Subchart H K name obj args w; Some (True, w) }"

definition module_event ::
  "'e knot \<Rightarrow> nat \<Rightarrow> int \<Rightarrow> val list \<Rightarrow> bool \<Rightarrow> 'e world \<Rightarrow> (bool \<times> 'e world) option" where
  "module_event K obj ev args trigger w = Manager_Event K ev (GetAgent obj w) args False trigger w"

definition module_set_var :: "int + string \<Rightarrow> val \<Rightarrow> 'e world \<Rightarrow> (bool \<times> 'e world) option" where
  "module_set_var key v w =
     do { i \<leftarrow> (case key of Inl i \<Rightarrow> Some i | Inr name \<Rightarrow> current_var name w); PyManager_SetVar i v w }"

definition module_get_var :: "int + string \<Rightarrow> 'e world \<Rightarrow> (reply \<times> 'e world) option" where
  "module_get_var key w =
     do { i \<leftarrow> (case key of Inl i \<Rightarrow> Some i | Inr name \<Rightarrow> current_var name w);
          v \<leftarrow> PyManager_GetVar i w;
          Some (RVal v, w) }"

definition module_suspend_node :: "'e world \<Rightarrow> (reply \<times> 'e world) option" where
  "module_suspend_node w = do { (n, w) \<leftarrow> CreateAsyncContext w; Some (RAsync n, w) }"

definition module_wait_all :: "int list \<Rightarrow> 'e world \<Rightarrow> (bool \<times> 'e world) option" where
  "module_wait_all ids w = do { (_, w) \<leftarrow> Manager_WaitAll ids w; Some (True, w) }"

definition module_stop_node :: "int list \<Rightarrow> 'e world \<Rightarrow> (bool \<times> 'e world) option" where
  "module_stop_node ids w = do { (_, w) \<leftarrow> Manager_StopNode ids w; Some (True, w) }"

definition module_stop_flow :: "int list \<Rightarrow> 'e world \<Rightarrow> (bool \<times> 'e world) option" where
  "module_stop_flow ids w = do { (_, w) \<leftarrow> Manager_StopFlow ids w; Some (True, w) }"

definition agent_reply :: "nat option \<Rightarrow> reply" where
  "agent_reply r = (case r of None \<Rightarrow> RVal VNone | Some a \<Rightarrow> RAgent a)"

definition module_register :: "nat \<Rightarrow> int \<Rightarrow> 'e world \<Rightarrow> (reply \<times> 'e world) option" where
  "module_register obj interval w =
     do { (r, w) \<leftarrow> RegisterGameObject obj interval w; Some (agent_reply r, w) }"

definition module_get_agent :: "nat \<Rightarrow> 'e world \<Rightarrow> (reply \<times> 'e world) option" where
  "module_get_agent obj w = Some (agent_reply (GetAgent obj w), w)"

definition module_deregister :: "nat \<Rightarrow> 'e world \<Rightarrow> (bool \<times> 'e world) option" where
  "module_deregister obj w = Manager_UnregisterGameObject (GetAgent obj w) w"

definition module_remove :: "nat \<Rightarrow> string \<Rightarrow> 'e world \<Rightarrow> (bool \<times> 'e world) option" where
  "module_remove obj name w =
     (case GetAgent obj w of None \<Rightarrow> Some (False, w) | Some a \<Rightarrow> RemoveChart name a w)"

definition module_time :: "'e world \<Rightarrow> (reply \<times> 'e world) option" where
  "module_time w = Some (RVal (VInt (int (Now w))), w)"

text \<open>The methods of the agent objects (\<open>src/py/export_agent.cpp\<close>). The destructor of an agent sets the
  pointer of its object to null; in the model an address that is free stays free.\<close>

definition agent_object_is_valid :: "nat \<Rightarrow> 'e world \<Rightarrow> (bool \<times> 'e world) option" where
  "agent_object_is_valid a w = Some (w_agents w a \<noteq> None, w)"

definition agent_object_attach ::
  "nat \<Rightarrow> string \<Rightarrow> (string \<times> val) list option \<Rightarrow> 'e world \<Rightarrow> (reply \<times> 'e world) option" where
  "agent_object_attach a path params w =
     (if w_agents w a = None then Some (RVal VNone, w)
      else do { (found, w) \<leftarrow> Manager_AttachChart a path w;
                case found of
                  None \<Rightarrow> Some (RVal VNone, w)
                | Some c \<Rightarrow>
                    do { w \<leftarrow> (case params of None \<Rightarrow> Some w
                               | Some dict \<Rightarrow> upd_chart c (\<lambda>ch. ch\<lparr>py_init_table := Some dict\<rparr>) w);
                         Some (RChart c, w) } })"

definition agent_object_remove :: "nat \<Rightarrow> string \<Rightarrow> 'e world \<Rightarrow> (bool \<times> 'e world) option" where
  "agent_object_remove a name w =
     (if w_agents w a = None then Some (False, w) else RemoveChart name a w)"

definition agent_object_start :: "'e host \<Rightarrow> 'e knot \<Rightarrow> nat \<Rightarrow> 'e world \<Rightarrow> (bool \<times> 'e world) option" where
  "agent_object_start H K a w =
     (if w_agents w a = None then Some (False, w)
      else do { (_, w) \<leftarrow> Agent_Start H K a w; Some (True, w) })"

definition agent_object_stop :: "nat \<Rightarrow> 'e world \<Rightarrow> (bool \<times> 'e world) option" where
  "agent_object_stop a w =
     (if w_agents w a = None then Some (False, w) else map_option (Pair True) (Agent_Stop a w))"

definition agent_object_get_obj :: "nat \<Rightarrow> 'e world \<Rightarrow> (reply \<times> 'e world) option" where
  "agent_object_get_obj a w =
     (case w_agents w a of
        None \<Rightarrow> Some (RVal VNone, w)
      | Some ag \<Rightarrow> Some (RVal (VObj (game_object ag)), w))"

definition agent_object_get_chart :: "nat \<Rightarrow> string \<Rightarrow> 'e world \<Rightarrow> (reply \<times> 'e world) option" where
  "agent_object_get_chart a path w =
     (if w_agents w a = None then Some (RVal VNone, w)
      else do { found \<leftarrow> FindChart path None a w;
                Some (case found of None \<Rightarrow> RVal VNone | Some c \<Rightarrow> RChart c, w) })"

text \<open>The lists of the map are put in front of one another.\<close>

definition chart_vector :: "agent \<Rightarrow> nat list" where
  "chart_vector ag = foldl (\<lambda>v (_, cs). cs @ v) [] (chart_dict ag)"

definition agent_object_get_charts :: "nat \<Rightarrow> 'e world \<Rightarrow> (reply \<times> 'e world) option" where
  "agent_object_get_charts a w =
     (case w_agents w a of
        None \<Rightarrow> Some (RCharts [], w)
      | Some ag \<Rightarrow> Some (RCharts (chart_vector ag), w))"

text \<open>\<open>dump\<close>. The stack of a chart lists the nodes that called it, at most 31 of them.\<close>

definition dump_node :: "'e world \<Rightarrow> nptr \<Rightarrow> node_dump option" where
  "dump_node w n =
     do { nd \<leftarrow> get_node n w;
          d \<leftarrow> data_of n w;
          Some \<lparr>nd_uid = node_uid d, nd_id = data_id d, nd_true_count = true_count nd,
                nd_false_count = false_count nd, nd_is_running = (status nd = Running)\<rparr> }"

definition dump_variables :: "'e host \<Rightarrow> nat \<Rightarrow> 'e world \<Rightarrow> (string \<times> string) list option" where
  "dump_variables H c w =
     do { d \<leftarrow> chart_data_of c w;
          foldM (\<lambda>i vars. do { v \<leftarrow> GetVar (int i) c w;
                               Some (AList.update (GetVariableName (int i) d) (h_str H v) vars) })
            [0..<variable_count d] [] }"

primrec dump_stack :: "nat \<Rightarrow> nptr option \<Rightarrow> 'e world \<Rightarrow> (string \<times> string \<times> nat) list option" where
  "dump_stack 0 cur_node w = Some []"
| "dump_stack (Suc k) cur_node w =
     (case cur_node of
        None \<Rightarrow> Some []
      | Some n \<Rightarrow>
          do { cd \<leftarrow> chart_data_of (np_chart n) w;
               d \<leftarrow> data_of n w;
               nd \<leftarrow> get_node n w;
               ch \<leftarrow> w_charts w (np_chart n);
               rest \<leftarrow> dump_stack k (owner_node ch) w;
               Some ((chart_name cd, node_uid d, node_id nd) # rest) })"

definition MAX_STACK :: nat where
  "MAX_STACK = 32"

definition dump_chart :: "'e host \<Rightarrow> 'e world \<Rightarrow> nat \<Rightarrow> chart_dump option" where
  "dump_chart H w c =
     do { ch \<leftarrow> w_charts w c;
          cd \<leftarrow> chart_data_of c w;
          ns \<leftarrow> mapM (\<lambda>i. dump_node w (NP c i)) [0..<length (nodes ch)];
          vars \<leftarrow> dump_variables H c w;
          stack \<leftarrow> dump_stack (MAX_STACK - 1) (owner_node ch) w;
          Some \<lparr>cd_path = chart_name cd, cd_nodes = ns, cd_variables = vars, cd_stack = stack\<rparr> }"

definition module_dump :: "'e host \<Rightarrow> nat \<Rightarrow> 'e world \<Rightarrow> (reply \<times> 'e world) option" where
  "module_dump H obj w =
     (case GetAgent obj w of
        None \<Rightarrow> Some (RVal VNone, w)
      | Some a \<Rightarrow>
          do { ag \<leftarrow> w_agents w a;
               ds \<leftarrow> mapM (dump_chart H w) (chart_vector ag);
               Some (RDump ds, w) })"

definition reply_bool :: "(bool \<times> 'e world) option \<Rightarrow> (reply \<times> 'e world) option" where
  "reply_bool m = do { (b, w) \<leftarrow> m; Some (RVal (VBool b), w) }"

fun exec_api :: "'e host \<Rightarrow> 'e knot \<Rightarrow> api \<Rightarrow> 'e world \<Rightarrow> (reply \<times> 'e world) option" where
  "exec_api H K (Py_wait seconds) w = reply_bool (module_wait seconds w)"
| "exec_api H K (Py_wait_event obj ev) w = reply_bool (module_wait_event obj ev w)"
| "exec_api H K (Py_call_sub name obj args) w = reply_bool (module_call_sub H K name obj args w)"
| "exec_api H K (Py_event obj ev args) w = reply_bool (module_event K obj ev args (\<not> w_defer w) w)"
| "exec_api H K (Py_trigger obj ev args) w = reply_bool (module_event K obj ev args True w)"
| "exec_api H K (Py_post obj ev args) w = reply_bool (module_event K obj ev args False w)"
| "exec_api H K (Py_ret v) w = reply_bool (PyManager_Return H K v w)"
| "exec_api H K (Py_set_var key v) w = reply_bool (module_set_var key v w)"
| "exec_api H K (Py_get_var key) w = module_get_var key w"
| "exec_api H K (Py_get_event_param ev i) w = do { v \<leftarrow> GetEventParam ev i w; Some (RVal v, w) }"
| "exec_api H K Py_suspend_node w = module_suspend_node w"
| "exec_api H K (Py_continue_node context v) w = reply_bool (Py_ContinueAsyncNode context v w)"
| "exec_api H K (Py_cancel context stop) w = reply_bool (CancelAsyncNode context stop w)"
| "exec_api H K (Py_wait_all ids) w = reply_bool (module_wait_all ids w)"
| "exec_api H K (Py_stop_node ids) w = reply_bool (module_stop_node ids w)"
| "exec_api H K (Py_stop_flow ids) w = reply_bool (module_stop_flow ids w)"
| "exec_api H K (Py_register obj interval) w = module_register obj interval w"
| "exec_api H K (Py_get_agent obj) w = module_get_agent obj w"
| "exec_api H K (Py_deregister obj) w = reply_bool (module_deregister obj w)"
| "exec_api H K (Py_attach obj path params) w = module_attach obj path params w"
| "exec_api H K (Py_remove obj name) w = reply_bool (module_remove obj name w)"
| "exec_api H K (Py_start obj names) w =
     do { (k, w) \<leftarrow> module_start H K obj names w; Some (RVal (VInt (int k)), w) }"
| "exec_api H K (Py_stop obj names) w = reply_bool (module_stop obj names w)"
| "exec_api H K Py_time w = module_time w"
| "exec_api H K (Py_chart_is_running c) w = reply_bool (chart_object_is_running c w)"
| "exec_api H K (Py_chart_set_callback c f) w = chart_object_set_callback H c f w"
| "exec_api H K (Py_chart_start c) w = reply_bool (chart_object_start H K c w)"
| "exec_api H K (Py_chart_stop c) w = reply_bool (chart_object_stop c w)"
| "exec_api H K (Py_agent_is_valid a) w = reply_bool (agent_object_is_valid a w)"
| "exec_api H K (Py_agent_attach a path params) w = agent_object_attach a path params w"
| "exec_api H K (Py_agent_remove a name) w = reply_bool (agent_object_remove a name w)"
| "exec_api H K (Py_agent_start a) w = reply_bool (agent_object_start H K a w)"
| "exec_api H K (Py_agent_stop a) w = reply_bool (agent_object_stop a w)"
| "exec_api H K (Py_agent_get_object a) w = agent_object_get_obj a w"
| "exec_api H K (Py_agent_get_graph a path) w = agent_object_get_chart a path w"
| "exec_api H K (Py_agent_get_graphs a) w = agent_object_get_charts a w"
| "exec_api H K (Py_dump obj) w = module_dump H obj w"

section \<open>Running a node\<close>

text \<open>The result is \<open>None\<close> when the script raised an exception.\<close>

primrec run_script :: "'e host \<Rightarrow> 'e knot \<Rightarrow> 'e script \<Rightarrow> 'e world \<Rightarrow> (val option \<times> 'e world) option" where
  "run_script H K (Ret v e) = (\<lambda>w. Some (Some v, w\<lparr>w_env := e\<rparr>))"
| "run_script H K (Raise e) = (\<lambda>w. Some (None, w\<lparr>w_env := e\<rparr>))"
| "run_script H K (Call a e k) =
     (\<lambda>w. do { (r, w) \<leftarrow> exec_api H K a (w\<lparr>w_env := e\<rparr>); run_script H K (k r (w_env w)) w })"

text \<open>\<open>PyNodeFunc::call\<close> and \<open>ControlNodeFunc::call\<close> with the agent of the node.\<close>

definition PyNodeFunc_call ::
  "'e host \<Rightarrow> 'e knot \<Rightarrow> string \<Rightarrow> string \<Rightarrow> nat \<Rightarrow> 'e world \<Rightarrow> (node_result \<times> 'e world) option" where
  "PyNodeFunc_call H K code name a w =
     do { ag \<leftarrow> w_agents w a;
          (r, w) \<leftarrow> run_script H K (h_func H code name (game_object ag) (w_env w)) w;
          case r of
            Some v \<Rightarrow> Some (result_of_bool (ObjIsBool v), w)
          | None \<Rightarrow> do { n \<leftarrow> GetCurrentNode w;
                        _ \<leftarrow> w_charts w (np_chart n);
                        Some (if w_stop_when_error w then rSTOP else rFALSE, w) } }"

definition NodeFunc_call ::
  "'e host \<Rightarrow> 'e knot \<Rightarrow> node_func \<Rightarrow> nat \<Rightarrow> 'e world \<Rightarrow> (node_result \<times> 'e world) option" where
  "NodeFunc_call H K f a w =
     (case f of
        Script code name \<Rightarrow> PyNodeFunc_call H K code name a w
      | Control c params \<Rightarrow>
          map_option (\<lambda>(b, w). (result_of_bool b, w))
            (case c of
               WaitAll \<Rightarrow> Manager_WaitAll params w
             | StopNode \<Rightarrow> Manager_StopNode params w
             | StopFlow \<Rightarrow> Manager_StopFlow params w))"

definition Node_Run :: "'e host \<Rightarrow> 'e knot \<Rightarrow> nptr \<Rightarrow> 'e world \<Rightarrow> 'e world option" where
  "Node_Run H K n w =
     do { nd \<leftarrow> get_node n w;
          if \<not> skip nd
          then do { w \<leftarrow> SetRunFlag True n w;
                    w \<leftarrow> SetResult rFALSE n w;
                    d \<leftarrow> data_of n w;
                    case node_func d of
                      None \<Rightarrow> Some w
                    | Some f \<Rightarrow>
                        do { a \<leftarrow> agent_of n w;
                             _ \<leftarrow> w_agents w a;
                             (r, w) \<leftarrow> NodeFunc_call H K f a w;
                             a \<leftarrow> agent_of n w;
                             _ \<leftarrow> w_agents w a;
                             nd \<leftarrow> get_node n w;
                             if result nd \<noteq> rSTOP then SetResult r n w else Some w } }
          else SetSkip False n w }"

end
