(* ===== verification/Executor.thy ===== *)
theory Executor
  imports Python_Module
begin

text \<open>
  The executors: \<open>DfsExecutor\<close> runs the nodes of a chart depth first on a stack of nodes,
  \<open>StackExecutor\<close> gives a nested \<open>RunFlow\<close> an executor of its own, up to fifteen of them
  (\<open>src/core/executor.cpp\<close>, \<open>include/core/executor.h\<close>). The executor at index \<open>i\<close> owns the lists
  \<open>cs_exec i\<close>, \<open>cs_hist i\<close> and the fields \<open>w_cur_agent i\<close>, \<open>w_cur_node i\<close>.
\<close>

section \<open>DfsExecutor\<close>

text \<open>The children are pushed from the last to the first, so that the first is run next.\<close>

definition push_child :: "nat \<Rightarrow> nptr \<Rightarrow> nat \<Rightarrow> 'e world \<Rightarrow> 'e world option" where
  "push_child i n child w =
     do { nd \<leftarrow> get_node n w;
          let m = NP (np_chart n) child;
          w \<leftarrow> upd_node m (\<lambda>c. c\<lparr>pre_node_id := int (node_id nd)\<rparr>) w;
          exec_Push i m w }"

definition AddSubsequenceNodes :: "nat \<Rightarrow> nptr \<Rightarrow> 'e world \<Rightarrow> 'e world option" where
  "AddSubsequenceNodes i n w =
     do { nd \<leftarrow> get_node n w;
          if result nd = rSTOP then Some w
          else do { w \<leftarrow> upd_node n (\<lambda>nd. if result nd = rTRUE then nd\<lparr>true_count := true_count nd + 1\<rparr>
                                         else nd\<lparr>false_count := false_count nd + 1\<rparr>) w;
                    d \<leftarrow> data_of n w;
                    foldM (push_child i n) (rev (GetSubsequenceIds (result nd = rTRUE) d)) w } }"

text \<open>The nodes left when the limit of nodes is exceeded.\<close>

primrec drain :: "nat \<Rightarrow> nat \<Rightarrow> 'e world \<Rightarrow> 'e world option" where
  "drain i 0 w = Some w"
| "drain i (Suc k) w =
     do { (n, w) \<leftarrow> exec_Pop i w; w \<leftarrow> SetStatus EndRun n w; drain i k w }"

definition drain_all :: "nat \<Rightarrow> 'e world \<Rightarrow> 'e world option" where
  "drain_all i w = drain i (length (cs_exec (w_cs w) i)) w"

text \<open>One pass of the loop; the flag is \<open>has_running_node\<close>.\<close>

definition dfs_pass :: "'e host \<Rightarrow> 'e knot \<Rightarrow> nat \<Rightarrow> bool \<times> 'e world \<Rightarrow> (bool \<times> 'e world) option" where
  "dfs_pass H K i s =
     do { let (running, w) = s;
          n \<leftarrow> Exec_GetTop i (w_cs w);
          nd \<leftarrow> get_node n w;
          if status nd = Running \<and> \<not> is_wait_all nd
          then do { (_, w) \<leftarrow> exec_Pop i w; Some (True, w) }
          else do {
            d \<leftarrow> data_of n w;
            if run_flag nd \<and> \<not> is_no_loop_check d
            then do { a \<leftarrow> w_cur_agent w i;
                      w \<leftarrow> Agent_WaitEvent a n (TICK_EVENT (w_events w)) w;
                      Some (True, w) }
            else do {
              w \<leftarrow> Node_Run H K n (w\<lparr>w_cur_node := (w_cur_node w)(i := Some n)\<rparr>);
              nd \<leftarrow> get_node n w;
              w \<leftarrow> (if cs_of (w_cs w) n = Some (CExec i) then map_option snd (exec_Pop i w) else Some w);
              if status nd = Running
              then do { w \<leftarrow> SetRunFlag False n w; Some (True, w) }
              else do { w \<leftarrow> SetStatus EndRun n w;
                        w \<leftarrow> AddSubsequenceNodes i n w;
                        Some (running, w) } } } }"

text \<open>The loop, with the number of nodes it may still run.\<close>

primrec dfs_loop :: "'e host \<Rightarrow> 'e knot \<Rightarrow> nat \<Rightarrow> nat \<Rightarrow> nat \<Rightarrow> bool \<times> 'e world \<Rightarrow> (bool \<times> 'e world) option" where
  "dfs_loop H K i c 0 s =
     (let (running, w) = s in
      if cs_exec (w_cs w) i = [] then Some (running, w)
      else do { ch \<leftarrow> w_charts w c;
                if \<not> chart_running ch then Some (running, w)
                else do { w \<leftarrow> drain_all i w; Some (running, w) } })"
| "dfs_loop H K i c (Suc left) s =
     (let (running, w) = s in
      if cs_exec (w_cs w) i = [] then Some (running, w)
      else do { ch \<leftarrow> w_charts w c;
                if \<not> chart_running ch then Some (running, w)
                else do { s \<leftarrow> dfs_pass H K i s; dfs_loop H K i c left s } })"

text \<open>The nodes that were run and are not waiting are reset.\<close>

definition restore_history :: "nat \<Rightarrow> 'e world \<Rightarrow> 'e world option" where
  "restore_history i w =
     do { w \<leftarrow> foldM (\<lambda>n w. do { w \<leftarrow> SetRunFlag False n w;
                                nd \<leftarrow> get_node n w;
                                if status nd = EndRun then Node_Stop n w else Some w })
               (cs_hist (w_cs w) i) w;
          on_cs (\<lambda>cs. Some (hist_clear i cs)) w }"

definition CheckRunning :: "chart \<Rightarrow> bool" where
  "CheckRunning ch = list_ex (\<lambda>nd. status nd = Running) (nodes ch)"

text \<open>The end of a run: a chart none of whose nodes is waiting returns.\<close>

definition finish_chart :: "'e host \<Rightarrow> 'e knot \<Rightarrow> bool \<Rightarrow> nat \<Rightarrow> 'e world \<Rightarrow> 'e world option" where
  "finish_chart H K running c w =
     do { ch \<leftarrow> w_charts w c;
          if \<not> running \<and> \<not> CheckRunning ch \<and> chart_running ch
          then do { w \<leftarrow> PyChart_Return_bool H K True c w; set_running False c w }
          else Some w }"

definition Dfs_RunFlow :: "'e host \<Rightarrow> 'e knot \<Rightarrow> nptr \<Rightarrow> 'e world \<Rightarrow> 'e world option" where
  "Dfs_RunFlow H K start_node w =
     do { let i = w_index w;
          let c = np_chart start_node;
          _ \<leftarrow> get_node start_node w;
          a \<leftarrow> agent_of start_node w;
          let w = w\<lparr>w_cur_agent := (w_cur_agent w)(i := Some a)\<rparr>;
          ag \<leftarrow> w_agents w a;
          if agent_status ag \<noteq> AgentRunning then Some w
          else do {
            ch \<leftarrow> w_charts w c;
            if \<not> chart_running ch then Some w
            else do {
              w \<leftarrow> SetStatus Idle start_node w;
              w \<leftarrow> on_cs (\<lambda>cs. Some (Exec_clear i cs)) w;
              w \<leftarrow> exec_Push i start_node w;
              (running, w) \<leftarrow> dfs_loop H K i c MAX_NODES_PER_EXECUTION (False, w);
              w \<leftarrow> restore_history i w;
              w \<leftarrow> finish_chart H K running c w;
              Some (w\<lparr>w_cur_node := (w_cur_node w)(i := None),
                      w_cur_agent := (w_cur_agent w)(i := None)\<rparr>) } } }"

section \<open>StackExecutor\<close>

text \<open>A callback of the script language, nested at most \<open>k\<close> deep.\<close>

primrec callback ::
  "'e host \<Rightarrow> nat \<Rightarrow> (nptr \<Rightarrow> 'e world \<Rightarrow> (bool \<times> 'e world) option) \<Rightarrow> val \<Rightarrow> val \<Rightarrow> 'e world \<Rightarrow> 'e world option"
where
  "callback H 0 run f v w = None"
| "callback H (Suc k) run f v w =
     map_option snd
       (run_script H \<lparr>k_run = run, k_call = callback H k run\<rparr> (h_call H f v (w_env w)) w)"

definition knot_of :: "'e host \<Rightarrow> (nptr \<Rightarrow> 'e world \<Rightarrow> (bool \<times> 'e world) option) \<Rightarrow> 'e knot" where
  "knot_of H run = \<lparr>k_run = run, k_call = callback H (h_depth H) run\<rparr>"

text \<open>\<open>StackExecutor::RunFlow\<close>, with the number of executors above the current one. It returns
  false, and runs nothing, when there is none.\<close>

primrec run_flow :: "'e host \<Rightarrow> nat \<Rightarrow> nptr \<Rightarrow> 'e world \<Rightarrow> (bool \<times> 'e world) option" where
  "run_flow H 0 n w = (if w_index w + 1 \<ge> MAX_STACK_SIZE then Some (False, w) else None)"
| "run_flow H (Suc free) n w =
     (let old_index = w_index w in
      if old_index + 1 \<ge> MAX_STACK_SIZE then Some (False, w)
      else do { w \<leftarrow> Dfs_RunFlow H (knot_of H (run_flow H free)) n (w\<lparr>w_index := old_index + 1\<rparr>);
                Some (True, w\<lparr>w_index := old_index\<rparr>) })"

text \<open>\<open>Manager::RunFlow\<close>, and the knot of the operations called when executor 0 is current.\<close>

definition RunFlow :: "'e host \<Rightarrow> nptr \<Rightarrow> 'e world \<Rightarrow> (bool \<times> 'e world) option" where
  "RunFlow H n w = run_flow H (MAX_STACK_SIZE - 1 - w_index w) n w"

definition top_knot :: "'e host \<Rightarrow> 'e knot" where
  "top_knot H = knot_of H (RunFlow H)"

end
