(* ===== verification/Manager.thy ===== *)
theory Manager
  imports Executor
begin

text \<open>
  The operations of the manager that the host program calls: \<open>Step\<close> with the timers, the
  asynchronous nodes, the event queue and the destruction of agents; loading and restarting charts
  (\<open>src/core/manager.cpp\<close>, \<open>src/core/timer_manager.cpp\<close>, \<open>src/core/async_manager.cpp\<close>,
  \<open>src/core/node_timer.cpp\<close>).
\<close>

section \<open>The initial state\<close>

definition new_manager :: "'e \<Rightarrow> 'e world" where
  "new_manager e = \<lparr>w_agents = (\<lambda>_. None), w_charts = (\<lambda>_. None), w_datas = (\<lambda>_. None),
     w_chart_dict = (\<lambda>_. None), w_cs = empty_cstore, w_async = {}, w_index = 0,
     w_cur_agent = (\<lambda>_. None), w_cur_node = (\<lambda>_. None), w_event = None, w_event_frame = 0,
     w_queue = empty_equeue, w_wheel = new_wheel, w_agent_map = [], w_object_map = [], w_id_count = 0,
     w_dying = empty_dying, w_frame = 0, w_in_step = False, w_defer = True, w_stop_when_error = False,
     w_interval = DEFAULT_STEP_INTERVAL, w_events = EventManager, w_next_agent = 0, w_next_chart = 0,
     w_env = e\<rparr>"

section \<open>Timers\<close>

definition set_wheel :: "timer_ref wheel \<Rightarrow> 'e world \<Rightarrow> 'e world" where
  "set_wheel wh w = w\<lparr>w_wheel := wh\<rparr>"

text \<open>\<open>NodeTimer::execute\<close> and \<open>AgentTimer::execute\<close>.\<close>

definition NodeTimer_execute :: "'e host \<Rightarrow> nptr \<Rightarrow> 'e world \<Rightarrow> 'e world option" where
  "NodeTimer_execute H n w =
     do { a \<leftarrow> agent_of n w;
          _ \<leftarrow> w_agents w a;
          w \<leftarrow> SetResult rTRUE n w;
          map_option snd (RunFlow H n w) }"

definition AgentTimer_execute :: "'e host \<Rightarrow> nat \<Rightarrow> 'e world \<Rightarrow> 'e world option" where
  "AgentTimer_execute H a w =
     do { ag \<leftarrow> w_agents w a;
          w \<leftarrow> (if agent_status ag = AgentRunning
                then map_option snd
                       (Manager_Event (top_knot H) (TICK_EVENT (w_events w)) (Some a) [] False False w)
                else Some w);
          AgentTimer_Start a w }"

fun timer_execute :: "'e host \<Rightarrow> timer_ref \<Rightarrow> 'e world \<Rightarrow> 'e world option" where
  "timer_execute H (TNode n) w = NodeTimer_execute H n w"
| "timer_execute H (TAgent a) w = AgentTimer_execute H a w"

section \<open>Asynchronous nodes\<close>

text \<open>One pass of the loop of \<open>AsyncManager::Step\<close> on the node it popped.\<close>

definition async_resume :: "'e host \<Rightarrow> nptr \<Rightarrow> 'e world \<Rightarrow> 'e world option" where
  "async_resume H n w =
     do { nd \<leftarrow> get_node n w;
          w \<leftarrow> Node_Stop n w;
          w \<leftarrow> SetSkip (skip nd) n w;
          w \<leftarrow> SetResult (result nd) n w;
          w \<leftarrow> RemoveNode n w;
          a \<leftarrow> agent_of n w;
          _ \<leftarrow> w_agents w a;
          map_option snd (RunFlow H n w) }"

partial_function (option) AsyncManager_Step :: "'e host \<Rightarrow> 'e world \<Rightarrow> 'e world option" where
  "AsyncManager_Step H w =
     do { (r, cs) \<leftarrow> Aact_Pop (w_cs w);
          case r of
            None \<Rightarrow> Some w
          | Some n \<Rightarrow> do { w \<leftarrow> async_resume H n (w\<lparr>w_cs := cs\<rparr>); AsyncManager_Step H w } }"

declare AsyncManager_Step.simps [code]

section \<open>Step\<close>

text \<open>The loop over the event queue. An event raised as immediate while it runs is handled in the
  same step, so that it may not end.\<close>

partial_function (option) handle_events :: "'e host \<Rightarrow> 'e world \<Rightarrow> 'e world option" where
  "handle_events H w =
     (case NextEvent (w_queue w) of
        (None, q) \<Rightarrow> Some (w\<lparr>w_queue := q\<rparr>)
      | (Some ev, q) \<Rightarrow>
          do { w \<leftarrow> HandleEvent (top_knot H) ev (w\<lparr>w_queue := q\<rparr>); handle_events H w })"

declare handle_events.simps [code]

definition destroy_agents :: "'e world \<Rightarrow> 'e world option" where
  "destroy_agents w =
     do { let (gone, d) = dying_step (w_dying w);
          w \<leftarrow> foldM delete_agent gone w;
          Some (w\<lparr>w_dying := d\<rparr>) }"

definition Manager_Step :: "'e host \<Rightarrow> int \<Rightarrow> 'e world \<Rightarrow> 'e world option" where
  "Manager_Step H milliseconds w =
     do { let w = w\<lparr>w_in_step := True\<rparr>;
          let time_count = (if milliseconds \<ge> 0 then milliseconds else w_interval w);
          w \<leftarrow> TimerManager_Step w_wheel set_wheel (timer_execute H) time_count w;
          w \<leftarrow> AsyncManager_Step H w;
          w \<leftarrow> handle_events H (w\<lparr>w_queue := Switch (w_queue w)\<rparr>);
          w \<leftarrow> destroy_agents w;
          Some (w\<lparr>w_frame := w_frame w + 1, w_in_step := False\<rparr>) }"

section \<open>Charts\<close>

text \<open>\<open>Manager::RestartChart\<close>. Restarting may run nodes that register agents; the loop over the map
  of agents is then undefined.\<close>

definition restart_one :: "'e host \<Rightarrow> string \<Rightarrow> nat \<Rightarrow> 'e world \<Rightarrow> 'e world option" where
  "restart_one H name a w =
     do { found \<leftarrow> FindChart name None a w;
          case found of
            None \<Rightarrow> Some w
          | Some _ \<Rightarrow>
              do { (_, w) \<leftarrow> RemoveChart name a w;
                   d \<leftarrow> GetChartData name w;
                   (_, w) \<leftarrow> Agent_AttachChart d a w;
                   map_option snd (StartChart_name H (top_knot H) name a w) } }"

definition RestartChart :: "'e host \<Rightarrow> string \<Rightarrow> 'e world \<Rightarrow> 'e world option" where
  "RestartChart H name w =
     foldM (\<lambda>a w'. do { w' \<leftarrow> restart_one H name a w';
                        if map snd (w_agent_map w') \<noteq> map snd (w_agent_map w) then None else Some w' })
       (map snd (w_agent_map w)) w"

definition ReloadData :: "nat option \<Rightarrow> 'e world \<Rightarrow> (bool \<times> 'e world) option" where
  "ReloadData p w =
     do { (r, dict, h) \<leftarrow> ReloadChartData p (w_chart_dict w, w_datas w);
          Some (r, w\<lparr>w_chart_dict := dict, w_datas := h\<rparr>) }"

definition ImportCharts :: "nat list \<Rightarrow> 'e world \<Rightarrow> (nat \<times> 'e world) option" where
  "ImportCharts ps w =
     do { (k, dict, h) \<leftarrow> ImportChartData ps (w_chart_dict w, w_datas w);
          Some (k, w\<lparr>w_chart_dict := dict, w_datas := h\<rparr>) }"

text \<open>A call of the module from outside the engine.\<close>

definition module_call :: "'e host \<Rightarrow> api \<Rightarrow> 'e world \<Rightarrow> (reply \<times> 'e world) option" where
  "module_call H a w = exec_api H (top_knot H) a w"

end
