(* ===== verification/Debugger.thy ===== *)
theory Debugger
  imports Manager
begin

text \<open>
  The debugger of a build with \<open>FLOWCHART_DEBUG\<close>: the debug data each chart collects
  (\<open>src/core/chart.cpp\<close>, \<open>node.cpp\<close>, \<open>src/py/py_chart.cpp\<close>), the connections that follow charts
  (\<open>src/debug/websocket_manager.cpp\<close>) and the hooks by which the engine calls both (\<open>src/core/agent.cpp\<close>,
  \<open>executor.cpp\<close>, \<open>chart.cpp\<close>). The network library is not modelled: a connection is a number, whether it
  takes a message is a parameter, and the messages it took are a list.
\<close>

section \<open>Debug data\<close>

text \<open>A piece of data carries the number it has in its chart.\<close>

datatype debug_data =
    NodeStatusData nat string int int bool
  | VariableStatusData string string string string
  | EventStatusData string string "string list" int
  | NodeMessageData nat string string

record chart_debug =
  in_debug :: bool
  debug_data_list :: "(int \<times> debug_data) list"
  debug_data_count :: int

definition new_chart_debug :: chart_debug where
  "new_chart_debug = \<lparr>in_debug = False, debug_data_list = [], debug_data_count = 0\<rparr>"

definition push_data :: "debug_data \<Rightarrow> chart_debug \<Rightarrow> chart_debug" where
  "push_data x cd = cd\<lparr>debug_data_list := debug_data_list cd @ [(debug_data_count cd, x)],
     debug_data_count := debug_data_count cd + 1\<rparr>"

definition ClearDebugData :: "chart_debug \<Rightarrow> chart_debug" where
  "ClearDebugData cd = cd\<lparr>debug_data_list := []\<rparr>"

definition chart_StartDebug :: "chart_debug \<Rightarrow> chart_debug" where
  "chart_StartDebug cd = cd\<lparr>in_debug := True\<rparr>"

definition chart_StopDebug :: "chart_debug \<Rightarrow> chart_debug" where
  "chart_StopDebug cd = ClearDebugData (cd\<lparr>in_debug := False\<rparr>)"

definition SendNodeStatus :: "nat \<Rightarrow> string \<Rightarrow> int \<Rightarrow> int \<Rightarrow> bool \<Rightarrow> chart_debug \<Rightarrow> chart_debug" where
  "SendNodeStatus i uid old new res cd =
     (if old \<noteq> new then push_data (NodeStatusData i uid old new res) cd else cd)"

definition SendNodeMessage :: "nat \<Rightarrow> string \<Rightarrow> string \<Rightarrow> chart_debug \<Rightarrow> chart_debug" where
  "SendNodeMessage i uid msg = push_data (NodeMessageData i uid msg)"

section \<open>The state\<close>

text \<open>
  The websocket manager with the messages taken by the connections, the debug part of every chart, the
  flag \<open>quick_debug_\<close> of chart data, and of every node of chart data its flag \<open>break_point\<close> and, when
  its function is a \<open>BreakpointFunc\<close>, the flag \<open>continue_flag_\<close> of that.
\<close>

record 'm debugger =
  chart_debugs :: "nat \<Rightarrow> chart_debug"
  chart_map :: "(nat \<times> nat list) list"
  quick_debug_map :: "(string \<times> nat list) list"
  quick_debug :: "nat set"
  break_points :: "(nat \<times> nat) set"
  breakpoint_funcs :: "nat \<times> nat \<rightharpoonup> bool"
  outbox :: "(nat \<times> 'm) list"

definition new_debugger :: "'m debugger" where
  "new_debugger = \<lparr>chart_debugs = (\<lambda>_. new_chart_debug), chart_map = [], quick_debug_map = [], quick_debug = {},
     break_points = {}, breakpoint_funcs = (\<lambda>_. None), outbox = []\<rparr>"

definition upd_debug :: "nat \<Rightarrow> (chart_debug \<Rightarrow> chart_debug) \<Rightarrow> 'm debugger \<Rightarrow> 'm debugger" where
  "upd_debug c f g = g\<lparr>chart_debugs := (chart_debugs g)(c := f (chart_debugs g c))\<rparr>"

definition IsDebug :: "nat \<Rightarrow> 'm debugger \<Rightarrow> bool" where
  "IsDebug c g \<longleftrightarrow> in_debug (chart_debugs g c)"

text \<open>What the rest of the program provides: the address of a node, the name of an object
  (\<open>GetObjectName\<close>) and the uid drawn for a chart, whether a connection takes a message, and the texts of
  the debugger for a chart that stops, for its data and for a quick debug (\<open>Debugger\<close>'s virtual functions).\<close>

record debug_env =
  node_addr :: "nptr \<Rightarrow> nat"
  object_name :: "nat \<Rightarrow> string"
  chart_uid :: "nat \<Rightarrow> string"
  conn_open :: "nat \<Rightarrow> bool"

definition send :: "debug_env \<Rightarrow> nat \<Rightarrow> 'm \<Rightarrow> 'm debugger \<Rightarrow> 'm debugger" where
  "send E h msg g = (if conn_open E h then g\<lparr>outbox := outbox g @ [(h, msg)]\<rparr> else g)"

section \<open>Hooks of the engine\<close>

definition status_code :: "node_status \<Rightarrow> int" where
  "status_code s = (case s of Idle \<Rightarrow> 0 | Running \<Rightarrow> 1 | EndRun \<Rightarrow> 2)"

text \<open>\<open>Node::SetStatus\<close>; the result of the node is converted to a \<open>bool\<close>, so that \<open>rSTOP\<close> is true.\<close>

definition debug_SetStatus :: "node_status \<Rightarrow> nptr \<Rightarrow> 'e world \<Rightarrow> 'm debugger \<Rightarrow> ('e world \<times> 'm debugger) option" where
  "debug_SetStatus s n w g =
     do { nd \<leftarrow> get_node n w;
          if status nd = s then Some (w, g)
          else do { g \<leftarrow> (if IsDebug (np_chart n) g
                         then do { d \<leftarrow> data_of n w;
                                   Some (upd_debug (np_chart n) (SendNodeStatus (data_id d) (node_uid d)
                                     (status_code (status nd)) (status_code s) (result nd \<noteq> rFALSE)) g) }
                         else Some g);
                    w \<leftarrow> SetStatus s n w;
                    Some (w, g) } }"

text \<open>\<open>Node::SendEventStatus\<close> with \<open>PyChart::SendEventStatus\<close>.\<close>

definition Node_SendEventStatus ::
  "'e host \<Rightarrow> nptr \<Rightarrow> event \<Rightarrow> 'e world \<Rightarrow> 'm debugger \<Rightarrow> 'm debugger option" where
  "Node_SendEventStatus H n ev w g =
     do { d \<leftarrow> data_of n w;
          if IsDebug (np_chart n) g \<and> is_event d
          then do { name \<leftarrow> GetEventName (ev_id ev) (w_events w);
                    Some (upd_debug (np_chart n) (push_data (EventStatusData (node_uid d) name
                      (map (h_str H) (ev_args ev)) (int (length (ev_args ev))))) g) }
          else Some g }"

text \<open>\<open>PyChart::SendVariableStatus\<close>; the names of the node functions' values are those of the host.\<close>

definition SendVariableStatus ::
  "'e host \<Rightarrow> string \<Rightarrow> val \<Rightarrow> val \<Rightarrow> nat \<Rightarrow> 'e world \<Rightarrow> 'm debugger \<Rightarrow> 'm debugger option" where
  "SendVariableStatus H name old new c w g =
     (if \<not> IsDebug c g then Some g
      else if old \<noteq> new
      then do { n \<leftarrow> GetCurrentNode w;
                d \<leftarrow> data_of n w;
                Some (upd_debug c (push_data (VariableStatusData name (node_uid d) (h_str H old) (h_str H new))) g) }
      else Some g)"

text \<open>\<open>Chart::SendAllNodeCount\<close>: the counts of runs, told from statuses by adding 1024.\<close>

definition SendAllNodeCount :: "nat \<Rightarrow> 'e world \<Rightarrow> 'm debugger \<Rightarrow> 'm debugger option" where
  "SendAllNodeCount c w g =
     do { ch \<leftarrow> w_charts w c;
          xs \<leftarrow> mapM (\<lambda>i. do { d \<leftarrow> data_of (NP c i) w;
                              let nd = nodes ch ! i;
                              Some (NodeStatusData (node_id nd) (node_uid d)
                                (int (true_count nd) + 1024) (int (false_count nd) + 1024) True) })
                 [0..<length (nodes ch)];
          Some (foldl (\<lambda>g x. upd_debug c (push_data x) g) g xs) }"

section \<open>Connections\<close>

definition RemoveHdl :: "nat list \<Rightarrow> nat \<Rightarrow> nat list" where
  "RemoveHdl hdls h = remove1 h hdls"

definition hdls_of :: "nat \<Rightarrow> 'm debugger \<Rightarrow> nat list" where
  "hdls_of c g = (case map_of (chart_map g) c of None \<Rightarrow> [] | Some hdls \<Rightarrow> hdls)"

text \<open>\<open>StartDebugChart\<close>: a connection that is new to the chart gets the state of the chart.\<close>

definition StartDebugChart :: "nat \<Rightarrow> nat \<Rightarrow> 'e world \<Rightarrow> 'm debugger \<Rightarrow> 'm debugger option" where
  "StartDebugChart c h w g =
     (let hdls = hdls_of c g in
      if h \<in> set hdls then Some g
      else do { let g = g\<lparr>chart_map := AList.update c (hdls @ [h]) (chart_map g)\<rparr>;
                let g = upd_debug c chart_StartDebug g;
                g \<leftarrow> SendAllNodeCount c w g;
                ch \<leftarrow> w_charts w c;
                foldM (\<lambda>i g. if status (nodes ch ! i) = Running
                             then do { d \<leftarrow> data_of (NP c i) w;
                                       Some (upd_debug c (SendNodeStatus (data_id d) (node_uid d) 0 1 True) g) }
                             else Some g)
                  [0..<length (nodes ch)] g })"

definition quick_hdls :: "string \<Rightarrow> 'm debugger \<Rightarrow> nat list" where
  "quick_hdls name g = (case map_of (quick_debug_map g) name of None \<Rightarrow> [] | Some hdls \<Rightarrow> hdls)"

definition QuickDebugChart :: "nat \<Rightarrow> nat \<Rightarrow> 'e world \<Rightarrow> 'm debugger \<Rightarrow> 'm debugger option" where
  "QuickDebugChart d h w g =
     do { data \<leftarrow> w_datas w d;
          let hdls = quick_hdls (chart_name data) g;
          if h \<in> set hdls then Some g
          else Some (g\<lparr>quick_debug_map := AList.update (chart_name data) (hdls @ [h]) (quick_debug_map g),
                       quick_debug := insert d (quick_debug g)\<rparr>) }"

text \<open>\<open>StartQuickDebug\<close>: the connections of the map follow the chart, unless it is followed already; one
  that does not take the message is removed again.\<close>

definition quick_send :: "debug_env \<Rightarrow> nat \<Rightarrow> 'm \<Rightarrow> nat \<Rightarrow> 'm debugger \<Rightarrow> 'm debugger" where
  "quick_send E c msg h g =
     (if conn_open E h then send E h msg g
      else let hdls = RemoveHdl (hdls_of c g) h;
               g = g\<lparr>chart_map := AList.update c hdls (chart_map g)\<rparr>
           in if hdls = []
              then (upd_debug c chart_StopDebug g)\<lparr>chart_map := AList.delete c (chart_map g)\<rparr>
              else g)"

definition StartQuickDebug ::
  "debug_env \<Rightarrow> (nat \<Rightarrow> 'e world \<Rightarrow> 'm option) \<Rightarrow> nat \<Rightarrow> 'e world \<Rightarrow> 'm debugger \<Rightarrow> 'm debugger option" where
  "StartQuickDebug E ChartInfo c w g =
     do { name \<leftarrow> Chart_Name c w;
          case map_of (quick_debug_map g) name of
            None \<Rightarrow> Some g
          | Some hdls \<Rightarrow>
              do { let g = upd_debug c chart_StartDebug g;
                   let g = (if map_of (chart_map g) c = None
                            then g\<lparr>chart_map := AList.update c hdls (chart_map g)\<rparr> else g);
                   msg \<leftarrow> ChartInfo c w;
                   let g = foldl (\<lambda>g h. quick_send E c msg h g) g hdls;
                   Some (g\<lparr>quick_debug_map := AList.delete name (quick_debug_map g)\<rparr>) } }"

text \<open>\<open>StopDebugChart\<close> of one connection, and of all with the last data and the message of the end.\<close>

definition StopDebugChart_hdl :: "nat \<Rightarrow> nat \<Rightarrow> 'm debugger \<Rightarrow> 'm debugger" where
  "StopDebugChart_hdl c h g =
     (if h \<notin> set (hdls_of c g) then g
      else let hdls = RemoveHdl (hdls_of c g) h
           in if hdls = []
              then (upd_debug c chart_StopDebug g)\<lparr>chart_map := AList.delete c (chart_map g)\<rparr>
              else g\<lparr>chart_map := AList.update c hdls (chart_map g)\<rparr>)"

definition SendStopData :: "debug_env \<Rightarrow> 'm option \<Rightarrow> 'm \<Rightarrow> nat list \<Rightarrow> 'm debugger \<Rightarrow> 'm debugger" where
  "SendStopData E data stop hdls g =
     foldl (\<lambda>g h. send E h stop (case data of None \<Rightarrow> g | Some x \<Rightarrow> send E h x g)) g hdls"

text \<open>\<open>PrepareChartDebugData\<close> empties the data of the chart; \<open>None\<close> is the empty text.\<close>

definition StopDebugChart ::
  "debug_env \<Rightarrow> (nat \<Rightarrow> 'e world \<Rightarrow> 'm debugger \<Rightarrow> ('m option \<times> 'm debugger) option) \<Rightarrow> (string \<Rightarrow> 'm)
   \<Rightarrow> nat \<Rightarrow> 'e world \<Rightarrow> 'm debugger \<Rightarrow> 'm debugger option" where
  "StopDebugChart E Prepare StopMessage c w g =
     (case map_of (chart_map g) c of
        None \<Rightarrow> Some (upd_debug c chart_StopDebug g)
      | Some hdls \<Rightarrow>
          do { (data, g) \<leftarrow> (if debug_data_list (chart_debugs g c) = [] then Some (None, g) else Prepare c w g);
               name \<leftarrow> Chart_Name c w;
               let g = SendStopData E data (StopMessage name) hdls g;
               Some ((upd_debug c chart_StopDebug g)\<lparr>chart_map := AList.delete c (chart_map g)\<rparr>) })"

text \<open>\<open>Step\<close>. It sends with the overload that reports errors by a code, so that no exception removes a
  connection; the order of the charts is the order of the list here.\<close>

definition WebsocketManager_Step ::
  "debug_env \<Rightarrow> (nat \<Rightarrow> 'e world \<Rightarrow> 'm debugger \<Rightarrow> ('m option \<times> 'm debugger) option) \<Rightarrow> 'm
   \<Rightarrow> 'e world \<Rightarrow> 'm debugger \<Rightarrow> 'm debugger option" where
  "WebsocketManager_Step E Prepare empty_text w g =
     foldM (\<lambda>(c, hdls) g.
         if debug_data_list (chart_debugs g c) = [] then Some g
         else do { (msg, g) \<leftarrow> Prepare c w g;
                   Some (foldl (\<lambda>g h. send E h (case msg of None \<Rightarrow> empty_text | Some x \<Rightarrow> x) g) g hdls) })
       (chart_map g) g"

end
