(* ===== verification/Js_Chart.thy ===== *)
theory Js_Chart
  imports Debugger
begin

text \<open>
  The objects of the JavaScript binding: \<open>JsChart\<close> (\<open>src/js/js_chart.cpp\<close>), \<open>JsAgent\<close>
  (\<open>src/js/js_agent.cpp\<close>) and \<open>JsDebugger\<close> (\<open>src/js/js_debugger.cpp\<close>). The binding knows the values of the
  script by numbers that the script gives out; it calls the script to say that a number is not needed
  any more. The script is not part of the repository: the calls it gets are a list. The binding was
  written against an earlier core (its charts have no constructor that takes a manager, its debugger
  calls functions of \<open>Debugger\<close> that are virtual now); the model has what its functions do.
\<close>

section \<open>State\<close>

text \<open>The calls of the functions that \<open>export_js.h\<close> declares and the script defines.\<close>

datatype 'm js_call =
    js_clear_variable int
  | js_clear_gameobj int
  | js_callback int string
  | js_debug_data 'm

text \<open>The JavaScript part of a chart, with its data, its agent and its debug data.\<close>

record js_chart =
  jc_data :: chart_data
  jc_agent :: "nat option"
  jc_variables :: "int list"
  jc_callback :: bool
  jc_debug :: chart_debug

text \<open>\<open>js_followed\<close> and \<open>js_quick\<close> are \<open>charts_\<close> and \<open>quick_debug_charts_\<close> of the debugger, \<open>js_agents\<close> has the
  field \<open>obj_\<close> of every agent, and \<open>js_calls\<close> the calls the script got, in their order.\<close>

record 'm js_state =
  js_charts :: "nat \<rightharpoonup> js_chart"
  js_agents :: "nat \<rightharpoonup> int"
  js_followed :: "nat list"
  js_quick :: "string list"
  js_calls :: "'m js_call list"

definition new_js_state :: "'m js_state" where
  "new_js_state = \<lparr>js_charts = (\<lambda>_. None), js_agents = (\<lambda>_. None), js_followed = [], js_quick = [], js_calls = []\<rparr>"

text \<open>The texts of the debugger: the data a chart collected (\<open>None\<close> for the empty text) with what is left
  of it, the description of a chart and the message that it stops.\<close>

record 'm js_texts =
  PrepareChartDebugData_of :: "nat \<Rightarrow> (int \<times> debug_data) list \<Rightarrow> 'm option \<times> (int \<times> debug_data) list"
  ChartInfo_of :: "nat \<Rightarrow> 'm"
  StopMessage_of :: "string \<Rightarrow> 'm"

definition js_put_chart :: "nat \<Rightarrow> js_chart \<Rightarrow> 'm js_state \<Rightarrow> 'm js_state" where
  "js_put_chart c ch s = s\<lparr>js_charts := (js_charts s)(c \<mapsto> ch)\<rparr>"

definition js_tell :: "'m js_call list \<Rightarrow> 'm js_state \<Rightarrow> 'm js_state" where
  "js_tell xs s = s\<lparr>js_calls := js_calls s @ xs\<rparr>"

definition js_upd_debug :: "nat \<Rightarrow> (chart_debug \<Rightarrow> chart_debug) \<Rightarrow> 'm js_state \<Rightarrow> 'm js_state option" where
  "js_upd_debug c f s = do { ch \<leftarrow> js_charts s c; Some (js_put_chart c (ch\<lparr>jc_debug := f (jc_debug ch)\<rparr>) s) }"

section \<open>The debugger\<close>

definition JsDebugger_StartDebugChart :: "nat option \<Rightarrow> 'm js_state \<Rightarrow> 'm js_state option" where
  "JsDebugger_StartDebugChart chart s =
     (case chart of
        None \<Rightarrow> Some s
      | Some c \<Rightarrow>
          if c \<in> set (js_followed s) then Some s
          else js_upd_debug c chart_StartDebug (s\<lparr>js_followed := js_followed s @ [c]\<rparr>))"

text \<open>The chart is taken off the list; it stays in debug mode.\<close>

definition JsDebugger_StopDebugChart :: "nat option \<Rightarrow> 'm js_state \<Rightarrow> 'm js_state" where
  "JsDebugger_StopDebugChart chart s =
     (case chart of
        None \<Rightarrow> s
      | Some c \<Rightarrow> if c \<in> set (js_followed s) then s\<lparr>js_followed := remove1 c (js_followed s)\<rparr> else s)"

definition JsDebugger_SendStopData :: "'m js_texts \<Rightarrow> nat \<Rightarrow> 'm js_state \<Rightarrow> 'm js_state option" where
  "JsDebugger_SendStopData T c s =
     do { ch \<leftarrow> js_charts s c;
          let xs = debug_data_list (jc_debug ch);
          let (data, xs) = (if xs \<noteq> [] then PrepareChartDebugData_of T c xs else (None, xs));
          Some (js_put_chart c (ch\<lparr>jc_debug := chart_StopDebug ((jc_debug ch)\<lparr>debug_data_list := xs\<rparr>)\<rparr>)
            (js_tell ((case data of None \<Rightarrow> [] | Some m \<Rightarrow> [js_debug_data m])
                @ [js_debug_data (StopMessage_of T (chart_name (jc_data ch)))]) s)) }"

definition JsDebugger_StopDebugChartWithData :: "'m js_texts \<Rightarrow> nat option \<Rightarrow> 'm js_state \<Rightarrow> 'm js_state option" where
  "JsDebugger_StopDebugChartWithData T chart s =
     (case chart of
        None \<Rightarrow> Some s
      | Some c \<Rightarrow>
          if c \<in> set (js_followed s)
          then JsDebugger_SendStopData T c (s\<lparr>js_followed := remove1 c (js_followed s)\<rparr>)
          else Some s)"

text \<open>\<open>QuickDebugChart\<close> on chart data; the flag it sets in the data is not read in the binding.\<close>

definition JsDebugger_QuickDebugChart :: "chart_data \<Rightarrow> 'm js_state \<Rightarrow> 'm js_state" where
  "JsDebugger_QuickDebugChart d s =
     (if chart_name d \<in> set (js_quick s) then s else s\<lparr>js_quick := js_quick s @ [chart_name d]\<rparr>)"

text \<open>A chart whose name waits for it is followed from its start on, also when it is on the list
  already.\<close>

definition JsDebugger_StartQuickDebug :: "'m js_texts \<Rightarrow> nat \<Rightarrow> 'm js_state \<Rightarrow> 'm js_state option" where
  "JsDebugger_StartQuickDebug T c s =
     do { ch \<leftarrow> js_charts s c;
          let name = chart_name (jc_data ch);
          if name \<notin> set (js_quick s) then Some s
          else do { s \<leftarrow> js_upd_debug c chart_StartDebug (s\<lparr>js_followed := js_followed s @ [c]\<rparr>);
                    let s = js_tell [js_debug_data (ChartInfo_of T c)] s;
                    Some (s\<lparr>js_quick := remove1 name (js_quick s)\<rparr>) } }"

definition JsDebugger_Reply :: "'m \<Rightarrow> 'm js_state \<Rightarrow> 'm js_state" where
  "JsDebugger_Reply msg = js_tell [js_debug_data msg]"

text \<open>\<open>Step\<close> visits every chart of the list; one that was destroyed is followed through a dangling
  pointer.\<close>

definition send_chart_data :: "'m js_texts \<Rightarrow> nat \<Rightarrow> 'm js_state \<Rightarrow> 'm js_state option" where
  "send_chart_data T c s =
     do { ch \<leftarrow> js_charts s c;
          let (data, xs) = PrepareChartDebugData_of T c (debug_data_list (jc_debug ch));
          Some (js_put_chart c (ch\<lparr>jc_debug := (jc_debug ch)\<lparr>debug_data_list := xs\<rparr>\<rparr>)
            (js_tell (case data of None \<Rightarrow> [] | Some m \<Rightarrow> [js_debug_data m]) s)) }"

definition JsDebugger_Step :: "'m js_texts \<Rightarrow> 'm js_state \<Rightarrow> 'm js_state option" where
  "JsDebugger_Step T s = foldM (send_chart_data T) (js_followed s) s"

section \<open>Charts\<close>

definition JsChart :: "nat \<Rightarrow> chart_data \<Rightarrow> 'm js_state \<Rightarrow> 'm js_state" where
  "JsChart c d = js_put_chart c \<lparr>jc_data = d, jc_agent = None, jc_variables = [], jc_callback = False,
     jc_debug = new_chart_debug\<rparr>"

definition JsChart_SetAgent :: "nat \<Rightarrow> nat \<Rightarrow> 'm js_state \<Rightarrow> 'm js_state option" where
  "JsChart_SetAgent a c s = do { ch \<leftarrow> js_charts s c; Some (js_put_chart c (ch\<lparr>jc_agent := Some a\<rparr>) s) }"

definition JsChart_SetCall :: "nat \<Rightarrow> 'm js_state \<Rightarrow> 'm js_state option" where
  "JsChart_SetCall c s = do { ch \<leftarrow> js_charts s c; Some (js_put_chart c (ch\<lparr>jc_callback := True\<rparr>) s) }"

text \<open>The numbers the variables held before are forgotten. A chart without an agent has no manager.\<close>

definition JsChart_InitArgs :: "'m js_texts \<Rightarrow> nat \<Rightarrow> 'm js_state \<Rightarrow> 'm js_state option" where
  "JsChart_InitArgs T c s =
     do { ch \<leftarrow> js_charts s c;
          _ \<leftarrow> jc_agent ch;
          JsDebugger_StartQuickDebug T c
            (js_put_chart c (ch\<lparr>jc_variables := replicate (variable_count (jc_data ch)) 0\<rparr>) s) }"

definition JsChart_SetVar :: "int \<Rightarrow> int \<Rightarrow> nat \<Rightarrow> 'm js_state \<Rightarrow> 'm js_state option" where
  "JsChart_SetVar idx r c s =
     do { ch \<leftarrow> js_charts s c;
          if idx \<ge> int (length (jc_variables ch)) \<or> idx < 0 then Some s
          else Some (js_put_chart c (ch\<lparr>jc_variables := (jc_variables ch)[nat idx := r]\<rparr>) s) }"

definition JsChart_GetVar :: "int \<Rightarrow> nat \<Rightarrow> 'm js_state \<Rightarrow> int option" where
  "JsChart_GetVar idx c s =
     do { ch \<leftarrow> js_charts s c;
          if idx \<ge> int (length (jc_variables ch)) \<or> idx < 0 then Some (- 1)
          else Some (jc_variables ch ! nat idx) }"

definition JsChart_SetArgs :: "int list \<Rightarrow> nat \<Rightarrow> 'm js_state \<Rightarrow> 'm js_state option" where
  "JsChart_SetArgs args c s =
     do { ch \<leftarrow> js_charts s c;
          foldM (\<lambda>i. JsChart_SetVar (int i) (args ! i) c)
            [0..<min (variable_count (jc_data ch)) (length args)] s }"

text \<open>The script is told to forget the value of every variable. The variables keep their numbers.\<close>

definition JsChart_ClearVariables :: "nat \<Rightarrow> 'm js_state \<Rightarrow> 'm js_state option" where
  "JsChart_ClearVariables c s =
     do { ch \<leftarrow> js_charts s c;
          Some (js_tell (map js_clear_variable (filter (\<lambda>r. r \<noteq> 0) (jc_variables ch))) s) }"

definition JsChart_ResetVariables :: "'m js_texts \<Rightarrow> nat \<Rightarrow> 'm js_state \<Rightarrow> 'm js_state option" where
  "JsChart_ResetVariables T c s = do { s \<leftarrow> JsChart_ClearVariables c s; JsChart_InitArgs T c s }"

text \<open>\<open>Return\<close> with a number: the owner's variable gets it, and the result of the chart is the answer of
  \<open>js_is_true\<close> as a truth value, which is true for the answer -1 that says the number is unknown.
  \<open>return_chart\<close> is \<open>Chart::Return\<close>, which works on the rest of the engine.\<close>

definition JsChart_callback :: "int \<Rightarrow> nat \<Rightarrow> 'm js_state \<Rightarrow> 'm js_state option" where
  "JsChart_callback r c s =
     do { ch \<leftarrow> js_charts s c;
          Some (if jc_callback ch then js_tell [js_callback r (chart_name (jc_data ch))] s else s) }"

definition JsChart_Return ::
  "(int \<Rightarrow> int) \<Rightarrow> (bool \<Rightarrow> nat \<Rightarrow> 'e world \<times> 'm js_state \<Rightarrow> ('e world \<times> 'm js_state) option)
     \<Rightarrow> int \<Rightarrow> nat \<Rightarrow> 'e world \<times> 'm js_state \<Rightarrow> ('e world \<times> 'm js_state) option" where
  "JsChart_Return js_is_true return_chart r c = (\<lambda>(w, s).
     do { ch \<leftarrow> w_charts w c;
          if \<not> chart_running ch then Some (w, s)
          else do { s \<leftarrow> (case owner_node ch of
                            None \<Rightarrow> Some s
                          | Some n \<Rightarrow>
                              do { d \<leftarrow> data_of n w;
                                   if var_id d \<ge> 0 then JsChart_SetVar (var_id d) r (np_chart n) s else Some s });
                    (w, s) \<leftarrow> return_chart (js_is_true r \<noteq> 0) c (w, s);
                    s \<leftarrow> JsChart_callback r c s;
                    Some (w, s) } })"

text \<open>\<open>Return\<close> with a truth value ignores it for the result of the chart.\<close>

definition JsChart_Return_bool ::
  "(bool \<Rightarrow> nat \<Rightarrow> 'e world \<times> 'm js_state \<Rightarrow> ('e world \<times> 'm js_state) option)
     \<Rightarrow> bool \<Rightarrow> nat \<Rightarrow> 'e world \<times> 'm js_state \<Rightarrow> ('e world \<times> 'm js_state) option" where
  "JsChart_Return_bool return_chart b c ws =
     do { (w, s) \<leftarrow> return_chart True c ws;
          s \<leftarrow> JsChart_callback (if b then 1 else 0) c s;
          Some (w, s) }"

text \<open>\<open>SendEventStatus\<close> takes the arguments of an event, which are numbers, through \<open>js_to_string\<close>; an index
  is in range there.\<close>

definition JsChart_SendEventStatus ::
  "(int \<Rightarrow> string) \<Rightarrow> string \<Rightarrow> string \<Rightarrow> int list \<Rightarrow> nat \<Rightarrow> 'm js_state \<Rightarrow> 'm js_state option" where
  "JsChart_SendEventStatus js_to_string uid event_name args c =
     js_upd_debug c (push_data (EventStatusData uid event_name (map js_to_string args) (int (length args))))"

text \<open>The destructor tells the script about the variables once more and asks the agent for the manager.\<close>

definition delete_JsChart :: "'m js_texts \<Rightarrow> nat \<Rightarrow> 'm js_state \<Rightarrow> 'm js_state option" where
  "delete_JsChart T c s =
     do { s \<leftarrow> JsChart_ClearVariables c s;
          ch \<leftarrow> js_charts s c;
          _ \<leftarrow> jc_agent ch;
          s \<leftarrow> JsDebugger_StopDebugChartWithData T (Some c) s;
          Some (s\<lparr>js_charts := (js_charts s)(c := None)\<rparr>) }"

section \<open>Agents\<close>

definition JsAgent :: "nat \<Rightarrow> int \<Rightarrow> 'm js_state \<Rightarrow> 'm js_state" where
  "JsAgent a r s = s\<lparr>js_agents := (js_agents s)(a \<mapsto> r)\<rparr>"

definition delete_JsAgent :: "nat \<Rightarrow> 'm js_state \<Rightarrow> 'm js_state option" where
  "delete_JsAgent a s =
     do { r \<leftarrow> js_agents s a;
          Some (js_tell [js_clear_gameobj r] (s\<lparr>js_agents := (js_agents s)(a := None)\<rparr>)) }"

section \<open>Node functions\<close>

text \<open>\<open>JsNodeFunc::call\<close>: the answer of \<open>js_call_func\<close> is the result of the node, -1 is an error.\<close>

definition JsNodeFunc_result :: "int \<Rightarrow> bool" where
  "JsNodeFunc_result answer = (if answer = - 1 then False else answer \<noteq> 0)"

definition JsNodeFunc_GetFuncFromString :: "string \<Rightarrow> string \<Rightarrow> node_func option" where
  "JsNodeFunc_GetFuncFromString code name = Some (Script code name)"

section \<open>Steps\<close>

text \<open>What happens to the JavaScript part while the manager lives and no chart is quick-debugged. A chart is
  made at a free address.\<close>

inductive js_step :: "'m js_texts \<Rightarrow> 'm js_state \<Rightarrow> 'm js_state \<Rightarrow> bool" for T where
  chart: "js_charts s c = None \<Longrightarrow> js_step T s (JsChart c d s)"
| chart_agent: "JsChart_SetAgent a c s = Some s' \<Longrightarrow> js_step T s s'"
| callback: "JsChart_SetCall c s = Some s' \<Longrightarrow> js_step T s s'"
| set_var: "JsChart_SetVar i r c s = Some s' \<Longrightarrow> js_step T s s'"
| set_args: "JsChart_SetArgs args c s = Some s' \<Longrightarrow> js_step T s s'"
| stop: "JsChart_ClearVariables c s = Some s' \<Longrightarrow> js_step T s s'"
| start: "JsChart_ResetVariables T c s = Some s' \<Longrightarrow> js_step T s s'"
| event: "JsChart_SendEventStatus f uid name args c s = Some s' \<Longrightarrow> js_step T s s'"
| delete_chart: "delete_JsChart T c s = Some s' \<Longrightarrow> js_step T s s'"
| agent: "js_agents s a = None \<Longrightarrow> js_step T s (JsAgent a r s)"
| delete_agent: "delete_JsAgent a s = Some s' \<Longrightarrow> js_step T s s'"
| follow: "js_charts s c \<noteq> None \<Longrightarrow> JsDebugger_StartDebugChart (Some c) s = Some s' \<Longrightarrow> js_step T s s'"
| unfollow: "js_step T s (JsDebugger_StopDebugChart chart s)"
| debug_step: "JsDebugger_Step T s = Some s' \<Longrightarrow> js_step T s s'"

inductive js_reachable :: "'m js_texts \<Rightarrow> 'm js_state \<Rightarrow> bool" for T where
  start: "js_reachable T new_js_state"
| step: "js_reachable T s \<Longrightarrow> js_step T s s' \<Longrightarrow> js_reachable T s'"

end
