(* ===== verification/Js_Props.thy ===== *)
theory Js_Props
  imports Js_Chart AF_Prelude
begin

text \<open>
  The charts the debugger of the JavaScript binding follows, what quick debugging does to its list, and
  how often the script is told to forget a value.
\<close>

section \<open>The list of charts that are followed\<close>

definition js_chart_ok :: "js_chart \<Rightarrow> bool" where
  "js_chart_ok ch \<longleftrightarrow> jc_variables ch = [] \<or> length (jc_variables ch) = variable_count (jc_data ch)"

definition js_ok :: "'m js_state \<Rightarrow> bool" where
  "js_ok s \<longleftrightarrow> js_quick s = [] \<and> distinct (js_followed s)
     \<and> (\<forall>c \<in> set (js_followed s). \<exists>ch. js_charts s c = Some ch \<and> in_debug (jc_debug ch))
     \<and> (\<forall>c ch. js_charts s c = Some ch \<longrightarrow> js_chart_ok ch)"

lemma js_put_sel [simp]:
  "js_charts (js_put_chart c ch s) = (js_charts s)(c \<mapsto> ch)" "js_agents (js_put_chart c ch s) = js_agents s"
  "js_followed (js_put_chart c ch s) = js_followed s" "js_quick (js_put_chart c ch s) = js_quick s"
  "js_calls (js_put_chart c ch s) = js_calls s"
  by (simp_all add: js_put_chart_def)

lemma js_tell_sel [simp]:
  "js_charts (js_tell xs s) = js_charts s" "js_agents (js_tell xs s) = js_agents s"
  "js_followed (js_tell xs s) = js_followed s" "js_quick (js_tell xs s) = js_quick s"
  "js_calls (js_tell xs s) = js_calls s @ xs"
  by (simp_all add: js_tell_def)

text \<open>A step that changes one chart, and neither its debug mode nor the lists of the debugger.\<close>

lemma js_ok_put:
  assumes "js_ok s" "js_charts s c = Some ch" "in_debug (jc_debug ch) \<longrightarrow> in_debug (jc_debug ch')" "js_chart_ok ch'"
    and "js_charts s' = (js_charts s)(c \<mapsto> ch')" "js_followed s' = js_followed s" "js_quick s' = js_quick s"
  shows "js_ok s'"
  using assms by (auto simp: js_ok_def)

lemma js_ok_same:
  assumes "js_ok s" "js_charts s' = js_charts s" "js_followed s' = js_followed s" "js_quick s' = js_quick s"
  shows "js_ok s'"
  using assms by (simp add: js_ok_def)

lemma js_ok_chart: "js_ok s \<Longrightarrow> js_charts s c = Some ch \<Longrightarrow> js_chart_ok ch"
  by (simp add: js_ok_def)

lemma js_SetVar_shape:
  assumes "JsChart_SetVar i r c s = Some s'"
  obtains ch vs where "js_charts s c = Some ch" "length vs = length (jc_variables ch)"
    "js_charts s' = (js_charts s)(c \<mapsto> ch\<lparr>jc_variables := vs\<rparr>)" "js_followed s' = js_followed s"
    "js_quick s' = js_quick s" "js_calls s' = js_calls s" "js_agents s' = js_agents s"
    "vs = (if 0 \<le> i \<and> i < int (length (jc_variables ch)) then (jc_variables ch)[nat i := r] else jc_variables ch)"
proof -
  from assms obtain ch where ch: "js_charts s c = Some ch"
    and s': "(if i \<ge> int (length (jc_variables ch)) \<or> i < 0 then Some s
          else Some (js_put_chart c (ch\<lparr>jc_variables := (jc_variables ch)[nat i := r]\<rparr>) s)) = Some s'"
    by (auto simp: JsChart_SetVar_def elim!: bind_SomeE)
  then show thesis
    by (intro that [OF ch, of "if 0 \<le> i \<and> i < int (length (jc_variables ch)) then (jc_variables ch)[nat i := r] else jc_variables ch"])
      (auto split: if_splits)
qed

lemma js_SetVar_ok: "JsChart_SetVar i r c s = Some s' \<Longrightarrow> js_ok s \<Longrightarrow> js_ok s'"
proof -
  assume set: "JsChart_SetVar i r c s = Some s'" and ok: "js_ok s"
  obtain ch vs where ch: "js_charts s c = Some ch" "length vs = length (jc_variables ch)"
    and s': "js_charts s' = (js_charts s)(c \<mapsto> ch\<lparr>jc_variables := vs\<rparr>)" "js_followed s' = js_followed s" "js_quick s' = js_quick s"
    by (rule js_SetVar_shape [OF set])
  from js_ok_chart [OF ok ch(1)] ch(2) have "js_chart_ok (ch\<lparr>jc_variables := vs\<rparr>)" by (auto simp: js_chart_ok_def)
  with s' show ?thesis by (intro js_ok_put [OF ok ch(1), of "ch\<lparr>jc_variables := vs\<rparr>"]) simp_all
qed

lemma js_SetArgs_ok: "JsChart_SetArgs args c s = Some s' \<Longrightarrow> js_ok s \<Longrightarrow> js_ok s'"
  by (auto simp: JsChart_SetArgs_def elim!: bind_SomeE intro: js_SetVar_ok elim: foldM_inv [where P = js_ok])

lemma js_Clear_ok: "JsChart_ClearVariables c s = Some s' \<Longrightarrow> js_ok s \<Longrightarrow> js_ok s'"
  by (auto simp: JsChart_ClearVariables_def elim!: bind_SomeE intro: js_ok_same)

lemma js_Reset_ok:
  assumes "JsChart_ResetVariables T c s = Some s'" "js_ok s"
  shows "js_ok s'"
proof -
  from assms(1) obtain s1 ch where s1: "JsChart_ClearVariables c s = Some s1" and ch: "js_charts s1 c = Some ch"
    and s': "JsDebugger_StartQuickDebug T c
        (js_put_chart c (ch\<lparr>jc_variables := replicate (variable_count (jc_data ch)) 0\<rparr>) s1) = Some s'"
    by (auto simp: JsChart_ResetVariables_def JsChart_InitArgs_def elim!: bind_SomeE)
  note ok = js_Clear_ok [OF s1 assms(2)]
  have put: "js_ok (js_put_chart c (ch\<lparr>jc_variables := replicate (variable_count (jc_data ch)) 0\<rparr>) s1)"
    by (rule js_ok_put [OF ok ch, of "ch\<lparr>jc_variables := replicate (variable_count (jc_data ch)) 0\<rparr>"])
      (simp_all add: js_chart_ok_def)
  then have "js_quick s1 = []" by (simp add: js_ok_def)
  with s' have "s' = js_put_chart c (ch\<lparr>jc_variables := replicate (variable_count (jc_data ch)) 0\<rparr>) s1"
    by (simp add: JsDebugger_StartQuickDebug_def)
  with put show ?thesis by simp
qed

lemma js_delete_ok:
  assumes "delete_JsChart T c s = Some s'" "js_ok s"
  shows "js_ok s'"
proof -
  from assms(1) obtain s1 s2 where s1: "JsChart_ClearVariables c s = Some s1"
    and s2: "JsDebugger_StopDebugChartWithData T (Some c) s1 = Some s2"
    and s': "s' = s2\<lparr>js_charts := (js_charts s2)(c := None)\<rparr>"
    by (auto simp: delete_JsChart_def elim!: bind_SomeE)
  note ok = js_Clear_ok [OF s1 assms(2)]
  have "js_quick s2 = js_quick s1 \<and> js_followed s2 = remove1 c (js_followed s1)
      \<and> (\<forall>c'. c' \<noteq> c \<longrightarrow> js_charts s2 c' = js_charts s1 c')"
    using s2 by (auto simp: JsDebugger_StopDebugChartWithData_def JsDebugger_SendStopData_def remove1_idem Let_def
      elim!: bind_SomeE split: if_splits prod.splits)
  with ok show ?thesis by (auto simp: js_ok_def s')
qed

lemma js_send_ok:
  assumes "js_ok s" "js_charts s c = Some ch"
  shows "\<exists>s'. send_chart_data T c s = Some s' \<and> js_ok s' \<and> js_followed s' = js_followed s"
proof -
  obtain data xs where p: "PrepareChartDebugData_of T c (debug_data_list (jc_debug ch)) = (data, xs)" by fastforce
  define s' where "s' = js_put_chart c (ch\<lparr>jc_debug := (jc_debug ch)\<lparr>debug_data_list := xs\<rparr>\<rparr>)
      (js_tell (case data of None \<Rightarrow> [] | Some m \<Rightarrow> [js_debug_data m]) s)"
  have "js_ok s'"
    by (rule js_ok_put [OF assms, of "ch\<lparr>jc_debug := (jc_debug ch)\<lparr>debug_data_list := xs\<rparr>\<rparr>"])
      (use js_ok_chart [OF assms] in \<open>simp_all add: s'_def js_chart_ok_def\<close>)
  moreover have "send_chart_data T c s = Some s'" using assms(2) p by (simp add: send_chart_data_def s'_def)
  ultimately show ?thesis by (simp add: s'_def)
qed

lemma js_Step_ok:
  assumes "js_ok s"
  shows "\<exists>s'. JsDebugger_Step T s = Some s' \<and> js_ok s'"
proof -
  have "\<exists>s'. foldM (send_chart_data T) cs s = Some s' \<and> js_ok s'" if "set cs \<subseteq> set (js_followed s)" "js_ok s" for cs s
    using that
  proof (induction cs arbitrary: s)
    case (Cons c cs)
    then obtain ch where "js_charts s c = Some ch" by (auto simp: js_ok_def)
    from js_send_ok [OF Cons.prems(2) this] obtain s1
      where "send_chart_data T c s = Some s1" "js_ok s1" "js_followed s1 = js_followed s" by blast
    with Cons show ?case by simp
  qed simp
  from this [OF subset_refl assms] show ?thesis by (simp add: JsDebugger_Step_def)
qed

lemma js_ok_put_chart:
  "js_ok s \<Longrightarrow> js_charts s c = Some ch \<Longrightarrow> (in_debug (jc_debug ch) \<Longrightarrow> in_debug (jc_debug ch')) \<Longrightarrow> js_chart_ok ch'
     \<Longrightarrow> js_ok (js_put_chart c ch' s)"
  by (rule js_ok_put) auto

lemma js_simple_ok:
  assumes "js_ok s"
  shows "JsChart_SetAgent a c s = Some s' \<Longrightarrow> js_ok s'" "JsChart_SetCall c s = Some s' \<Longrightarrow> js_ok s'"
    and "JsChart_SendEventStatus f uid name args c s = Some s' \<Longrightarrow> js_ok s'"
    and "delete_JsAgent a s = Some s' \<Longrightarrow> js_ok s'" "js_ok (JsAgent a r s)"
    and "JsDebugger_StartDebugChart (Some c) s = Some s' \<Longrightarrow> js_ok s'"
    and "js_ok (JsDebugger_StopDebugChart chart s)"
proof -
  note ok = js_ok_chart [OF assms, unfolded js_chart_ok_def]
  show "JsChart_SetAgent a c s = Some s' \<Longrightarrow> js_ok s'" "JsChart_SetCall c s = Some s' \<Longrightarrow> js_ok s'"
    by (auto simp: JsChart_SetAgent_def JsChart_SetCall_def js_chart_ok_def dest: ok
        intro!: js_ok_put_chart [OF assms] elim!: bind_SomeE)
  show "JsChart_SendEventStatus f uid name args c s = Some s' \<Longrightarrow> js_ok s'"
    by (auto simp: JsChart_SendEventStatus_def js_upd_debug_def push_data_def js_chart_ok_def dest: ok
        intro!: js_ok_put_chart [OF assms] elim!: bind_SomeE)
  show "delete_JsAgent a s = Some s' \<Longrightarrow> js_ok s'" "js_ok (JsAgent a r s)"
    by (auto simp: delete_JsAgent_def JsAgent_def intro: js_ok_same [OF assms] elim!: bind_SomeE)
  show "js_ok (JsDebugger_StopDebugChart chart s)"
    using assms by (auto simp: JsDebugger_StopDebugChart_def js_ok_def split: option.split)
  show "js_ok s'" if "JsDebugger_StartDebugChart (Some c) s = Some s'"
  proof (cases "c \<in> set (js_followed s)")
    case True
    with that assms show ?thesis by (simp add: JsDebugger_StartDebugChart_def)
  next
    case False
    with that obtain ch where ch: "js_charts s c = Some ch"
      and s': "s' = js_put_chart c (ch\<lparr>jc_debug := chart_StartDebug (jc_debug ch)\<rparr>) (s\<lparr>js_followed := js_followed s @ [c]\<rparr>)"
      by (auto simp: JsDebugger_StartDebugChart_def js_upd_debug_def elim!: bind_SomeE)
    have "js_chart_ok (ch\<lparr>jc_debug := chart_StartDebug (jc_debug ch)\<rparr>)"
      using js_ok_chart [OF assms ch] by (simp add: js_chart_ok_def)
    with assms False show ?thesis by (auto simp: s' js_ok_def chart_StartDebug_def)
  qed
qed

lemma js_step_ok: "js_step T s s' \<Longrightarrow> js_ok s \<Longrightarrow> js_ok s'"
proof (induction rule: js_step.induct)
  case (chart s c d)
  then show ?case by (auto simp: JsChart_def js_ok_def js_chart_ok_def)
next
  case (debug_step s s')
  with js_Step_ok [of s T] show ?case by auto
qed (blast intro: js_simple_ok js_Clear_ok js_Reset_ok js_SetVar_ok js_SetArgs_ok js_delete_ok)+

lemma js_reachable_ok: "js_reachable T s \<Longrightarrow> js_ok s"
proof (induction rule: js_reachable.induct)
  case start
  show ?case by (simp add: js_ok_def new_js_state_def)
qed (rule js_step_ok)

text \<open>C28. As long as no chart is quick-debugged, the list of charts the debugger of the JavaScript binding
  follows holds charts that exist and are in debug mode, each once, so that its step is defined; and a
  chart has a place for each of its variables from its first start on.\<close>

theorem js_followed_alive:
  assumes "js_reachable T s"
  shows "distinct (js_followed s) \<and> (\<forall>c \<in> set (js_followed s). \<exists>ch. js_charts s c = Some ch \<and> in_debug (jc_debug ch))
    \<and> JsDebugger_Step T s \<noteq> None
    \<and> (\<forall>c ch. js_charts s c = Some ch \<longrightarrow> length (jc_variables ch) \<in> {0, variable_count (jc_data ch)})"
  using js_reachable_ok [OF assms] js_Step_ok [OF js_reachable_ok [OF assms], of T]
  by (auto simp: js_ok_def js_chart_ok_def)

section \<open>Quick debugging\<close>

text \<open>What starting and destroying a chart do to the list.\<close>

lemma js_Reset_quick:
  assumes "JsChart_ResetVariables T c s = Some s'" "js_charts s c = Some ch" "chart_name (jc_data ch) \<in> set (js_quick s)"
  shows "js_followed s' = js_followed s @ [c]"
  using assms
  by (auto simp: JsChart_ResetVariables_def JsChart_ClearVariables_def JsChart_InitArgs_def JsDebugger_StartQuickDebug_def
      js_upd_debug_def Let_def elim!: bind_SomeE)

lemma js_delete_list:
  assumes "delete_JsChart T c s = Some s'"
  shows "js_followed s' = remove1 c (js_followed s)" "js_charts s' c = None"
  using assms
  by (auto simp: delete_JsChart_def JsChart_ClearVariables_def JsDebugger_StopDebugChartWithData_def
      JsDebugger_SendStopData_def Let_def remove1_idem elim!: bind_SomeE split: if_splits prod.splits)

lemma js_Step_dangling:
  assumes "c \<in> set (js_followed s)" "js_charts s c = None"
  shows "JsDebugger_Step T s = None"
proof -
  have "foldM (send_chart_data T) cs s = None" if "c \<in> set cs" "js_charts s c = None" for cs s
    using that
  proof (induction cs arbitrary: s)
    case (Cons c' cs)
    show ?case
    proof (cases "send_chart_data T c' s")
      case (Some s1)
      then have "c' \<noteq> c" "js_charts s1 c = None" using Cons.prems(2)
        by (auto simp: send_chart_data_def elim!: bind_SomeE split: prod.splits)
      with Cons Some show ?thesis by simp
    qed simp
  qed simp
  from this [OF assms] show ?thesis by (simp add: JsDebugger_Step_def)
qed

text \<open>C29. A chart that is followed already and whose name waits for quick debugging is put on the list
  again when it starts. Its destructor takes it off once, so that the list keeps a chart that is gone and
  the next step of the debugger follows a dangling pointer.\<close>

theorem js_quick_debug_dangles:
  assumes "js_charts s c = Some ch" "c \<in> set (js_followed s)" "chart_name (jc_data ch) \<in> set (js_quick s)"
    and "JsChart_ResetVariables T c s = Some s1" "delete_JsChart T c s1 = Some s2"
  shows "c \<in> set (js_followed s2) \<and> js_charts s2 c = None \<and> JsDebugger_Step T s2 = None"
proof -
  have "js_followed s2 = remove1 c (js_followed s @ [c])"
    using js_Reset_quick [OF assms(4,1,3)] js_delete_list(1) [OF assms(5)] by simp
  with assms(2) have "c \<in> set (js_followed s2)" by (simp add: remove1_append)
  with js_delete_list(2) [OF assms(5)] js_Step_dangling show ?thesis by blast
qed

section \<open>Forgetting values\<close>

definition forget_calls :: "js_chart \<Rightarrow> 'm js_call list" where
  "forget_calls ch = map js_clear_variable (filter (\<lambda>r. r \<noteq> 0) (jc_variables ch))"

lemma js_StopData_calls:
  assumes "JsDebugger_StopDebugChartWithData T (Some c) s = Some s'"
  obtains msgs where "js_calls s' = js_calls s @ map js_debug_data msgs"
proof (cases "c \<in> set (js_followed s)")
  case False
  with assms show thesis by (intro that [of "[]"]) (simp add: JsDebugger_StopDebugChartWithData_def)
next
  case True
  with assms obtain ch where ch: "js_charts s c = Some ch"
    by (auto simp: JsDebugger_StopDebugChartWithData_def JsDebugger_SendStopData_def elim!: bind_SomeE)
  obtain data xs where "(if debug_data_list (jc_debug ch) \<noteq> [] then PrepareChartDebugData_of T c (debug_data_list (jc_debug ch))
      else (None, debug_data_list (jc_debug ch))) = (data, xs)" by fastforce
  with True assms ch show thesis
    by (intro that [of "(case data of None \<Rightarrow> [] | Some m \<Rightarrow> [m]) @ [StopMessage_of T (chart_name (jc_data ch))]"])
      (auto simp: JsDebugger_StopDebugChartWithData_def JsDebugger_SendStopData_def Let_def split: option.split)
qed

text \<open>A chart that is stopped tells the script to forget each of its values, and when it is started
  again, or destroyed, it tells the script the same once more for each of them.\<close>

lemma js_forgotten_twice:
  assumes "js_charts s c = Some ch" "JsChart_ClearVariables c s = Some s1"
    and "JsChart_ResetVariables T c s1 = Some s2 \<or> delete_JsChart T c s1 = Some s2"
  shows "\<exists>msgs. js_calls s2 = js_calls s @ forget_calls ch @ forget_calls ch @ map js_debug_data msgs"
proof -
  from assms(1,2) have s1: "js_charts s1 c = Some ch" "js_calls s1 = js_calls s @ forget_calls ch"
    by (auto simp: JsChart_ClearVariables_def forget_calls_def)
  from assms(3) show ?thesis
  proof
    assume "JsChart_ResetVariables T c s1 = Some s2"
    with s1 show ?thesis
      by (auto simp: JsChart_ResetVariables_def JsChart_ClearVariables_def JsChart_InitArgs_def forget_calls_def
          JsDebugger_StartQuickDebug_def js_upd_debug_def Let_def elim!: bind_SomeE split: if_splits
          intro: exI [of _ "[]"] exI [of _ "[ChartInfo_of T c]"])
  next
    assume "delete_JsChart T c s1 = Some s2"
    then obtain t t2 where t: "JsChart_ClearVariables c s1 = Some t" and s2: "js_calls s2 = js_calls t2"
      and t2: "JsDebugger_StopDebugChartWithData T (Some c) t = Some t2"
      by (auto simp: delete_JsChart_def elim!: bind_SomeE)
    from t s1 have "js_calls t = js_calls s @ forget_calls ch @ forget_calls ch"
      by (auto simp: JsChart_ClearVariables_def forget_calls_def)
    moreover obtain msgs where "js_calls t2 = js_calls t @ map js_debug_data msgs" by (rule js_StopData_calls [OF t2])
    ultimately show ?thesis using s2 by auto
  qed
qed

end
