(* ===== verification/Lua_Refs.thy ===== *)
theory Lua_Refs
  imports World
begin

text \<open>
  The reference tables of the Lua binding. The Lua binding keeps no pointers to values of the
  language: it stores them in tables of Lua and keeps the integer keys, of type \<open>Ref\<close>, that
  \<open>luaL_ref\<close> returns (\<open>src/lua/lua_common.h\<close>, \<open>lua_manager.cpp\<close>, \<open>lua_chart.cpp\<close>). The Lua library is not part of
  the repository: which key \<open>luaL_ref\<close> chooses is a parameter, a function of the keys given out and
  returned so far. The manual of Lua promises that the key is not in use and is none of the two
  special keys (\<open>ref_lib\<close>).
\<close>

section \<open>Values\<close>

text \<open>The values of the script language, with \<open>VNone\<close> for \<open>nil\<close>. In Lua every value but \<open>nil\<close> and
  \<open>false\<close> is true.\<close>

fun lua_toboolean :: "val \<Rightarrow> bool" where
  "lua_toboolean VNone = False"
| "lua_toboolean (VBool b) = b"
| "lua_toboolean _ = True"

text \<open>A table of Lua with integer keys; a key that is absent has the value \<open>nil\<close>.\<close>

type_synonym lua_table = "int \<Rightarrow> val"

definition empty_table :: lua_table where
  "empty_table = (\<lambda>_. VNone)"

section \<open>Reference tables\<close>

definition LUA_NOREF :: int where "LUA_NOREF = - 2"
definition LUA_REFNIL :: int where "LUA_REFNIL = - 1"

datatype ref_op = Taken int | Returned int

text \<open>The keys in use, from the history of a table, its latest operation first.\<close>

primrec live :: "ref_op list \<Rightarrow> int set" where
  "live [] = {}"
| "live (x # h) = (case x of Taken r \<Rightarrow> insert r (live h) | Returned r \<Rightarrow> live h - {r})"

definition ref_lib :: "(ref_op list \<Rightarrow> int) \<Rightarrow> bool" where
  "ref_lib pick \<longleftrightarrow> (\<forall>h. pick h \<notin> live h \<and> pick h \<noteq> LUA_NOREF \<and> pick h \<noteq> LUA_REFNIL)"

record 'x ref_table =
  rt_vals :: "int \<rightharpoonup> 'x"
  rt_hist :: "ref_op list"

definition new_ref_table :: "'x ref_table" where
  "new_ref_table = \<lparr>rt_vals = (\<lambda>_. None), rt_hist = []\<rparr>"

text \<open>\<open>lua_rawgeti\<close> and \<open>lua_rawseti\<close> with a reference, \<open>luaL_ref\<close> of a value that is not \<open>nil\<close>, and
  \<open>luaL_unref\<close>.\<close>

definition ref_get :: "int \<Rightarrow> 'x ref_table \<Rightarrow> 'x option" where
  "ref_get r t = rt_vals t r"

definition ref_put :: "int \<Rightarrow> 'x \<Rightarrow> 'x ref_table \<Rightarrow> 'x ref_table" where
  "ref_put r x t = t\<lparr>rt_vals := (rt_vals t)(r \<mapsto> x)\<rparr>"

definition luaL_ref :: "(ref_op list \<Rightarrow> int) \<Rightarrow> 'x \<Rightarrow> 'x ref_table \<Rightarrow> int \<times> 'x ref_table" where
  "luaL_ref pick x t =
     (let r = pick (rt_hist t)
      in (r, t\<lparr>rt_vals := (rt_vals t)(r \<mapsto> x), rt_hist := Taken r # rt_hist t\<rparr>))"

definition luaL_unref :: "int \<Rightarrow> 'x ref_table \<Rightarrow> 'x ref_table" where
  "luaL_unref r t =
     (if r = LUA_NOREF \<or> r = LUA_REFNIL then t
      else t\<lparr>rt_vals := (rt_vals t)(r := None), rt_hist := Returned r # rt_hist t\<rparr>)"

definition used :: "'x ref_table \<Rightarrow> int set" where
  "used t = live (rt_hist t)"

definition table_ok :: "(ref_op list \<Rightarrow> int) \<Rightarrow> 'x ref_table \<Rightarrow> bool" where
  "table_ok pick t \<longleftrightarrow> ref_lib pick \<and> dom (rt_vals t) = used t \<and> LUA_NOREF \<notin> used t \<and> LUA_REFNIL \<notin> used t"

section \<open>The interface of a reference table\<close>

text \<open>Which slot of which object holds which reference: \<open>owns m R\<close> says that the references \<open>R\<close> are
  held, each by one slot.\<close>

definition owns :: "('k \<rightharpoonup> int) \<Rightarrow> int set \<Rightarrow> bool" where
  "owns m R \<longleftrightarrow> ran m = R \<and> inj_on m (dom m)"

lemma owns_holder: "owns m R \<Longrightarrow> m k = Some r \<Longrightarrow> m k' = Some r \<Longrightarrow> k = k'"
  unfolding owns_def inj_on_def by (metis domI)

lemma owns_in: "owns m R \<Longrightarrow> m k = Some r \<Longrightarrow> r \<in> R"
  unfolding owns_def by (auto intro: ranI)

lemma owns_drop:
  assumes "owns m R" "m k = Some r"
  shows "owns (m(k := None)) (R - {r})"
proof -
  have k: "\<And>k'. m k' = Some r \<longleftrightarrow> k' = k" using assms(2) owns_holder [OF assms] by blast
  have "x \<in> ran (m(k := None)) \<longleftrightarrow> x \<in> ran m - {r}" for x
  proof -
    have "x \<in> ran (m(k := None)) \<longleftrightarrow> (\<exists>a. a \<noteq> k \<and> m a = Some x)"
      unfolding ran_def by (auto split: if_splits)
    also have "\<dots> \<longleftrightarrow> (\<exists>a. m a = Some x) \<and> x \<noteq> r" using k by (metis option.inject)
    finally show ?thesis by (simp add: ran_def)
  qed
  then have "ran (m(k := None)) = ran m - {r}" by blast
  moreover have "inj_on (m(k := None)) (dom (m(k := None)))"
    using assms(1) by (auto simp: owns_def inj_on_def)
  ultimately show ?thesis using assms(1) by (simp add: owns_def)
qed

lemma owns_add:
  assumes "owns m R" "m k = None" "r \<notin> R"
  shows "owns (m(k \<mapsto> r)) (insert r R)"
proof -
  have "inj_on (m(k \<mapsto> r)) (dom (m(k \<mapsto> r)))"
    using assms by (auto simp: owns_def inj_on_def ran_def)
  with assms(1,2) show ?thesis by (simp add: owns_def)
qed

lemma owns_move:
  assumes "owns m R" "m k = Some r" "m k' = None"
  shows "owns (m(k := None, k' \<mapsto> r)) R"
proof -
  have "k \<noteq> k'" using assms(2,3) by auto
  then have "owns ((m(k := None))(k' \<mapsto> r)) (insert r (R - {r}))"
    using assms(3) by (intro owns_add owns_drop assms(1,2)) simp_all
  moreover have "insert r (R - {r}) = R" using owns_in [OF assms(1,2)] by blast
  ultimately show ?thesis by simp
qed

text \<open>What the binding relies on when it keeps references.\<close>

locale ref_store =
  fixes ok :: "'t \<Rightarrow> bool"
    and keys :: "'t \<Rightarrow> int set"
    and look :: "int \<Rightarrow> 't \<Rightarrow> 'x option"
    and put :: "int \<Rightarrow> 'x \<Rightarrow> 't \<Rightarrow> 't"
    and take_ref :: "'x \<Rightarrow> 't \<Rightarrow> int \<times> 't"
    and give_back :: "int \<Rightarrow> 't \<Rightarrow> 't"
  assumes look_law: "ok t \<Longrightarrow> (look r t \<noteq> None) = (r \<in> keys t)"
    and put_law: "ok t \<Longrightarrow> r \<in> keys t \<Longrightarrow>
      ok (put r x t) \<and> keys (put r x t) = keys t \<and> look r' (put r x t) = (if r' = r then Some x else look r' t)"
    and take_law: "ok t \<Longrightarrow> take_ref x t = (r, t') \<Longrightarrow>
      ok t' \<and> r \<notin> keys t \<and> r \<noteq> LUA_NOREF \<and> keys t' = insert r (keys t)
        \<and> look r' t' = (if r' = r then Some x else look r' t)"
    and give_law: "ok t \<Longrightarrow> r \<in> keys t \<Longrightarrow>
      ok (give_back r t) \<and> keys (give_back r t) = keys t - {r}
        \<and> look r' (give_back r t) = (if r' = r then None else look r' t)"
begin

lemma held:
  assumes "ok t" "owns m (keys t)" "m k = Some r"
  obtains x where "look r t = Some x"
  using assms look_law owns_in by (metis option.exhaust)

lemma take_owned:
  assumes "ok t" "owns m (keys t)" "m k = None" "take_ref x t = (r, t')"
  shows "ok t' \<and> owns (m(k \<mapsto> r)) (keys t')"
  using take_law [OF assms(1,4)] owns_add [OF assms(2,3), of r] by simp

lemma give_owned:
  assumes "ok t" "owns m (keys t)" "m k = Some r"
  shows "ok (give_back r t) \<and> owns (m(k := None)) (keys (give_back r t))"
  using give_law [OF assms(1) owns_in [OF assms(2,3)]] owns_drop [OF assms(2,3)] by simp

lemma put_owned:
  assumes "ok t" "owns m (keys t)" "m k = Some r"
  shows "ok (put r x t) \<and> owns m (keys (put r x t))"
  using put_law [OF assms(1) owns_in [OF assms(2,3)]] assms(2) by simp

text \<open>What one slot does to its value is not seen through another slot.\<close>

lemma others_kept:
  assumes "ok t" "owns m (keys t)" "m k = Some r" "m k' = Some r'" "k \<noteq> k'"
  shows "look r' (put r x t) = look r' t" "look r' (give_back r t) = look r' t"
  using put_law [OF assms(1) owns_in [OF assms(2,3)]] give_law [OF assms(1) owns_in [OF assms(2,3)]]
    owns_holder [OF assms(2,3), of k'] assms(4,5) by auto

lemma others_kept_take:
  assumes "ok t" "owns m (keys t)" "m k' = Some r'" "take_ref x t = (r, t')"
  shows "look r' t' = look r' t"
  using take_law [OF assms(1,4)] owns_in [OF assms(2,3)] by auto

end

interpretation lr: ref_store "table_ok pick" used ref_get ref_put "luaL_ref pick" luaL_unref
  for pick :: "ref_op list \<Rightarrow> int"
proof
  fix t t' :: "'x ref_table" and r r' x
  assume ok: "table_ok pick t"
  show "(ref_get r t \<noteq> None) = (r \<in> used t)"
    using ok by (auto simp: table_ok_def ref_get_def)
  show "luaL_ref pick x t = (r, t') \<Longrightarrow> table_ok pick t' \<and> r \<notin> used t \<and> r \<noteq> LUA_NOREF
    \<and> used t' = insert r (used t) \<and> ref_get r' t' = (if r' = r then Some x else ref_get r' t)"
  proof -
    assume "luaL_ref pick x t = (r, t')"
    then have t': "t' = t\<lparr>rt_vals := (rt_vals t)(r \<mapsto> x), rt_hist := Taken r # rt_hist t\<rparr>"
      and r: "r = pick (rt_hist t)" by (auto simp: luaL_ref_def Let_def)
    have "r \<notin> used t" "r \<noteq> LUA_NOREF" "r \<noteq> LUA_REFNIL"
      using ok by (simp_all add: r table_ok_def ref_lib_def used_def)
    with ok show ?thesis by (simp add: t' table_ok_def ref_get_def used_def)
  qed
  assume "r \<in> used t"
  with ok show "table_ok pick (ref_put r x t) \<and> used (ref_put r x t) = used t
    \<and> ref_get r' (ref_put r x t) = (if r' = r then Some x else ref_get r' t)"
    by (auto simp: table_ok_def ref_get_def ref_put_def used_def)
  from ok \<open>r \<in> used t\<close> show "table_ok pick (luaL_unref r t) \<and> used (luaL_unref r t) = used t - {r}
    \<and> ref_get r' (luaL_unref r t) = (if r' = r then None else ref_get r' t)"
    by (auto simp: table_ok_def ref_get_def luaL_unref_def used_def)
qed

end
