(* ===== verification/Lua_Chart.thy ===== *)
theory Lua_Chart
  imports Lua_Refs "HOL-Library.AList" "HOL-Library.List_Lexorder" "HOL-Library.Char_ord"
begin

text \<open>
  The objects of the Lua binding: \<open>LuaChart\<close> (\<open>src/lua/lua_chart.cpp\<close>), \<open>LuaAgent\<close>
  (\<open>src/lua/lua_agent.cpp\<close>), the functions a \<open>LuaNodeFunc\<close> keeps (\<open>src/lua/lua_nodefunc.cpp\<close>) and the
  arguments of events (\<open>src/lua/export_global_funcs.cpp\<close>). The stack of Lua is not part of the state: an
  operation gets the values it finds there and returns those it leaves.
\<close>

section \<open>State\<close>

text \<open>The Lua part of a chart: \<open>variables_\<close>, \<open>call_\<close> and \<open>init_table_\<close>, next to its data and its agent.\<close>

record lua_chart =
  lc_data :: chart_data
  lc_agent :: "nat option"
  lc_variables :: int
  lc_call :: int
  lc_init_table :: int

text \<open>The tables of a \<open>LuaManager\<close>: \<open>ChartVariableRef\<close> holds the tables of variables and of initial
  values, \<open>FunctionRef\<close> the functions of nodes and the callbacks, \<open>ObjectRef\<close> the game objects; and the
  registry. \<open>ls_agents\<close> has the field \<open>obj_\<close> of every agent, \<open>ls_node_funcs\<close> the field \<open>func_\<close> of the
  node functions in the order in which they were made.\<close>

record lua_state =
  ls_vars :: "lua_table ref_table"
  ls_funcs :: "val ref_table"
  ls_objs :: "val ref_table"
  ls_registry :: "val ref_table"
  ls_charts :: "nat \<rightharpoonup> lua_chart"
  ls_agents :: "nat \<rightharpoonup> int"
  ls_node_funcs :: "int list"

definition new_lua_state :: lua_state where
  "new_lua_state = \<lparr>ls_vars = new_ref_table, ls_funcs = new_ref_table, ls_objs = new_ref_table,
     ls_registry = new_ref_table, ls_charts = (\<lambda>_. None), ls_agents = (\<lambda>_. None), ls_node_funcs = []\<rparr>"

type_synonym picker = "ref_op list \<Rightarrow> int"

definition put_chart :: "nat \<Rightarrow> lua_chart \<Rightarrow> lua_state \<Rightarrow> lua_state" where
  "put_chart c ch s = s\<lparr>ls_charts := (ls_charts s)(c \<mapsto> ch)\<rparr>"

section \<open>Charts\<close>

definition LuaChart :: "nat \<Rightarrow> chart_data \<Rightarrow> lua_state \<Rightarrow> lua_state" where
  "LuaChart c d = put_chart c \<lparr>lc_data = d, lc_agent = None, lc_variables = LUA_NOREF, lc_call = LUA_NOREF,
     lc_init_table = LUA_NOREF\<rparr>"

definition LuaChart_SetAgent :: "nat \<Rightarrow> nat \<Rightarrow> lua_state \<Rightarrow> lua_state option" where
  "LuaChart_SetAgent a c s = do { ch \<leftarrow> ls_charts s c; Some (put_chart c (ch\<lparr>lc_agent := Some a\<rparr>) s) }"

text \<open>The values are found at the index that follows \<open>idx\<close>, since tables of Lua start at one. Only the
  upper end is checked. A chart without an agent has no manager to ask for the table.\<close>

definition LuaChart_GetVar :: "int \<Rightarrow> nat \<Rightarrow> lua_state \<Rightarrow> val option" where
  "LuaChart_GetVar idx c s =
     do { ch \<leftarrow> ls_charts s c;
          if idx + 1 > int (variable_count (lc_data ch)) then Some VNone
          else do { _ \<leftarrow> lc_agent ch;
                    t \<leftarrow> ref_get (lc_variables ch) (ls_vars s);
                    Some (t (idx + 1)) } }"

definition LuaChart_SetVar :: "val \<Rightarrow> int \<Rightarrow> nat \<Rightarrow> lua_state \<Rightarrow> lua_state option" where
  "LuaChart_SetVar v idx c s =
     do { ch \<leftarrow> ls_charts s c;
          if idx + 1 > int (variable_count (lc_data ch)) then Some s
          else do { _ \<leftarrow> lc_agent ch;
                    t \<leftarrow> ref_get (lc_variables ch) (ls_vars s);
                    Some (s\<lparr>ls_vars := ref_put (lc_variables ch) (t(idx + 1 := v)) (ls_vars s)\<rparr>) } }"

definition LuaChart_ClearVariables :: "nat \<Rightarrow> lua_state \<Rightarrow> lua_state option" where
  "LuaChart_ClearVariables c s =
     do { ch \<leftarrow> ls_charts s c;
          if lc_variables ch \<noteq> LUA_NOREF
          then do { _ \<leftarrow> lc_agent ch;
                    Some (put_chart c (ch\<lparr>lc_variables := LUA_NOREF\<rparr>)
                      (s\<lparr>ls_vars := luaL_unref (lc_variables ch) (ls_vars s)\<rparr>)) }
          else Some s }"

text \<open>The table a chart starts with: the parameters as they were attached, the other variables
  \<open>nil\<close>.\<close>

definition initial_variables :: "lua_chart \<Rightarrow> lua_state \<Rightarrow> lua_table option" where
  "initial_variables ch s =
     (if lc_init_table ch \<noteq> LUA_NOREF
      then do { init \<leftarrow> ref_get (lc_init_table ch) (ls_vars s);
                Some (\<lambda>i. if 1 \<le> i \<and> i \<le> int (params_count (lc_data ch)) then init i else VNone) }
      else Some empty_table)"

definition LuaChart_InitArgs :: "picker \<Rightarrow> nat \<Rightarrow> lua_state \<Rightarrow> lua_state option" where
  "LuaChart_InitArgs pick c s =
     do { ch \<leftarrow> ls_charts s c;
          _ \<leftarrow> lc_agent ch;
          t \<leftarrow> initial_variables ch s;
          let (r, vars) = luaL_ref pick t (ls_vars s);
          Some (put_chart c (ch\<lparr>lc_variables := r\<rparr>) (s\<lparr>ls_vars := vars\<rparr>)) }"

definition LuaChart_ResetVariables :: "picker \<Rightarrow> nat \<Rightarrow> lua_state \<Rightarrow> lua_state option" where
  "LuaChart_ResetVariables pick c s = do { s \<leftarrow> LuaChart_ClearVariables c s; LuaChart_InitArgs pick c s }"

text \<open>The arguments of a subchart; those beyond the parameters are dropped.\<close>

definition write_args :: "nat \<Rightarrow> val list \<Rightarrow> lua_table \<Rightarrow> lua_table" where
  "write_args k args t = (\<lambda>i. if 1 \<le> i \<and> i \<le> int (min k (length args)) then args ! nat (i - 1) else t i)"

definition LuaChart_SetArgs :: "val list \<Rightarrow> nat \<Rightarrow> lua_state \<Rightarrow> lua_state option" where
  "LuaChart_SetArgs args c s =
     do { ch \<leftarrow> ls_charts s c;
          _ \<leftarrow> lc_agent ch;
          t \<leftarrow> ref_get (lc_variables ch) (ls_vars s);
          Some (s\<lparr>ls_vars := ref_put (lc_variables ch) (write_args (params_count (lc_data ch)) args t) (ls_vars s)\<rparr>) }"

subsection \<open>The parameters given when a chart is attached\<close>

text \<open>The name of the parameter a key of the table stands for: the key itself, or the position of the
  parameter. The outer option is the access to \<open>param_info\<close>, the inner one says whether the entry
  counts.\<close>

definition param_of_key :: "chart_data \<Rightarrow> val \<Rightarrow> string option option" where
  "param_of_key d key =
     (case key of
        VStr name \<Rightarrow> Some (Some name)
      | VInt n \<Rightarrow>
          if 1 \<le> n \<and> n - 1 < int (params_count d)
          then if nat (n - 1) < length (variables d)
               then Some (Some (param_name (variables d ! nat (n - 1)))) else None
          else Some None
      | _ \<Rightarrow> Some None)"

text \<open>The loop over the entries keeps the values in the registry and their references in a map from
  names.\<close>

definition collect_param ::
  "picker \<Rightarrow> chart_data \<Rightarrow> val \<times> val \<Rightarrow> (string \<times> int) list \<times> val ref_table
     \<Rightarrow> ((string \<times> int) list \<times> val ref_table) option" where
  "collect_param pick d entry = (\<lambda>(dict, reg).
     do { name \<leftarrow> param_of_key d (fst entry);
          case name of
            None \<Rightarrow> Some (dict, reg)
          | Some name \<Rightarrow>
              (let (r, reg) = luaL_ref pick (snd entry) reg in Some (AList.update name r dict, reg)) })"

text \<open>The result is the table left on the stack. The references of the map, in the order of its keys,
  are given back.\<close>

definition LuaChart_SetArgsFromDict ::
  "picker \<Rightarrow> (val \<times> val) list \<Rightarrow> chart_data \<Rightarrow> val ref_table \<Rightarrow> (lua_table \<times> val ref_table) option" where
  "LuaChart_SetArgsFromDict pick entries d reg =
     do { (dict, reg) \<leftarrow> foldM (collect_param pick d) entries ([], reg);
          t \<leftarrow> foldM (\<lambda>i t. if i \<ge> length (variables d) then None
                            else case map_of dict (param_name (variables d ! i)) of
                                   None \<Rightarrow> Some t
                                 | Some r \<Rightarrow> Some (t(int i + 1 := case ref_get r reg of None \<Rightarrow> VNone | Some v \<Rightarrow> v)))
                 [0..<params_count d] empty_table;
          Some (t, foldl (\<lambda>reg (_, r). luaL_unref r reg) reg (sort_key fst dict)) }"

definition LuaChart_SetInitTable :: "picker \<Rightarrow> (val \<times> val) list \<Rightarrow> nat \<Rightarrow> lua_state \<Rightarrow> lua_state option" where
  "LuaChart_SetInitTable pick entries c s =
     do { ch \<leftarrow> ls_charts s c;
          _ \<leftarrow> lc_agent ch;
          let vars = (if lc_init_table ch \<noteq> LUA_NOREF then luaL_unref (lc_init_table ch) (ls_vars s) else ls_vars s);
          (t, reg) \<leftarrow> LuaChart_SetArgsFromDict pick entries (lc_data ch) (ls_registry s);
          let (r, vars) = luaL_ref pick t vars;
          Some (put_chart c (ch\<lparr>lc_init_table := r\<rparr>) (s\<lparr>ls_vars := vars, ls_registry := reg\<rparr>)) }"

subsection \<open>Callbacks\<close>

definition LuaChart_SetCall :: "int \<Rightarrow> nat \<Rightarrow> lua_state \<Rightarrow> lua_state option" where
  "LuaChart_SetCall r c s =
     do { ch \<leftarrow> ls_charts s c;
          s \<leftarrow> (if lc_call ch \<noteq> LUA_NOREF
                then do { _ \<leftarrow> lc_agent ch; Some (s\<lparr>ls_funcs := luaL_unref (lc_call ch) (ls_funcs s)\<rparr>) }
                else Some s);
          Some (put_chart c (ch\<lparr>lc_call := r\<rparr>) s) }"

text \<open>The method \<open>set_callback\<close> of a chart object (\<open>src/lua/export_agent_class.cpp\<close>).\<close>

definition chart_set_callback :: "picker \<Rightarrow> val \<Rightarrow> nat \<Rightarrow> lua_state \<Rightarrow> lua_state option" where
  "chart_set_callback pick f c s =
     do { ch \<leftarrow> ls_charts s c;
          _ \<leftarrow> lc_agent ch;
          let (r, funcs) = luaL_ref pick f (ls_funcs s);
          LuaChart_SetCall r c (s\<lparr>ls_funcs := funcs\<rparr>) }"

text \<open>\<open>InvokeCallback\<close> up to the protected call: the function to call, when there is one and it is a
  function. The callback is given back before it is called.\<close>

definition LuaChart_InvokeCallback :: "(val \<Rightarrow> bool) \<Rightarrow> nat \<Rightarrow> lua_state \<Rightarrow> (val option \<times> lua_state) option" where
  "LuaChart_InvokeCallback is_function c s =
     do { ch \<leftarrow> ls_charts s c;
          if lc_call ch = LUA_NOREF then Some (None, s)
          else do { _ \<leftarrow> lc_agent ch;
                    let f = ref_get (lc_call ch) (ls_funcs s);
                    Some (case f of None \<Rightarrow> None | Some f \<Rightarrow> if is_function f then Some f else None,
                          put_chart c (ch\<lparr>lc_call := LUA_NOREF\<rparr>)
                            (s\<lparr>ls_funcs := luaL_unref (lc_call ch) (ls_funcs s)\<rparr>)) } }"

text \<open>The destructor does nothing for a chart that never got an agent.\<close>

definition delete_LuaChart :: "nat \<Rightarrow> lua_state \<Rightarrow> lua_state option" where
  "delete_LuaChart c s =
     do { ch \<leftarrow> ls_charts s c;
          s \<leftarrow> (if lc_agent ch = None then Some s
                else do { s \<leftarrow> LuaChart_ClearVariables c s;
                          let s = (if lc_call ch \<noteq> LUA_NOREF
                                   then s\<lparr>ls_funcs := luaL_unref (lc_call ch) (ls_funcs s)\<rparr> else s);
                          Some (if lc_init_table ch \<noteq> LUA_NOREF
                                then s\<lparr>ls_vars := luaL_unref (lc_init_table ch) (ls_vars s)\<rparr> else s) });
          Some (s\<lparr>ls_charts := (ls_charts s)(c := None)\<rparr>) }"

section \<open>Agents and node functions\<close>

text \<open>The object is at the bottom of the stack when an agent is made.\<close>

definition LuaAgent :: "picker \<Rightarrow> val \<Rightarrow> nat \<Rightarrow> lua_state \<Rightarrow> lua_state" where
  "LuaAgent pick obj a s =
     (let (r, objs) = luaL_ref pick obj (ls_objs s)
      in s\<lparr>ls_objs := objs, ls_agents := (ls_agents s)(a \<mapsto> r)\<rparr>)"

definition delete_LuaAgent :: "nat \<Rightarrow> lua_state \<Rightarrow> lua_state option" where
  "delete_LuaAgent a s =
     do { r \<leftarrow> ls_agents s a;
          Some (s\<lparr>ls_objs := luaL_unref r (ls_objs s), ls_agents := (ls_agents s)(a := None)\<rparr>) }"

text \<open>\<open>LuaNodeFunc::GetFunctionByName\<close>: the function is looked up in the table \<open>node_funcs\<close> of the
  module. The second result is false for an unknown name.\<close>

definition GetFunctionByName :: "picker \<Rightarrow> (string \<rightharpoonup> val) \<Rightarrow> string \<Rightarrow> lua_state \<Rightarrow> bool \<times> lua_state" where
  "GetFunctionByName pick node_funcs name s =
     (case node_funcs name of
        None \<Rightarrow> (False, s)
      | Some f \<Rightarrow>
          (let (r, funcs) = luaL_ref pick f (ls_funcs s)
           in (True, s\<lparr>ls_funcs := funcs, ls_node_funcs := ls_node_funcs s @ [r]\<rparr>)))"

section \<open>Steps\<close>

text \<open>What happens to the Lua part of the binding while a manager lives. A chart and an agent are made
  at a free address.\<close>

inductive lua_step :: "picker \<Rightarrow> lua_state \<Rightarrow> lua_state \<Rightarrow> bool" for pick where
  chart: "ls_charts s c = None \<Longrightarrow> lua_step pick s (LuaChart c d s)"
| chart_agent: "LuaChart_SetAgent a c s = Some s' \<Longrightarrow> lua_step pick s s'"
| set_var: "LuaChart_SetVar v i c s = Some s' \<Longrightarrow> lua_step pick s s'"
| clear: "LuaChart_ClearVariables c s = Some s' \<Longrightarrow> lua_step pick s s'"
| reset: "LuaChart_ResetVariables pick c s = Some s' \<Longrightarrow> lua_step pick s s'"
| set_args: "LuaChart_SetArgs args c s = Some s' \<Longrightarrow> lua_step pick s s'"
| init_table: "LuaChart_SetInitTable pick entries c s = Some s' \<Longrightarrow> lua_step pick s s'"
| callback: "chart_set_callback pick f c s = Some s' \<Longrightarrow> lua_step pick s s'"
| invoke: "LuaChart_InvokeCallback is_function c s = Some (g, s') \<Longrightarrow> lua_step pick s s'"
| delete_chart: "delete_LuaChart c s = Some s' \<Longrightarrow> lua_step pick s s'"
| agent: "ls_agents s a = None \<Longrightarrow> lua_step pick s (LuaAgent pick obj a s)"
| delete_agent: "delete_LuaAgent a s = Some s' \<Longrightarrow> lua_step pick s s'"
| node_func: "GetFunctionByName pick node_funcs name s = (b, s') \<Longrightarrow> lua_step pick s s'"

inductive lua_reachable :: "picker \<Rightarrow> lua_state \<Rightarrow> bool" for pick where
  start: "lua_reachable pick new_lua_state"
| step: "lua_reachable pick s \<Longrightarrow> lua_step pick s s' \<Longrightarrow> lua_reachable pick s'"

end
