(* ===== verification/Lua_Props.thy ===== *)
theory Lua_Props
  imports Lua_Chart
begin

text \<open>
  The references of the Lua binding: in every reachable state each reference in use is held by one
  field of one object and every reference held is in use, so that nothing leaks from the tables of
  the manager and nothing dangles; what follows for the variables of charts.
\<close>

section \<open>Who holds which reference\<close>

definition held_ref :: "int \<Rightarrow> int option" where
  "held_ref r = (if r = LUA_NOREF then None else Some r)"

definition var_slots :: "lua_state \<Rightarrow> nat \<times> bool \<rightharpoonup> int" where
  "var_slots s = (\<lambda>(c, init). do { ch \<leftarrow> ls_charts s c; held_ref (if init then lc_init_table ch else lc_variables ch) })"

definition func_slots :: "lua_state \<Rightarrow> nat + nat \<rightharpoonup> int" where
  "func_slots s = (\<lambda>k. case k of
     Inl c \<Rightarrow> do { ch \<leftarrow> ls_charts s c; held_ref (lc_call ch) }
   | Inr i \<Rightarrow> if i < length (ls_node_funcs s) then Some (ls_node_funcs s ! i) else None)"

text \<open>A chart takes its first reference when it has an agent.\<close>

definition agent_first :: "lua_state \<Rightarrow> bool" where
  "agent_first s \<longleftrightarrow> (\<forall>c ch. ls_charts s c = Some ch \<longrightarrow> lc_agent ch = None \<longrightarrow>
     lc_variables ch = LUA_NOREF \<and> lc_call ch = LUA_NOREF \<and> lc_init_table ch = LUA_NOREF)"

definition lua_owned :: "picker \<Rightarrow> lua_state \<Rightarrow> bool" where
  "lua_owned pick s \<longleftrightarrow>
     table_ok pick (ls_vars s) \<and> owns (var_slots s) (used (ls_vars s)) \<and>
     table_ok pick (ls_funcs s) \<and> owns (func_slots s) (used (ls_funcs s)) \<and>
     table_ok pick (ls_objs s) \<and> owns (ls_agents s) (used (ls_objs s)) \<and>
     table_ok pick (ls_registry s) \<and> agent_first s"

lemma held_ref_simps [simp]:
  "held_ref LUA_NOREF = None" "r \<noteq> LUA_NOREF \<Longrightarrow> held_ref r = Some r"
  "held_ref r = None \<longleftrightarrow> r = LUA_NOREF" "held_ref r = Some r' \<longleftrightarrow> r = r' \<and> r \<noteq> LUA_NOREF"
  by (auto simp: held_ref_def)

lemma put_chart_sel [simp]:
  "ls_vars (put_chart c ch s) = ls_vars s" "ls_funcs (put_chart c ch s) = ls_funcs s"
  "ls_objs (put_chart c ch s) = ls_objs s" "ls_registry (put_chart c ch s) = ls_registry s"
  "ls_agents (put_chart c ch s) = ls_agents s" "ls_node_funcs (put_chart c ch s) = ls_node_funcs s"
  "ls_charts (put_chart c ch s) = (ls_charts s)(c \<mapsto> ch)"
  by (simp_all add: put_chart_def)

lemma slots_put [simp]:
  "var_slots (put_chart c ch s)
     = (var_slots s)((c, False) := held_ref (lc_variables ch), (c, True) := held_ref (lc_init_table ch))"
  "func_slots (put_chart c ch s) = (func_slots s)(Inl c := held_ref (lc_call ch))"
  by (auto simp: var_slots_def func_slots_def fun_eq_iff split: sum.split)

lemma slots_cong [simp]:
  "var_slots (s\<lparr>ls_vars := t\<rparr>) = var_slots s" "var_slots (s\<lparr>ls_funcs := u\<rparr>) = var_slots s"
  "var_slots (s\<lparr>ls_objs := u\<rparr>) = var_slots s" "var_slots (s\<lparr>ls_registry := u\<rparr>) = var_slots s"
  "var_slots (s\<lparr>ls_agents := ag\<rparr>) = var_slots s" "var_slots (s\<lparr>ls_node_funcs := nf\<rparr>) = var_slots s"
  "func_slots (s\<lparr>ls_vars := t\<rparr>) = func_slots s" "func_slots (s\<lparr>ls_funcs := u\<rparr>) = func_slots s"
  "func_slots (s\<lparr>ls_objs := u\<rparr>) = func_slots s" "func_slots (s\<lparr>ls_registry := u\<rparr>) = func_slots s"
  "func_slots (s\<lparr>ls_agents := ag\<rparr>) = func_slots s"
  by (simp_all add: var_slots_def func_slots_def fun_eq_iff split: sum.split)

lemma slots_node_func:
  "func_slots (s\<lparr>ls_funcs := t, ls_node_funcs := ls_node_funcs s @ [r]\<rparr>) = (func_slots s)(Inr (length (ls_node_funcs s)) \<mapsto> r)"
  by (auto simp: func_slots_def fun_eq_iff nth_append less_Suc_eq split: sum.split)

lemma slot_of:
  assumes "ls_charts s c = Some ch"
  shows "var_slots s (c, False) = held_ref (lc_variables ch)" "var_slots s (c, True) = held_ref (lc_init_table ch)"
    "func_slots s (Inl c) = held_ref (lc_call ch)"
  using assms by (simp_all add: var_slots_def func_slots_def)

text \<open>Rewriting a field that did not change is no update.\<close>

lemma slots_same:
  assumes "ls_charts s c = Some ch"
  shows "(var_slots s)((c, False) := held_ref (lc_variables ch), (c, True) := x) = (var_slots s)((c, True) := x)"
    "(var_slots s)((c, False) := y, (c, True) := held_ref (lc_init_table ch)) = (var_slots s)((c, False) := y)"
    "(var_slots s)((c, False) := held_ref (lc_variables ch), (c, True) := held_ref (lc_init_table ch)) = var_slots s"
    "(func_slots s)(Inl c := held_ref (lc_call ch)) = func_slots s"
  using slot_of [OF assms] by (auto simp: fun_eq_iff)

lemma slots_free:
  assumes "ls_charts s c = None"
  shows "(var_slots s)((c, False) := None, (c, True) := None) = var_slots s" "(func_slots s)(Inl c := None) = func_slots s"
  using assms by (auto simp: fun_eq_iff var_slots_def func_slots_def)

lemma slots_delete:
  "var_slots (s\<lparr>ls_charts := (ls_charts s)(c := None)\<rparr>) = (var_slots s)((c, False) := None, (c, True) := None)"
  "func_slots (s\<lparr>ls_charts := (ls_charts s)(c := None)\<rparr>) = (func_slots s)(Inl c := None)"
  by (auto simp: fun_eq_iff var_slots_def func_slots_def split: sum.split)

lemma ownedD:
  assumes "lua_owned pick s"
  shows "table_ok pick (ls_vars s)" "owns (var_slots s) (used (ls_vars s))"
    "table_ok pick (ls_funcs s)" "owns (func_slots s) (used (ls_funcs s))"
    "table_ok pick (ls_objs s)" "owns (ls_agents s) (used (ls_objs s))" "table_ok pick (ls_registry s)"
    "agent_first s"
  using assms by (simp_all add: lua_owned_def)

lemma agent_first_chart:
  "agent_first s \<Longrightarrow> ls_charts s c = Some ch \<Longrightarrow> lc_agent ch = None \<Longrightarrow>
     lc_variables ch = LUA_NOREF \<and> lc_call ch = LUA_NOREF \<and> lc_init_table ch = LUA_NOREF"
  by (simp add: agent_first_def)

lemma agent_first_simps [simp]:
  "agent_first (s\<lparr>ls_vars := t\<rparr>) = agent_first s" "agent_first (s\<lparr>ls_funcs := u\<rparr>) = agent_first s"
  "agent_first (s\<lparr>ls_objs := u\<rparr>) = agent_first s" "agent_first (s\<lparr>ls_registry := u\<rparr>) = agent_first s"
  "agent_first (s\<lparr>ls_agents := ag\<rparr>) = agent_first s" "agent_first (s\<lparr>ls_node_funcs := nf\<rparr>) = agent_first s"
  by (simp_all add: agent_first_def)

lemma agent_first_put:
  "agent_first s \<Longrightarrow> lc_agent ch \<noteq> None \<or>
     lc_variables ch = LUA_NOREF \<and> lc_call ch = LUA_NOREF \<and> lc_init_table ch = LUA_NOREF \<Longrightarrow>
   agent_first (put_chart c ch s)"
  by (auto simp: agent_first_def)

lemma agent_first_delete: "agent_first s \<Longrightarrow> agent_first (s\<lparr>ls_charts := (ls_charts s)(c := None)\<rparr>)"
  by (auto simp: agent_first_def)

lemma used_put [simp]: "used (ref_put r x t) = used t"
  by (simp add: used_def ref_put_def)

lemma used_of_get: "table_ok pick t \<Longrightarrow> ref_get r t = Some x \<Longrightarrow> r \<in> used t"
  using lr.look_law [of pick t r] by simp

section \<open>Every operation keeps it\<close>

lemma new_owned: "ref_lib pick \<Longrightarrow> lua_owned pick new_lua_state"
proof -
  assume "ref_lib pick"
  moreover have "var_slots new_lua_state = (\<lambda>_. None)" "func_slots new_lua_state = (\<lambda>_. None)"
    by (simp_all add: var_slots_def func_slots_def new_lua_state_def fun_eq_iff split: sum.split)
  ultimately show ?thesis
    by (simp add: lua_owned_def agent_first_def new_lua_state_def new_ref_table_def table_ok_def used_def owns_def)
qed

lemma LuaChart_owned:
  assumes "lua_owned pick s" "ls_charts s c = None"
  shows "lua_owned pick (LuaChart c d s)"
  using assms slots_free [OF assms(2)] by (simp add: lua_owned_def LuaChart_def agent_first_put)

lemma SetAgent_owned:
  assumes "lua_owned pick s" "LuaChart_SetAgent a c s = Some s'"
  shows "lua_owned pick s'"
  using assms by (auto simp: LuaChart_SetAgent_def lua_owned_def slots_same(3,4) agent_first_put elim!: bind_SomeE)

text \<open>Writing through a reference that can be read.\<close>

lemma write_owned:
  assumes "lua_owned pick s" "ref_get r (ls_vars s) = Some t"
  shows "lua_owned pick (s\<lparr>ls_vars := ref_put r t' (ls_vars s)\<rparr>)"
  using lr.put_law [OF ownedD(1) [OF assms(1)] used_of_get [OF ownedD(1) [OF assms(1)] assms(2)]] ownedD [OF assms(1)]
  by (simp add: lua_owned_def)

lemma SetVar_owned:
  assumes "lua_owned pick s" "LuaChart_SetVar v i c s = Some s'"
  shows "lua_owned pick s'"
  using assms(2) write_owned [OF assms(1)] assms(1)
  by (auto simp: LuaChart_SetVar_def elim!: bind_SomeE split: if_splits)

lemma SetArgs_owned:
  assumes "lua_owned pick s" "LuaChart_SetArgs args c s = Some s'"
  shows "lua_owned pick s'"
  using assms(2) write_owned [OF assms(1)] by (auto simp: LuaChart_SetArgs_def elim!: bind_SomeE)

lemma ClearVariables_owned:
  assumes "lua_owned pick s" "LuaChart_ClearVariables c s = Some s'"
  shows "lua_owned pick s'"
proof -
  from assms(2) obtain ch where ch: "ls_charts s c = Some ch" by (auto simp: LuaChart_ClearVariables_def elim!: bind_SomeE)
  show ?thesis
  proof (cases "lc_variables ch = LUA_NOREF")
    case False
    then have "var_slots s (c, False) = Some (lc_variables ch)" using slot_of(1) [OF ch] by simp
    note give = lr.give_owned [OF ownedD(1,2) [OF assms(1)] this]
    from False assms(2) ch obtain a where "lc_agent ch = Some a"
      and "s' = put_chart c (ch\<lparr>lc_variables := LUA_NOREF\<rparr>) (s\<lparr>ls_vars := luaL_unref (lc_variables ch) (ls_vars s)\<rparr>)"
      by (auto simp: LuaChart_ClearVariables_def elim!: bind_SomeE)
    with give ownedD [OF assms(1)] show ?thesis by (simp add: lua_owned_def slots_same [OF ch] agent_first_put)
  qed (use assms ch in \<open>simp add: LuaChart_ClearVariables_def\<close>)
qed

text \<open>Clearing the variables leaves the chart without a table.\<close>

lemma ClearVariables_chart:
  assumes "LuaChart_ClearVariables c s = Some s'" "ls_charts s c = Some ch"
  shows "ls_charts s' c = Some (ch\<lparr>lc_variables := LUA_NOREF\<rparr>)"
  using assms by (auto simp: LuaChart_ClearVariables_def elim!: bind_SomeE split: if_splits)

lemma InitArgs_owned:
  assumes "lua_owned pick s" "LuaChart_InitArgs pick c s = Some s'" "ls_charts s c = Some ch"
    and "lc_variables ch = LUA_NOREF"
  shows "lua_owned pick s'"
proof -
  from assms(2,3) obtain a t r vars where a: "lc_agent ch = Some a" and vars: "luaL_ref pick t (ls_vars s) = (r, vars)"
    and s': "s' = put_chart c (ch\<lparr>lc_variables := r\<rparr>) (s\<lparr>ls_vars := vars\<rparr>)"
    by (auto simp: LuaChart_InitArgs_def elim!: bind_SomeE split: prod.splits)
  have free: "var_slots s (c, False) = None" using slot_of(1) [OF assms(3)] assms(4) by simp
  have "r \<noteq> LUA_NOREF" using lr.take_law [OF ownedD(1) [OF assms(1)] vars] by blast
  with lr.take_owned [OF ownedD(1,2) [OF assms(1)] free vars] ownedD [OF assms(1)] show ?thesis
    by (simp add: lua_owned_def s' slots_same [OF assms(3)] agent_first_put a)
qed

lemma ResetVariables_owned:
  assumes "lua_owned pick s" "LuaChart_ResetVariables pick c s = Some s'"
  shows "lua_owned pick s'"
proof -
  from assms(2) obtain s1 where s1: "LuaChart_ClearVariables c s = Some s1" "LuaChart_InitArgs pick c s1 = Some s'"
    by (auto simp: LuaChart_ResetVariables_def elim!: bind_SomeE)
  from s1(1) obtain ch where ch: "ls_charts s c = Some ch" by (auto simp: LuaChart_ClearVariables_def elim!: bind_SomeE)
  show ?thesis
    by (rule InitArgs_owned [OF ClearVariables_owned [OF assms(1) s1(1)] s1(2) ClearVariables_chart [OF s1(1) ch]]) simp
qed

text \<open>Collecting the parameters keeps the registry well-formed.\<close>

lemma collect_param_ok:
  assumes "collect_param pick d e (dict, reg) = Some (dict', reg')" "table_ok pick reg"
  shows "table_ok pick reg'"
  using assms lr.take_law [OF assms(2)]
  by (auto simp: collect_param_def elim!: bind_SomeE split: option.splits prod.splits)

lemma unref_ok:
  assumes "table_ok pick t"
  shows "table_ok pick (luaL_unref r t)"
  using assms by (auto simp: table_ok_def luaL_unref_def used_def)

lemma unref_all_ok: "table_ok pick reg \<Longrightarrow> table_ok pick (foldl (\<lambda>reg (_, r). luaL_unref r reg) reg rs)"
  by (induction rs arbitrary: reg) (auto simp: unref_ok)

lemma SetArgsFromDict_ok:
  assumes "LuaChart_SetArgsFromDict pick es d reg = Some (t, reg')" "table_ok pick reg"
  shows "table_ok pick reg'"
proof -
  from assms(1) obtain dict reg1 where fold: "foldM (collect_param pick d) es ([], reg) = Some (dict, reg1)"
    and reg': "reg' = foldl (\<lambda>reg (_, r). luaL_unref r reg) reg1 (sort_key fst dict)"
    by (auto simp: LuaChart_SetArgsFromDict_def elim!: bind_SomeE)
  have "table_ok pick (snd (dict, reg1))"
    by (rule foldM_inv [OF fold]) (use assms(2) collect_param_ok in \<open>auto\<close>)
  then show ?thesis by (simp add: reg' unref_all_ok)
qed

lemma SetInitTable_owned:
  assumes "lua_owned pick s" "LuaChart_SetInitTable pick es c s = Some s'"
  shows "lua_owned pick s'"
proof -
  from assms(2) obtain ch a t reg r vars0 vars where ch: "ls_charts s c = Some ch" and a: "lc_agent ch = Some a"
    and vars0: "vars0 = (if lc_init_table ch \<noteq> LUA_NOREF then luaL_unref (lc_init_table ch) (ls_vars s) else ls_vars s)"
    and reg: "LuaChart_SetArgsFromDict pick es (lc_data ch) (ls_registry s) = Some (t, reg)"
    and vars: "luaL_ref pick t vars0 = (r, vars)"
    and s': "s' = put_chart c (ch\<lparr>lc_init_table := r\<rparr>) (s\<lparr>ls_vars := vars, ls_registry := reg\<rparr>)"
    by (auto simp: LuaChart_SetInitTable_def Let_def elim!: bind_SomeE split: prod.splits)
  have "table_ok pick vars0 \<and> owns ((var_slots s)((c, True) := None)) (used vars0)"
  proof (cases "lc_init_table ch = LUA_NOREF")
    case True
    then have "var_slots s (c, True) = None" using slot_of(2) [OF ch] by simp
    then have "(var_slots s)((c, True) := None) = var_slots s" by (simp add: fun_upd_idem)
    with True ownedD [OF assms(1)] show ?thesis by (simp add: vars0)
  next
    case False
    then have "var_slots s (c, True) = Some (lc_init_table ch)" using slot_of(2) [OF ch] by simp
    with lr.give_owned [OF ownedD(1,2) [OF assms(1)] this] False show ?thesis by (simp add: vars0)
  qed
  then have ok: "table_ok pick vars0" "owns ((var_slots s)((c, True) := None)) (used vars0)" by simp_all
  have "r \<noteq> LUA_NOREF" using lr.take_law [OF ok(1) vars] by blast
  with lr.take_owned [OF ok _ vars, of "(c, True)"] ownedD [OF assms(1)] SetArgsFromDict_ok [OF reg]
  show ?thesis by (simp add: lua_owned_def s' slots_same(1,4) [OF ch] agent_first_put a)
qed

lemma SetCall_slot:
  assumes "LuaChart_SetCall r c s = Some s'" "ls_charts s c = Some ch"
    and "table_ok pick (ls_funcs s)" "owns m (used (ls_funcs s))" "m (Inl c) = held_ref (lc_call ch)"
  shows "\<exists>t. s' = put_chart c (ch\<lparr>lc_call := r\<rparr>) (s\<lparr>ls_funcs := t\<rparr>) \<and> table_ok pick t
    \<and> owns (m(Inl c := None)) (used t)"
proof (cases "lc_call ch = LUA_NOREF")
  case True
  with assms(5) have "m(Inl c := None) = m" by (simp add: fun_upd_idem)
  with True assms show ?thesis by (auto simp: LuaChart_SetCall_def intro!: exI [of _ "ls_funcs s"])
next
  case False
  with assms(5) lr.give_owned [OF assms(3,4)] have "table_ok pick (luaL_unref (lc_call ch) (ls_funcs s))
    \<and> owns (m(Inl c := None)) (used (luaL_unref (lc_call ch) (ls_funcs s)))" by simp
  with False assms(1,2) show ?thesis by (auto simp: LuaChart_SetCall_def elim!: bind_SomeE)
qed

lemma chart_set_callback_owned:
  assumes "lua_owned pick s" "chart_set_callback pick f c s = Some s'"
  shows "lua_owned pick s'"
proof -
  from assms(2) obtain ch a r funcs where ch: "ls_charts s c = Some ch" and a: "lc_agent ch = Some a"
    and funcs: "luaL_ref pick f (ls_funcs s) = (r, funcs)"
    and call: "LuaChart_SetCall r c (s\<lparr>ls_funcs := funcs\<rparr>) = Some s'"
    by (auto simp: chart_set_callback_def elim!: bind_SomeE split: prod.splits)
  define k where "k = (Inr (length (ls_node_funcs s)) :: nat + nat)"
  have k: "func_slots s k = None" by (simp add: k_def func_slots_def)
  note new = lr.take_owned [OF ownedD(3,4) [OF assms(1)] k funcs]
  have r: "r \<noteq> LUA_NOREF" using lr.take_law [OF ownedD(3) [OF assms(1)] funcs] by blast
  have slot: "((func_slots s)(k \<mapsto> r)) (Inl c) = held_ref (lc_call ch)" using slot_of(3) [OF ch] by (simp add: k_def)
  obtain t where s': "s' = put_chart c (ch\<lparr>lc_call := r\<rparr>) (s\<lparr>ls_funcs := t\<rparr>)" and t: "table_ok pick t"
    and "owns ((func_slots s)(k \<mapsto> r, Inl c := None)) (used t)"
    using SetCall_slot [where m = "(func_slots s)(k \<mapsto> r)" and pick = pick, OF call] ch new slot by auto
  from owns_move [OF this(3), of k r "Inl c"]
  have "owns ((func_slots s)(k \<mapsto> r, Inl c := None, k := None, Inl c \<mapsto> r)) (used t)" by (simp add: k_def)
  moreover have "(func_slots s)(k \<mapsto> r, Inl c := None, k := None, Inl c \<mapsto> r) = (func_slots s)(Inl c \<mapsto> r)"
    using k by (auto simp: fun_eq_iff)
  ultimately have "owns ((func_slots s)(Inl c \<mapsto> r)) (used t)" by (simp only:)
  then show ?thesis
    using t ownedD [OF assms(1)] r by (simp add: lua_owned_def s' slots_same(3) [OF ch] agent_first_put a)
qed

lemma InvokeCallback_owned:
  assumes "lua_owned pick s" "LuaChart_InvokeCallback is_function c s = Some (g, s')"
  shows "lua_owned pick s'"
proof -
  from assms(2) obtain ch where ch: "ls_charts s c = Some ch"
    by (auto simp: LuaChart_InvokeCallback_def elim!: bind_SomeE)
  show ?thesis
  proof (cases "lc_call ch = LUA_NOREF")
    case False
    then have "func_slots s (Inl c) = Some (lc_call ch)" using slot_of(3) [OF ch] by simp
    note give = lr.give_owned [OF ownedD(3,4) [OF assms(1)] this]
    from False assms(2) ch obtain a where "lc_agent ch = Some a"
      and "s' = put_chart c (ch\<lparr>lc_call := LUA_NOREF\<rparr>) (s\<lparr>ls_funcs := luaL_unref (lc_call ch) (ls_funcs s)\<rparr>)"
      by (auto simp: LuaChart_InvokeCallback_def elim!: bind_SomeE)
    with give ownedD [OF assms(1)] show ?thesis by (simp add: lua_owned_def slots_same(3) [OF ch] agent_first_put)
  qed (use assms ch in \<open>simp add: LuaChart_InvokeCallback_def\<close>)
qed

lemma LuaAgent_owned:
  assumes "lua_owned pick s" "ls_agents s a = None"
  shows "lua_owned pick (LuaAgent pick obj a s)"
proof -
  obtain r objs where objs: "luaL_ref pick obj (ls_objs s) = (r, objs)" by fastforce
  from lr.take_owned [OF ownedD(5,6) [OF assms(1)] assms(2) objs] ownedD [OF assms(1)]
  show ?thesis by (simp add: lua_owned_def LuaAgent_def objs)
qed

lemma delete_LuaAgent_owned:
  assumes "lua_owned pick s" "delete_LuaAgent a s = Some s'"
  shows "lua_owned pick s'"
proof -
  from assms(2) obtain r where r: "ls_agents s a = Some r"
    and s': "s' = s\<lparr>ls_objs := luaL_unref r (ls_objs s), ls_agents := (ls_agents s)(a := None)\<rparr>"
    by (auto simp: delete_LuaAgent_def elim!: bind_SomeE)
  from lr.give_owned [OF ownedD(5,6) [OF assms(1)] r] ownedD [OF assms(1)]
  show ?thesis by (simp add: lua_owned_def s')
qed

lemma GetFunctionByName_owned:
  assumes "lua_owned pick s" "GetFunctionByName pick node_funcs name s = (b, s')"
  shows "lua_owned pick s'"
proof (cases "node_funcs name")
  case (Some f)
  obtain r funcs where funcs: "luaL_ref pick f (ls_funcs s) = (r, funcs)" by fastforce
  have "func_slots s (Inr (length (ls_node_funcs s))) = None" by (simp add: func_slots_def)
  from lr.take_owned [OF ownedD(3,4) [OF assms(1)] this funcs] Some funcs assms(2) ownedD [OF assms(1)]
  show ?thesis by (auto simp: GetFunctionByName_def lua_owned_def slots_node_func)
qed (use assms in \<open>auto simp: GetFunctionByName_def\<close>)

lemma delete_LuaChart_owned:
  assumes "lua_owned pick s" "delete_LuaChart c s = Some s'"
  shows "lua_owned pick s'"
proof -
  from assms(2) obtain ch where ch: "ls_charts s c = Some ch" by (auto simp: delete_LuaChart_def elim!: bind_SomeE)
  note own = ownedD [OF assms(1)]
  show ?thesis
  proof (cases "lc_agent ch")
    case None
    then have "held_ref (lc_variables ch) = None" "held_ref (lc_init_table ch) = None" "held_ref (lc_call ch) = None"
      using agent_first_chart [OF own(8) ch] by simp_all
    then have "(var_slots s)((c, False) := None, (c, True) := None) = var_slots s" "(func_slots s)(Inl c := None) = func_slots s"
      using slots_same(3,4) [OF ch] by simp_all
    with None own ch assms(2) show ?thesis
      by (auto simp: delete_LuaChart_def lua_owned_def slots_delete agent_first_delete)
  next
    case (Some a)
    with assms(2) ch obtain s1 where s1: "LuaChart_ClearVariables c s = Some s1"
      by (auto simp: delete_LuaChart_def elim!: bind_SomeE)
    note own1 = ownedD [OF ClearVariables_owned [OF assms(1) s1]]
    note ch1 = ClearVariables_chart [OF s1 ch]
    define s2 where "s2 = (if lc_call ch \<noteq> LUA_NOREF then s1\<lparr>ls_funcs := luaL_unref (lc_call ch) (ls_funcs s1)\<rparr> else s1)"
    define s3 where "s3 = (if lc_init_table ch \<noteq> LUA_NOREF then s2\<lparr>ls_vars := luaL_unref (lc_init_table ch) (ls_vars s2)\<rparr> else s2)"
    have s': "s' = s3\<lparr>ls_charts := (ls_charts s3)(c := None)\<rparr>"
      using assms(2) ch s1 Some by (simp add: delete_LuaChart_def s2_def s3_def Let_def split: if_splits)
    have funcs: "table_ok pick (ls_funcs s2) \<and> owns ((func_slots s1)(Inl c := None)) (used (ls_funcs s2))"
      using lr.give_owned [OF own1(3,4), of "Inl c" "lc_call ch"] own1(3,4) slot_of(3) [OF ch1]
      by (auto simp: s2_def fun_upd_idem)
    have vars: "table_ok pick (ls_vars s3) \<and> owns ((var_slots s1)((c, True) := None)) (used (ls_vars s3))"
      using lr.give_owned [OF own1(1,2), of "(c, True)" "lc_init_table ch"] own1(1,2) slot_of(2) [OF ch1]
      by (auto simp: s2_def s3_def fun_upd_idem)
    have same: "ls_charts s3 = ls_charts s1" "ls_funcs s3 = ls_funcs s2" "ls_objs s3 = ls_objs s1"
      "ls_agents s3 = ls_agents s1" "ls_registry s3 = ls_registry s1" "var_slots s3 = var_slots s1"
      "func_slots s3 = func_slots s1" "agent_first s3 = agent_first s1"
      by (simp_all add: s2_def s3_def)
    have "(var_slots s1)((c, False) := None) = var_slots s1" using slot_of(1) [OF ch1] by (simp add: fun_upd_idem)
    moreover have "var_slots s' = (var_slots s1)((c, False) := None, (c, True) := None)"
      "func_slots s' = (func_slots s1)(Inl c := None)" "agent_first s'"
      using slots_delete [of s3 c] agent_first_delete [of s3 c] own1(8) by (simp_all add: s' same)
    ultimately show ?thesis using funcs vars own1 by (simp add: lua_owned_def) (simp add: s' same)
  qed
qed

section \<open>Reachable states\<close>

lemma step_owned:
  assumes "lua_step pick s s'" "lua_owned pick s"
  shows "lua_owned pick s'"
  using assms
  by (cases rule: lua_step.cases)
    (rule LuaChart_owned SetAgent_owned SetVar_owned ClearVariables_owned ResetVariables_owned SetArgs_owned
        SetInitTable_owned chart_set_callback_owned InvokeCallback_owned delete_LuaChart_owned LuaAgent_owned
        delete_LuaAgent_owned GetFunctionByName_owned, assumption, assumption
     | simp)+

lemma reachable_owned:
  assumes "lua_reachable pick s" "ref_lib pick"
  shows "lua_owned pick s"
  using assms by (induction rule: lua_reachable.induct) (auto intro: new_owned step_owned)

end
