(* ===== verification/Lua_Params.thy ===== *)
theory Lua_Params
  imports Lua_Props
begin

text \<open>
  The variables of a chart of the Lua binding: writing and reading them, and the parameters given to
  \<open>attach\<close>, from the table of the script through the registry to the variables the chart starts with.
\<close>

section \<open>Parameters by name\<close>

text \<open>The entries of the table that name a parameter, and the value the last of them gives.\<close>

definition named_entries :: "chart_data \<Rightarrow> (val \<times> val) list \<Rightarrow> (string \<times> val) list" where
  "named_entries d es = List.map_filter (\<lambda>(k, v). case param_of_key d k of Some (Some name) \<Rightarrow> Some (name, v) | _ \<Rightarrow> None) es"

definition given_value :: "chart_data \<Rightarrow> (val \<times> val) list \<Rightarrow> string \<Rightarrow> val" where
  "given_value d es name = (case map_of (rev (named_entries d es)) name of None \<Rightarrow> VNone | Some v \<Rightarrow> v)"

definition stored :: "(string \<times> int) list \<Rightarrow> val ref_table \<Rightarrow> string \<rightharpoonup> val" where
  "stored dict reg = (\<lambda>name. do { r \<leftarrow> map_of dict name; ref_get r reg })"

text \<open>The references of the map: in use, taken since the registry was \<open>R\<close>, and none twice.\<close>

definition dict_refs :: "int set \<Rightarrow> (string \<times> int) list \<Rightarrow> val ref_table \<Rightarrow> bool" where
  "dict_refs R dict reg \<longleftrightarrow> distinct (map fst dict) \<and> distinct (map snd dict) \<and> snd ` set dict \<subseteq> used reg - R"

lemma named_entries_simps [simp]:
  "named_entries d [] = []"
  "named_entries d ((k, v) # es) =
     (case param_of_key d k of Some (Some name) \<Rightarrow> (name, v) # named_entries d es | _ \<Rightarrow> named_entries d es)"
  by (simp_all add: named_entries_def List.map_filter_simps split: option.splits)

lemma map_snd_update:
  "distinct (map fst al) \<Longrightarrow> snd ` set (AList.update k v al) = insert v (snd ` {x \<in> set al. fst x \<noteq> k})"
  by (induction al) (auto simp: image_iff, force+)

lemma distinct_snd_update:
  assumes "distinct (map fst al)" "distinct (map snd al)" "v \<notin> snd ` set al"
  shows "distinct (map snd (AList.update k v al))"
  using assms by (induction al) (auto simp: map_snd_update rev_image_eqI)

lemma finite_used [simp]: "finite (used t)"
proof -
  have "finite (live h)" for h by (induction h) (auto split: ref_op.split)
  then show ?thesis by (simp add: used_def)
qed

lemma collect_one:
  assumes "collect_param pick d (k, v) (dict, reg) = Some (dict', reg')" "table_ok pick reg" "dict_refs R dict reg"
    and "R \<subseteq> used reg"
  shows "table_ok pick reg' \<and> dict_refs R dict' reg' \<and> R \<subseteq> used reg'
    \<and> stored dict' reg' = stored dict reg ++ map_of (rev (named_entries d [(k, v)]))
    \<and> card (used reg' - R) = card (used reg - R) + length (named_entries d [(k, v)])
    \<and> fst ` set dict' = fst ` set dict \<union> fst ` set (named_entries d [(k, v)])"
proof -
  from assms(1) obtain name where name: "param_of_key d k = Some name"
    and rest: "(case name of None \<Rightarrow> Some (dict, reg)
      | Some n \<Rightarrow> (case luaL_ref pick v reg of (r, reg) \<Rightarrow> Some (AList.update n r dict, reg))) = Some (dict', reg')"
    by (auto simp: collect_param_def elim!: bind_SomeE)
  show ?thesis
  proof (cases name)
    case None
    with rest name assms(2-4) show ?thesis by simp
  next
    case (Some n)
    obtain r where r: "luaL_ref pick v reg = (r, reg')" and dict': "dict' = AList.update n r dict"
      using rest Some by (auto split: prod.splits)
    note take = lr.take_law [OF assms(2) r]
    have fresh: "r \<notin> snd ` set dict" using take assms(3) by (auto simp: dict_refs_def)
    have refs: "dict_refs R dict' reg'"
      using assms(3,4) take fresh
      by (auto simp: dict_refs_def dict' distinct_update distinct_snd_update map_snd_update)
    have "stored dict' reg' = stored dict reg ++ [n \<mapsto> v]"
    proof
      fix m
      have "\<And>r'. map_of dict m = Some r' \<Longrightarrow> r' \<noteq> r"
        using fresh by (metis map_of_SomeD snd_conv rev_image_eqI)
      then show "stored dict' reg' m = (stored dict reg ++ [n \<mapsto> v]) m"
        using take by (cases "map_of dict m") (auto simp: stored_def dict' update_conv' map_add_def)
    qed
    moreover have "used reg' - R = insert r (used reg - R)" "r \<notin> used reg - R" using take assms(4) by auto
    ultimately show ?thesis
      using take refs assms(4) by (auto simp: name Some dict' dom_update card_insert_if)
  qed
qed

lemma named_entries_Cons: "named_entries d (e # es) = named_entries d [e] @ named_entries d es"
  by (cases e) (simp split: option.split)

lemma collect_all:
  assumes "foldM (collect_param pick d) es (dict, reg) = Some (dict', reg')" "table_ok pick reg"
    and "dict_refs R dict reg" "R \<subseteq> used reg"
  shows "table_ok pick reg' \<and> dict_refs R dict' reg' \<and> R \<subseteq> used reg'
    \<and> stored dict' reg' = stored dict reg ++ map_of (rev (named_entries d es))
    \<and> card (used reg' - R) = card (used reg - R) + length (named_entries d es)
    \<and> fst ` set dict' = fst ` set dict \<union> fst ` set (named_entries d es)"
  using assms
proof (induction es arbitrary: dict reg)
  case Nil
  then show ?case by simp
next
  case (Cons e es)
  obtain k v where e: "e = (k, v)" by fastforce
  from Cons.prems(1) obtain dict1 reg1 where one: "collect_param pick d (k, v) (dict, reg) = Some (dict1, reg1)"
    and rest: "foldM (collect_param pick d) es (dict1, reg1) = Some (dict', reg')"
    by (auto simp: e elim!: bind_SomeE)
  note c1 = collect_one [OF one Cons.prems(2-4)]
  from Cons.IH [OF rest] c1 show ?case
    by (simp add: e named_entries_Cons [of d "(k, v)" es] Un_assoc image_Un del: named_entries_simps(2))
qed

lemma used_unref: "table_ok pick t \<Longrightarrow> used (luaL_unref r t) = used t - {r}"
  by (auto simp: table_ok_def luaL_unref_def used_def)

lemma used_unref_all:
  "table_ok pick reg \<Longrightarrow> used (foldl (\<lambda>reg (_, r). luaL_unref r reg) reg rs) = used reg - snd ` set rs"
  by (induction rs arbitrary: reg) (auto simp: unref_ok used_unref, metis snd_conv rev_image_eqI)

lemma fill_table:
  assumes "foldM (\<lambda>i t. if i \<ge> n then None else case f i of None \<Rightarrow> Some t | Some r \<Rightarrow> Some (t(int i + 1 := g r)))
    [0..<k] empty_table = Some t"
  shows "t (int i + 1) = (if i < k then (case f i of None \<Rightarrow> VNone | Some r \<Rightarrow> g r) else VNone)"
  using assms
proof (induction k arbitrary: t i)
  case 0
  then show ?case by (auto simp: empty_table_def)
next
  case (Suc k)
  from Suc.prems obtain u where u: "foldM (\<lambda>i t. if i \<ge> n then None else case f i of None \<Rightarrow> Some t
      | Some r \<Rightarrow> Some (t(int i + 1 := g r))) [0..<k] empty_table = Some u"
    and t: "k < n" "t = (case f k of None \<Rightarrow> u | Some r \<Rightarrow> u(int k + 1 := g r))"
    by (auto simp: foldM_append elim!: bind_SomeE split: if_splits option.splits)
  from Suc.IH [OF u, of i] Suc.IH [OF u, of k] show ?case
    by (auto simp: t(2) less_Suc_eq split: option.splits)
qed

lemma SetArgsFromDict_spec:
  assumes "LuaChart_SetArgsFromDict pick es d reg = Some (t, reg')" "table_ok pick reg"
  shows "i < params_count d \<Longrightarrow> t (int i + 1) = given_value d es (param_name (variables d ! i))"
    and "used reg \<subseteq> used reg'"
    and "card (used reg' - used reg) + card (fst ` set (named_entries d es)) = length (named_entries d es)"
proof -
  from assms(1) obtain dict reg1 where fold: "foldM (collect_param pick d) es ([], reg) = Some (dict, reg1)"
    and t: "foldM (\<lambda>i t. if i \<ge> length (variables d) then None
        else case map_of dict (param_name (variables d ! i)) of None \<Rightarrow> Some t
          | Some r \<Rightarrow> Some (t(int i + 1 := case ref_get r reg1 of None \<Rightarrow> VNone | Some v \<Rightarrow> v)))
      [0..<params_count d] empty_table = Some t"
    and reg': "reg' = foldl (\<lambda>reg (_, r). luaL_unref r reg) reg1 (sort_key fst dict)"
    by (auto simp: LuaChart_SetArgsFromDict_def elim!: bind_SomeE)
  have all: "table_ok pick reg1" "dict_refs (used reg) dict reg1" "used reg \<subseteq> used reg1"
    "stored dict reg1 = map_of (rev (named_entries d es))"
    "card (used reg1 - used reg) = length (named_entries d es)"
    "fst ` set dict = fst ` set (named_entries d es)"
    using collect_all [OF fold assms(2), of "used reg"] by (simp_all add: dict_refs_def stored_def map_add_def fun_eq_iff)
  show "i < params_count d \<Longrightarrow> t (int i + 1) = given_value d es (param_name (variables d ! i))"
    using fill_table [OF t, of i] fun_cong [OF all(4), of "param_name (variables d ! i)"]
    by (auto simp: given_value_def stored_def split: option.splits)
  have reg'_used: "used reg' = used reg1 - snd ` set dict" unfolding reg' used_unref_all [OF all(1)] by simp
  show "used reg \<subseteq> used reg'" using all(2,3) by (auto simp: reg'_used dict_refs_def)
  have "card (snd ` set dict) = card (fst ` set dict)"
    using all(2) unfolding dict_refs_def by (metis distinct_card length_map list.set_map)
  moreover have "used reg' - used reg = (used reg1 - used reg) - snd ` set dict" by (auto simp: reg'_used)
  moreover have "snd ` set dict \<subseteq> used reg1 - used reg" using all(2) by (simp add: dict_refs_def)
  ultimately show "card (used reg' - used reg) + card (fst ` set (named_entries d es)) = length (named_entries d es)"
    using all(5,6) card_mono [of "used reg1 - used reg" "snd ` set dict"] by (simp add: card_Diff_subset)
qed

section \<open>Variables\<close>

lemma GetVar_table:
  assumes "ls_charts s c = Some ch" "lc_agent ch = Some a" "ref_get (lc_variables ch) (ls_vars s) = Some t"
  shows "LuaChart_GetVar i c s = Some (if i + 1 > int (variable_count (lc_data ch)) then VNone else t (i + 1))"
  using assms by (simp add: LuaChart_GetVar_def)

lemma ResetVariables_table:
  assumes "LuaChart_ResetVariables pick c s = Some s'" "ls_charts s c = Some ch" "lua_owned pick s"
  obtains ch' a t where "ls_charts s' c = Some ch'" "lc_data ch' = lc_data ch" "lc_agent ch' = Some a"
    "ref_get (lc_variables ch') (ls_vars s') = Some t" "initial_variables ch s = Some t"
proof -
  from assms(1) obtain s1 where s1: "LuaChart_ClearVariables c s = Some s1" "LuaChart_InitArgs pick c s1 = Some s'"
    by (auto simp: LuaChart_ResetVariables_def elim!: bind_SomeE)
  note ch1 = ClearVariables_chart [OF s1(1) assms(2)]
  note own1 = ClearVariables_owned [OF assms(3) s1(1)]
  from s1(2) ch1 obtain a t r vars where a: "lc_agent ch = Some a"
    and t: "initial_variables (ch\<lparr>lc_variables := LUA_NOREF\<rparr>) s1 = Some t"
    and vars: "luaL_ref pick t (ls_vars s1) = (r, vars)"
    and s': "s' = put_chart c (ch\<lparr>lc_variables := r\<rparr>) (s1\<lparr>ls_vars := vars\<rparr>)"
    by (auto simp: LuaChart_InitArgs_def elim!: bind_SomeE split: prod.splits)
  have "initial_variables ch s = Some t"
  proof (cases "lc_init_table ch = LUA_NOREF \<or> lc_variables ch = LUA_NOREF")
    case True
    with t s1(1) assms(2) show ?thesis
      by (auto simp: initial_variables_def LuaChart_ClearVariables_def elim!: bind_SomeE split: if_splits)
  next
    case False
    then have "var_slots s (c, False) = Some (lc_variables ch)" "var_slots s (c, True) = Some (lc_init_table ch)"
      using slot_of [OF assms(2)] by simp_all
    from lr.others_kept(2) [OF ownedD(1,2) [OF assms(3)] this]
    have "ref_get (lc_init_table ch) (luaL_unref (lc_variables ch) (ls_vars s)) = ref_get (lc_init_table ch) (ls_vars s)"
      by simp
    with False t s1(1) assms(2) show ?thesis
      by (auto simp: initial_variables_def LuaChart_ClearVariables_def elim!: bind_SomeE)
  qed
  moreover have "ref_get r vars = Some t" using lr.take_law [OF ownedD(1) [OF own1] vars, of r] by simp
  ultimately show thesis by (intro that [of "ch\<lparr>lc_variables := r\<rparr>" a t]) (simp_all add: s' a)
qed

text \<open>C18. A variable that is written keeps its value, and no variable of another chart changes. Only the
  upper end of the index is checked, so that the index -1 of a name the chart does not know reads and
  writes one value that all these names share.\<close>

lemma lua_variables_isolated:
  assumes "ref_lib pick" "lua_reachable pick s" "LuaChart_SetVar v i c s = Some s'" "ls_charts s c = Some ch"
  shows "LuaChart_GetVar j c' s' =
    (if c' = c \<and> j = i \<and> i < int (variable_count (lc_data ch)) then Some v else LuaChart_GetVar j c' s)"
proof (cases "i < int (variable_count (lc_data ch))")
  case False
  with assms(3,4) show ?thesis by (simp add: LuaChart_SetVar_def)
next
  case True
  with assms(3,4) obtain a t where a: "lc_agent ch = Some a" and t: "ref_get (lc_variables ch) (ls_vars s) = Some t"
    and s': "s' = s\<lparr>ls_vars := ref_put (lc_variables ch) (t(i + 1 := v)) (ls_vars s)\<rparr>"
    by (auto simp: LuaChart_SetVar_def elim!: bind_SomeE)
  note own = ownedD [OF reachable_owned [OF assms(2,1)]]
  note put = lr.put_law [OF own(1) used_of_get [OF own(1) t]]
  show ?thesis
  proof (cases "c' = c")
    case True
    with \<open>i < _\<close> a t assms(4) put show ?thesis by (simp add: LuaChart_GetVar_def s')
  next
    case False
    have "ref_get (lc_variables ch') (ref_put (lc_variables ch) u (ls_vars s)) = ref_get (lc_variables ch') (ls_vars s)"
      if "ls_charts s c' = Some ch'" for ch' u
    proof -
      have "lc_variables ch \<noteq> LUA_NOREF" using used_of_get [OF own(1) t] own(1) by (auto simp: table_ok_def)
      with slot_of(1) [OF assms(4)] slot_of(1) [OF that] owns_holder [OF own(2), of "(c, False)" _ "(c', False)"] False
      have "lc_variables ch' \<noteq> lc_variables ch" by auto
      with put show ?thesis by simp
    qed
    with False show ?thesis by (cases "ls_charts s c'") (simp_all add: LuaChart_GetVar_def s')
  qed
qed

lemma SetInitTable_table:
  assumes "LuaChart_SetInitTable pick es c s = Some s'" "ls_charts s c = Some ch" "lua_owned pick s"
  obtains ch' t where "ls_charts s' c = Some ch'" "lc_data ch' = lc_data ch" "lc_init_table ch' \<noteq> LUA_NOREF"
    "ref_get (lc_init_table ch') (ls_vars s') = Some t"
    "LuaChart_SetArgsFromDict pick es (lc_data ch) (ls_registry s) = Some (t, ls_registry s')"
proof -
  from assms(1,2) obtain t reg r vars0 vars
    where vars0: "vars0 = (if lc_init_table ch \<noteq> LUA_NOREF then luaL_unref (lc_init_table ch) (ls_vars s) else ls_vars s)"
    and reg: "LuaChart_SetArgsFromDict pick es (lc_data ch) (ls_registry s) = Some (t, reg)"
    and vars: "luaL_ref pick t vars0 = (r, vars)"
    and s': "s' = put_chart c (ch\<lparr>lc_init_table := r\<rparr>) (s\<lparr>ls_vars := vars, ls_registry := reg\<rparr>)"
    by (auto simp: LuaChart_SetInitTable_def Let_def elim!: bind_SomeE split: prod.splits)
  have "table_ok pick vars0" using ownedD(1) [OF assms(3)] by (simp add: vars0 unref_ok)
  from lr.take_law [OF this vars, of r] show thesis
    by (intro that [of "ch\<lparr>lc_init_table := r\<rparr>" t]) (simp_all add: s' reg)
qed

text \<open>C17. The parameters given when a chart is attached are what its variables hold whenever it starts:
  for each parameter the last entry of the table that names it, by name or by position; the other
  variables are \<open>nil\<close>.\<close>

lemma attached_parameters:
  assumes "ref_lib pick" "lua_reachable pick s" "ls_charts s c = Some ch"
    and "LuaChart_SetInitTable pick es c s = Some s1" "LuaChart_ResetVariables pick c s1 = Some s2"
    and "i < variable_count (lc_data ch)"
  shows "LuaChart_GetVar (int i) c s2 = Some (if i < params_count (lc_data ch)
    then given_value (lc_data ch) es (param_name (variables (lc_data ch) ! i)) else VNone)"
proof -
  note own = reachable_owned [OF assms(2,1)]
  obtain ch1 t where ch1: "ls_charts s1 c = Some ch1" "lc_data ch1 = lc_data ch" "lc_init_table ch1 \<noteq> LUA_NOREF"
    and t: "ref_get (lc_init_table ch1) (ls_vars s1) = Some t"
    and dict: "LuaChart_SetArgsFromDict pick es (lc_data ch) (ls_registry s) = Some (t, ls_registry s1)"
    by (rule SetInitTable_table [OF assms(4,3) own])
  obtain ch2 a u where ch2: "ls_charts s2 c = Some ch2" "lc_data ch2 = lc_data ch1" "lc_agent ch2 = Some a"
    and u: "ref_get (lc_variables ch2) (ls_vars s2) = Some u" "initial_variables ch1 s1 = Some u"
    by (rule ResetVariables_table [OF assms(5) ch1(1) SetInitTable_owned [OF own assms(4)]])
  from u(2) ch1 t have "u = (\<lambda>i. if 1 \<le> i \<and> i \<le> int (params_count (lc_data ch)) then t i else VNone)"
    by (simp add: initial_variables_def)
  with GetVar_table [OF ch2(1,3) u(1), of "int i"] SetArgsFromDict_spec(1) [OF dict ownedD(7) [OF own], of i] assms(6) ch1(2) ch2(2)
  show ?thesis by simp
qed

text \<open>C20. Attaching a chart keeps one reference in the registry for every entry of the table that names
  a parameter again: the map from names has room for the latest one, and the others are never given
  back.\<close>

lemma attach_leaks:
  assumes "ref_lib pick" "lua_reachable pick s" "ls_charts s c = Some ch"
    and "LuaChart_SetInitTable pick es c s = Some s'"
  shows "used (ls_registry s) \<subseteq> used (ls_registry s') \<and>
    card (used (ls_registry s') - used (ls_registry s)) + card (fst ` set (named_entries (lc_data ch) es))
      = length (named_entries (lc_data ch) es)"
proof -
  note own = reachable_owned [OF assms(2,1)]
  obtain t where "LuaChart_SetArgsFromDict pick es (lc_data ch) (ls_registry s) = Some (t, ls_registry s')"
    by (rule SetInitTable_table [OF assms(4,3) own])
  from SetArgsFromDict_spec(2,3) [OF this ownedD(7) [OF own]] show ?thesis by blast
qed


end
