(* ===== verification/Bindings.thy ===== *)
theory Bindings
  imports Js_Props Lua_Params
begin

text \<open>
  The variables of a chart in the three bindings: arrays of objects in Python (\<open>src/py/py_chart.cpp\<close>),
  tables behind references in Lua (\<open>src/lua/lua_chart.cpp\<close>) and numbers of values in JavaScript
  (\<open>src/js/js_chart.cpp\<close>). What the engine and the scripts rely on is an interface; each binding
  provides it, and the same operations give the same variables in all of them.
\<close>

section \<open>The interface\<close>

text \<open>What is done to the variables of a chart: one is written, the arguments of a subchart are handed
  over, the chart is started.\<close>

datatype 'v var_op = Assign nat 'v | Arguments "'v list" | Restart

definition overwrite :: "nat \<Rightarrow> 'v list \<Rightarrow> 'v list \<Rightarrow> 'v list" where
  "overwrite k args vs = map (\<lambda>i. if i < min k (length args) then args ! i else vs ! i) [0..<length vs]"

lemma overwrite_sel [simp]:
  "length (overwrite k args vs) = length vs"
  "i < length vs \<Longrightarrow> overwrite k args vs ! i = (if i < k \<and> i < length args then args ! i else vs ! i)"
  by (simp_all add: overwrite_def)

lemma overwrite_Suc:
  assumes "k < length args" "k < length vs"
  shows "(overwrite k args vs)[k := args ! k] = overwrite (Suc k) args vs"
proof (rule nth_equalityI)
  fix i
  assume "i < length ((overwrite k args vs)[k := args ! k])"
  with assms show "(overwrite k args vs)[k := args ! k] ! i = overwrite (Suc k) args vs ! i"
    by (cases "i = k") (simp_all add: less_Suc_eq)
qed simp

lemma overwrite_0 [simp]: "overwrite 0 args vs = vs"
  by (intro nth_equalityI) simp_all

fun spec_op :: "nat \<Rightarrow> nat \<Rightarrow> 'v \<Rightarrow> 'v var_op \<Rightarrow> 'v list \<Rightarrow> 'v list" where
  "spec_op n k nothing (Assign i v) vs = vs[i := v]"
| "spec_op n k nothing (Arguments args) vs = overwrite k args vs"
| "spec_op n k nothing Restart vs = replicate n nothing"

fun run_op ::
  "(nat \<Rightarrow> 'v \<Rightarrow> 's \<Rightarrow> 's option) \<Rightarrow> ('v list \<Rightarrow> 's \<Rightarrow> 's option) \<Rightarrow> ('s \<Rightarrow> 's option) \<Rightarrow> 'v var_op \<Rightarrow> 's \<Rightarrow> 's option" where
  "run_op assign arguments restart (Assign i v) = assign i v"
| "run_op assign arguments restart (Arguments args) = arguments args"
| "run_op assign arguments restart Restart = restart"

fun in_range :: "nat \<Rightarrow> 'v var_op \<Rightarrow> bool" where
  "in_range n (Assign i v) = (i < n)"
| "in_range n _ = True"

text \<open>\<open>view\<close> gives the variables of a chart that was started.\<close>

locale variable_array =
  fixes ready :: "'s \<Rightarrow> bool"
    and view :: "'s \<Rightarrow> 'v list option"
    and assign :: "nat \<Rightarrow> 'v \<Rightarrow> 's \<Rightarrow> 's option"
    and n :: nat
  assumes view_law: "ready s \<Longrightarrow> view s = Some vs \<Longrightarrow> length vs = n"
    and assign_law: "ready s \<Longrightarrow> view s = Some vs \<Longrightarrow> i < n \<Longrightarrow>
      \<exists>s'. assign i v s = Some s' \<and> ready s' \<and> view s' = Some (vs[i := v])"
begin

text \<open>The loop by which Python and JavaScript hand arguments over.\<close>

lemma assign_upto:
  assumes "ready s" "view s = Some vs" "m \<le> n" "m \<le> length args"
  shows "\<exists>s'. foldM (\<lambda>i. assign i (args ! i)) [0..<m] s = Some s' \<and> ready s' \<and> view s' = Some (overwrite m args vs)"
  using assms(3,4)
proof (induction m)
  case 0
  with assms show ?case by simp
next
  case (Suc m)
  then obtain s1 where s1: "foldM (\<lambda>i. assign i (args ! i)) [0..<m] s = Some s1" "ready s1"
    "view s1 = Some (overwrite m args vs)" by auto
  with assign_law [OF s1(2,3), of m "args ! m"] overwrite_Suc [of m args vs] Suc.prems view_law [OF assms(1,2)]
  show ?case by (auto simp: foldM_append)
qed

lemma assign_arguments:
  assumes "ready s" "view s = Some vs"
  shows "\<exists>s'. foldM (\<lambda>i. assign i (args ! i)) [0..<min n (length args)] s = Some s' \<and> ready s'
    \<and> view s' = Some (overwrite n args vs)"
proof -
  have "overwrite (min n (length args)) args vs = overwrite n args vs" by (intro nth_equalityI) auto
  with assign_upto [OF assms, of "min n (length args)" args] show ?thesis by simp
qed

end

text \<open>Of the arguments of a subchart the first \<open>k\<close> are used.\<close>

locale variable_store = variable_array ready view assign n
  for ready :: "'s \<Rightarrow> bool" and view :: "'s \<Rightarrow> 'v list option" and assign :: "nat \<Rightarrow> 'v \<Rightarrow> 's \<Rightarrow> 's option" and n :: nat +
  fixes arguments :: "'v list \<Rightarrow> 's \<Rightarrow> 's option"
    and restart :: "'s \<Rightarrow> 's option"
    and read :: "nat \<Rightarrow> 's \<Rightarrow> 'v option"
    and k :: nat
    and nothing :: 'v
  assumes read_law: "ready s \<Longrightarrow> view s = Some vs \<Longrightarrow> i < n \<Longrightarrow> read i s = Some (vs ! i)"
    and arguments_law: "ready s \<Longrightarrow> view s = Some vs \<Longrightarrow>
      \<exists>s'. arguments args s = Some s' \<and> ready s' \<and> view s' = Some (overwrite k args vs)"
    and restart_law: "ready s \<Longrightarrow> \<exists>s'. restart s = Some s' \<and> ready s' \<and> view s' = Some (replicate n nothing)"
begin

lemma refines_one:
  assumes "ready s" "view s = Some vs" "in_range n x"
  shows "\<exists>s'. run_op assign arguments restart x s = Some s' \<and> ready s' \<and> view s' = Some (spec_op n k nothing x vs)"
  using assms assign_law arguments_law restart_law by (cases x) auto

lemma refines_all:
  assumes "ready s" "view s = Some vs" "\<forall>x \<in> set xs. in_range n x"
  shows "\<exists>s'. foldM (run_op assign arguments restart) xs s = Some s' \<and> ready s'
    \<and> view s' = Some (fold (spec_op n k nothing) xs vs)"
  using assms
proof (induction xs arbitrary: s vs)
  case (Cons x xs)
  from refines_one [OF Cons.prems(1,2)] Cons.prems(3) obtain s1
    where "run_op assign arguments restart x s = Some s1" "ready s1" "view s1 = Some (spec_op n k nothing x vs)" by auto
  with Cons.IH [of s1 "spec_op n k nothing x vs"] Cons.prems(3) show ?case by simp
qed simp

text \<open>A chart that is started and then used as a list of operations says reads what the operations on
  the list of its variables give.\<close>

lemma refines:
  assumes "ready s" "\<forall>x \<in> set xs. in_range n x"
  shows "\<exists>s'. foldM (run_op assign arguments restart) (Restart # xs) s = Some s'
    \<and> (\<forall>i<n. read i s' = Some (fold (spec_op n k nothing) (Restart # xs) [] ! i))"
proof -
  from restart_law [OF assms(1)] obtain s1
    where s1: "restart s = Some s1" "ready s1" "view s1 = Some (replicate n nothing)" by blast
  from refines_all [OF s1(2,3) assms(2)] obtain s2 where "foldM (run_op assign arguments restart) xs s1 = Some s2"
    "ready s2" "view s2 = Some (fold (spec_op n k nothing) xs (replicate n nothing))" by blast
  with read_law s1(1) show ?thesis by auto
qed

end

section \<open>Python\<close>

definition py_ready :: "nat \<Rightarrow> chart_data \<Rightarrow> 'e world \<Rightarrow> bool" where
  "py_ready c d w \<longleftrightarrow> (\<exists>ch. w_charts w c = Some ch \<and> w_datas w (chart_data_ptr ch) = Some d \<and> py_init_table ch = None
     \<and> (case py_variables ch of None \<Rightarrow> True | Some vs \<Rightarrow> length vs = variable_count d))"

definition py_view :: "nat \<Rightarrow> 'e world \<Rightarrow> val list option" where
  "py_view c w = do { ch \<leftarrow> w_charts w c; py_variables ch }"

definition py_assign :: "nat \<Rightarrow> nat \<Rightarrow> val \<Rightarrow> 'e world \<Rightarrow> 'e world option" where
  "py_assign c i v w = map_option snd (SetVar (int i) v c w)"

lemma py_count: "py_ready c d w \<Longrightarrow> GetVarCount c w = Some (variable_count d)"
  by (auto simp: py_ready_def GetVarCount_def chart_data_of_def)

lemma py_put:
  assumes "py_ready c d w" "length vs = variable_count d" "w_charts w c = Some ch"
  shows "py_ready c d (w\<lparr>w_charts := (w_charts w)(c \<mapsto> ch\<lparr>py_variables := Some vs\<rparr>)\<rparr>)"
    "py_view c (w\<lparr>w_charts := (w_charts w)(c \<mapsto> ch\<lparr>py_variables := Some vs\<rparr>)\<rparr>) = Some vs"
  using assms by (auto simp: py_ready_def py_view_def)

interpretation py_array: variable_array "py_ready c d" "py_view c" "py_assign c" "variable_count d"
  for c d
proof
  fix w :: "'e world" and vs i v
  assume ready: "py_ready c d w" and view: "py_view c w = Some vs"
  then obtain ch where ch: "w_charts w c = Some ch" "py_variables ch = Some vs" "length vs = variable_count d"
    by (auto simp: py_ready_def py_view_def)
  show "length vs = variable_count d" by (rule ch(3))
  assume "i < variable_count d"
  with ch have "py_assign c i v w = Some (w\<lparr>w_charts := (w_charts w)(c \<mapsto> ch\<lparr>py_variables := Some (vs[i := v])\<rparr>)\<rparr>)"
    by (simp add: py_assign_def SetVar_def py_count [OF ready] upd_chart_def)
  with py_put [OF ready, of "vs[i := v]" ch] ch
  show "\<exists>w'. py_assign c i v w = Some w' \<and> py_ready c d w' \<and> py_view c w' = Some (vs[i := v])" by simp
qed

interpretation py_store: variable_store "py_ready c d" "py_view c" "py_assign c" "variable_count d"
    "\<lambda>args. SetArgs args c" "ResetVariables H c" "\<lambda>i. GetVar (int i) c" "variable_count d" VNone
  for c d and H :: "'e host"
proof
  fix w :: "'e world" and vs i args
  assume ready: "py_ready c d w"
  then obtain ch where ch: "w_charts w c = Some ch" "py_init_table ch = None"
    "case py_variables ch of None \<Rightarrow> True | Some vs \<Rightarrow> length vs = variable_count d" by (auto simp: py_ready_def)
  define w' where "w' = w\<lparr>w_charts := (w_charts w)(c \<mapsto> ch\<lparr>py_variables := Some (replicate (variable_count d) VNone)\<rparr>)\<rparr>"
  have "InitArgs c w = Some w'"
    using ch by (auto simp: InitArgs_def py_count [OF ready] none_upto_def upd_chart_def w'_def split: option.splits)
  then have "ResetVariables H c w = Some w'" using ch(2) by (simp add: ResetVariables_def w'_def)
  with py_put [OF ready _ ch(1), of "replicate (variable_count d) VNone"]
  show "\<exists>w'. ResetVariables H c w = Some w' \<and> py_ready c d w' \<and> py_view c w' = Some (replicate (variable_count d) VNone)"
    by (simp add: w'_def)
  assume view: "py_view c w = Some vs"
  show "\<exists>w'. SetArgs args c w = Some w' \<and> py_ready c d w' \<and> py_view c w' = Some (overwrite (variable_count d) args vs)"
    using py_array.assign_arguments [OF ready view, of args]
    by (simp add: SetArgs_def py_count [OF ready] py_assign_def [abs_def])
  assume "i < variable_count d"
  with ch(1) view py_array.view_law [OF ready view] show "GetVar (int i) c w = Some (vs ! i)"
    by (simp add: GetVar_def py_count [OF ready] py_view_def)
qed

section \<open>Lua\<close>

text \<open>A chart to which no parameters were attached.\<close>

definition lua_ready :: "picker \<Rightarrow> nat \<Rightarrow> chart_data \<Rightarrow> lua_state \<Rightarrow> bool" where
  "lua_ready pick c d s \<longleftrightarrow> lua_owned pick s \<and> (\<exists>ch. ls_charts s c = Some ch \<and> lc_data ch = d \<and> lc_agent ch \<noteq> None
     \<and> lc_init_table ch = LUA_NOREF)"

definition lua_view :: "nat \<Rightarrow> lua_state \<Rightarrow> val list option" where
  "lua_view c s = do { ch \<leftarrow> ls_charts s c; t \<leftarrow> ref_get (lc_variables ch) (ls_vars s);
     Some (map (\<lambda>i. t (int i + 1)) [0..<variable_count (lc_data ch)]) }"

lemma lua_view_table:
  assumes "lua_ready pick c d s" "lua_view c s = Some vs"
  obtains ch t a where "ls_charts s c = Some ch" "lc_data ch = d" "lc_agent ch = Some a"
    "ref_get (lc_variables ch) (ls_vars s) = Some t" "vs = map (\<lambda>i. t (int i + 1)) [0..<variable_count d]"
  using assms by (auto simp: lua_ready_def lua_view_def elim!: bind_SomeE)

text \<open>Writing a new table of variables.\<close>

lemma lua_put:
  assumes "lua_ready pick c d s" "ls_charts s c = Some ch" "ref_get (lc_variables ch) (ls_vars s) = Some t"
    and "s' = s\<lparr>ls_vars := ref_put (lc_variables ch) u (ls_vars s)\<rparr>" "lua_owned pick s'"
  shows "lua_ready pick c d s'" "lua_view c s' = Some (map (\<lambda>i. u (int i + 1)) [0..<variable_count d])"
proof -
  note own = ownedD [of pick s]
  from assms(1) have "lua_owned pick s" by (simp add: lua_ready_def)
  from lr.put_law [OF own(1) [OF this] used_of_get [OF own(1) [OF this] assms(3)]]
  have "ref_get (lc_variables ch) (ref_put (lc_variables ch) u (ls_vars s)) = Some u" by simp
  with assms show "lua_ready pick c d s'" "lua_view c s' = Some (map (\<lambda>i. u (int i + 1)) [0..<variable_count d])"
    by (auto simp: lua_ready_def lua_view_def)
qed

definition lua_assign :: "nat \<Rightarrow> nat \<Rightarrow> val \<Rightarrow> lua_state \<Rightarrow> lua_state option" where
  "lua_assign c i v = LuaChart_SetVar v (int i) c"

lemma lua_restart_law:
  assumes "lua_ready pick c d s"
  shows "\<exists>s'. LuaChart_ResetVariables pick c s = Some s' \<and> lua_ready pick c d s'
    \<and> lua_view c s' = Some (replicate (variable_count d) VNone)"
proof -
  from assms obtain ch a where own: "lua_owned pick s" and ch: "ls_charts s c = Some ch" "lc_data ch = d"
    "lc_agent ch = Some a" "lc_init_table ch = LUA_NOREF" by (auto simp: lua_ready_def)
  obtain s1 where s1: "LuaChart_ClearVariables c s = Some s1"
    using ch by (cases "lc_variables ch = LUA_NOREF") (auto simp: LuaChart_ClearVariables_def)
  note ch1 = ClearVariables_chart [OF s1 ch(1)]
  obtain r vars where r: "luaL_ref pick empty_table (ls_vars s1) = (r, vars)" by fastforce
  define s' where "s' = put_chart c (ch\<lparr>lc_variables := r\<rparr>) (s1\<lparr>ls_vars := vars\<rparr>)"
  have reset: "LuaChart_ResetVariables pick c s = Some s'"
    using s1 ch1 ch(3,4) r by (simp add: LuaChart_ResetVariables_def LuaChart_InitArgs_def initial_variables_def s'_def)
  have "ref_get r vars = Some empty_table"
    using lr.take_law [OF ownedD(1) [OF ClearVariables_owned [OF own s1]] r, of r] by simp
  then have "lua_view c s' = Some (replicate (variable_count d) VNone)"
    using ch(2) by (simp add: lua_view_def s'_def empty_table_def map_replicate_const)
  moreover have "lua_ready pick c d s'"
    using ResetVariables_owned [OF own reset] ch by (simp add: lua_ready_def s'_def)
  ultimately show ?thesis using reset by blast
qed

interpretation lua_store: variable_store "lua_ready pick c d" "lua_view c" "lua_assign c" "variable_count d"
    "\<lambda>args. LuaChart_SetArgs args c" "LuaChart_ResetVariables pick c" "\<lambda>i. LuaChart_GetVar (int i) c" "params_count d" VNone
  for pick c d
proof
  fix s vs i v args
  assume ready: "lua_ready pick c d s"
  then have own: "lua_owned pick s" by (simp add: lua_ready_def)
  show "\<exists>s'. LuaChart_ResetVariables pick c s = Some s' \<and> lua_ready pick c d s'
    \<and> lua_view c s' = Some (replicate (variable_count d) VNone)" by (rule lua_restart_law [OF ready])
  assume "lua_view c s = Some vs"
  from lua_view_table [OF ready this] obtain ch t a where ch: "ls_charts s c = Some ch" "lc_data ch = d" "lc_agent ch = Some a"
    and t: "ref_get (lc_variables ch) (ls_vars s) = Some t" and vs: "vs = map (\<lambda>i. t (int i + 1)) [0..<variable_count d]" by blast
  show "length vs = variable_count d" by (simp add: vs)
  define s1 where "s1 = s\<lparr>ls_vars := ref_put (lc_variables ch) (write_args (params_count d) args t) (ls_vars s)\<rparr>"
  have run1: "LuaChart_SetArgs args c s = Some s1" using ch t by (simp add: LuaChart_SetArgs_def s1_def)
  have "overwrite (params_count d) args vs = map (\<lambda>i. write_args (params_count d) args t (int i + 1)) [0..<variable_count d]"
    by (intro nth_equalityI) (auto simp: vs write_args_def nat_add_distrib)
  with lua_put [OF ready ch(1) t s1_def SetArgs_owned [OF own run1]] run1
  show "\<exists>s'. LuaChart_SetArgs args c s = Some s' \<and> lua_ready pick c d s' \<and> lua_view c s' = Some (overwrite (params_count d) args vs)"
    by simp
  assume i: "i < variable_count d"
  show "LuaChart_GetVar (int i) c s = Some (vs ! i)"
    using GetVar_table [OF ch(1,3) t, of "int i"] ch(2) i by (simp add: vs)
  define s2 where "s2 = s\<lparr>ls_vars := ref_put (lc_variables ch) (t(int i + 1 := v)) (ls_vars s)\<rparr>"
  have run2: "LuaChart_SetVar v (int i) c s = Some s2" using ch t i by (simp add: LuaChart_SetVar_def s2_def)
  have "vs[i := v] = map (\<lambda>j. (t(int i + 1 := v)) (int j + 1)) [0..<variable_count d]"
    by (intro nth_equalityI) (auto simp: vs nth_list_update)
  with lua_put [OF ready ch(1) t s2_def SetVar_owned [OF own run2]] run2
  show "\<exists>s'. lua_assign c i v s = Some s' \<and> lua_ready pick c d s' \<and> lua_view c s' = Some (vs[i := v])"
    by (simp add: lua_assign_def)
qed

section \<open>JavaScript\<close>

definition js_ready :: "nat \<Rightarrow> chart_data \<Rightarrow> 'm js_state \<Rightarrow> bool" where
  "js_ready c d s \<longleftrightarrow> (\<exists>ch. js_charts s c = Some ch \<and> jc_data ch = d \<and> jc_agent ch \<noteq> None)"

definition js_view :: "nat \<Rightarrow> 'm js_state \<Rightarrow> int list option" where
  "js_view c s = do { ch \<leftarrow> js_charts s c;
     if length (jc_variables ch) = variable_count (jc_data ch) then Some (jc_variables ch) else None }"

definition js_assign :: "nat \<Rightarrow> nat \<Rightarrow> int \<Rightarrow> 'm js_state \<Rightarrow> 'm js_state option" where
  "js_assign c i r = JsChart_SetVar (int i) r c"

lemma js_view_chart:
  assumes "js_ready c d s" "js_view c s = Some vs"
  obtains ch a where "js_charts s c = Some ch" "jc_data ch = d" "jc_agent ch = Some a" "jc_variables ch = vs"
    "length vs = variable_count d"
  using assms by (auto simp: js_ready_def js_view_def split: if_splits elim!: bind_SomeE)

interpretation js_array: variable_array "js_ready c d" "js_view c" "js_assign c" "variable_count d"
  for c d
proof
  fix s :: "'m js_state" and vs i v
  assume "js_ready c d s" "js_view c s = Some vs"
  from js_view_chart [OF this] obtain ch a where ch: "js_charts s c = Some ch" "jc_data ch = d" "jc_agent ch = Some a"
    "jc_variables ch = vs" "length vs = variable_count d" by blast
  show "length vs = variable_count d" by (rule ch(5))
  assume "i < variable_count d"
  with ch show "\<exists>s'. js_assign c i v s = Some s' \<and> js_ready c d s' \<and> js_view c s' = Some (vs[i := v])"
    by (auto simp: js_assign_def JsChart_SetVar_def js_ready_def js_view_def)
qed

lemma js_restart_law:
  assumes "js_ready c d s"
  shows "\<exists>s'. JsChart_ResetVariables T c s = Some s' \<and> js_ready c d s' \<and> js_view c s' = Some (replicate (variable_count d) 0)"
proof -
  from assms obtain ch a where ch: "js_charts s c = Some ch" "jc_data ch = d" "jc_agent ch = Some a"
    by (auto simp: js_ready_def)
  then show ?thesis
    by (auto simp: JsChart_ResetVariables_def JsChart_ClearVariables_def JsChart_InitArgs_def JsDebugger_StartQuickDebug_def
        js_upd_debug_def Let_def js_ready_def js_view_def)
qed

interpretation js_store: variable_store "js_ready c d" "js_view c" "js_assign c" "variable_count d"
    "\<lambda>args. JsChart_SetArgs args c" "JsChart_ResetVariables T c" "\<lambda>i. JsChart_GetVar (int i) c" "variable_count d" 0
  for c d and T :: "'m js_texts"
proof
  fix s :: "'m js_state" and vs i args
  assume ready: "js_ready c d s"
  show "\<exists>s'. JsChart_ResetVariables T c s = Some s' \<and> js_ready c d s' \<and> js_view c s' = Some (replicate (variable_count d) 0)"
    by (rule js_restart_law [OF ready])
  assume view: "js_view c s = Some vs"
  from js_view_chart [OF ready view] obtain ch a where ch: "js_charts s c = Some ch" "jc_data ch = d" "jc_agent ch = Some a"
    "jc_variables ch = vs" "length vs = variable_count d" by blast
  from js_array.assign_arguments [OF ready view, of args] ch(1,2)
  show "\<exists>s'. JsChart_SetArgs args c s = Some s' \<and> js_ready c d s' \<and> js_view c s' = Some (overwrite (variable_count d) args vs)"
    by (simp add: JsChart_SetArgs_def js_assign_def)
  assume "i < variable_count d"
  with ch show "JsChart_GetVar (int i) c s = Some (vs ! i)" by (simp add: JsChart_GetVar_def)
qed

section \<open>The bindings agree\<close>

fun few :: "nat \<Rightarrow> 'v var_op \<Rightarrow> bool" where
  "few k (Arguments args) = (length args \<le> k)"
| "few k _ = True"

lemma spec_map:
  "fold (spec_op n k (f z)) (map (map_var_op f) xs) (map f vs) = map f (fold (spec_op n k z) xs vs)"
proof (induction xs arbitrary: vs)
  case (Cons x xs)
  have "overwrite k (map f args) (map f vs) = map f (overwrite k args vs)" for args
    by (intro nth_equalityI) auto
  then have "spec_op n k (f z) (map_var_op f x) (map f vs) = map f (spec_op n k z x vs)"
    by (cases x) (simp_all add: map_update)
  with Cons.IH show ?case by simp
qed simp

lemma spec_length: "length vs = n \<Longrightarrow> length (fold (spec_op n k z) xs vs) = n"
proof (induction xs arbitrary: vs)
  case (Cons x xs)
  then have "length (spec_op n k z x vs) = n" by (cases x) simp_all
  with Cons.IH show ?case by simp
qed simp

text \<open>Using fewer of the arguments makes no difference for the parameters, and none at all when there are
  not more arguments than parameters.\<close>

lemma spec_limit:
  assumes "length us = n" "length vs = n" "i < n" "\<forall>x \<in> set xs. i < k \<or> few k x" "us ! i = vs ! i"
  shows "fold (spec_op n k z) xs us ! i = fold (spec_op n n z) xs vs ! i"
  using assms
proof (induction xs arbitrary: us vs)
  case (Cons x xs)
  have lens: "length (spec_op n k z x us) = n" "length (spec_op n n z x vs) = n"
    using Cons.prems(1,2) by (cases x, simp_all)+
  have eq: "spec_op n k z x us ! i = spec_op n n z x vs ! i"
  proof (cases x)
    case (Assign m v)
    with Cons.prems show ?thesis by (cases "i = m") simp_all
  qed (use Cons.prems in auto)
  have "\<forall>x \<in> set xs. i < k \<or> few k x" using Cons.prems(4) by auto
  from Cons.IH [OF lens Cons.prems(3) this eq] show ?case by simp
qed simp

text \<open>C36. A chart without attached parameters that is started and then used has the same variables in the
  three bindings, where \<open>f\<close> is the table of the script from numbers to values: in Python and JavaScript
  always, and in Lua for the parameters; for the other variables when no subchart gets more arguments than
  it has parameters. Lua drops such arguments, the other two write them over the variables that follow the
  parameters.\<close>

theorem bindings_agree:
  assumes "py_ready c d w" "lua_ready pick c' d s" "js_ready c'' d j" "f 0 = VNone"
    and "\<forall>x \<in> set xs. in_range (variable_count d) x"
  shows "\<exists>w' s' j'.
    foldM (run_op (py_assign c) (\<lambda>args. SetArgs args c) (ResetVariables H c)) (map (map_var_op f) (Restart # xs)) w = Some w' \<and>
    foldM (run_op (lua_assign c') (\<lambda>args. LuaChart_SetArgs args c') (LuaChart_ResetVariables pick c'))
      (map (map_var_op f) (Restart # xs)) s = Some s' \<and>
    foldM (run_op (js_assign c'') (\<lambda>args. JsChart_SetArgs args c'') (JsChart_ResetVariables T c'')) (Restart # xs) j = Some j' \<and>
    (\<forall>i < variable_count d. \<exists>r. JsChart_GetVar (int i) c'' j' = Some r \<and> GetVar (int i) c w' = Some (f r) \<and>
       (i < params_count d \<or> (\<forall>x \<in> set xs. few (params_count d) x) \<longrightarrow> LuaChart_GetVar (int i) c' s' = Some (f r)))"
proof -
  let ?n = "variable_count d" and ?ys = "map (map_var_op f) xs"
  have range: "\<forall>x \<in> set ?ys. in_range ?n x"
  proof -
    have "in_range ?n (map_var_op f x) = in_range ?n x" for x by (cases x) simp_all
    with assms(5) show ?thesis by simp
  qed
  have few: "few k (map_var_op f x) = few k x" for k x by (cases x) simp_all
  let ?js = "fold (spec_op ?n ?n 0) xs (replicate ?n 0)"
  let ?lua = "fold (spec_op ?n (params_count d) VNone) ?ys (replicate ?n VNone)"
  have py: "fold (spec_op ?n ?n VNone) ?ys (replicate ?n VNone) = map f ?js"
    using spec_map [of ?n ?n f 0 xs "replicate ?n 0"] by (simp add: assms(4))
  have len: "length ?js = ?n" by (rule spec_length) simp
  have lua: "?lua ! i = f (?js ! i)" if "i < ?n" "i < params_count d \<or> (\<forall>x \<in> set xs. few (params_count d) x)" for i
    using spec_limit [of "replicate ?n VNone" ?n "replicate ?n VNone" i ?ys "params_count d" VNone] that len
    by (auto simp: py few)
  obtain w' where w': "foldM (run_op (py_assign c) (\<lambda>args. SetArgs args c) (ResetVariables H c)) (Restart # ?ys) w = Some w'"
    "\<forall>i<?n. GetVar (int i) c w' = Some (map f ?js ! i)"
    using py_store.refines [OF assms(1) range, of H] by (auto simp: py)
  obtain s' where s': "foldM (run_op (lua_assign c') (\<lambda>args. LuaChart_SetArgs args c') (LuaChart_ResetVariables pick c'))
      (Restart # ?ys) s = Some s'" "\<forall>i<?n. LuaChart_GetVar (int i) c' s' = Some (?lua ! i)"
    using lua_store.refines [OF assms(2) range] by auto
  obtain j' where j': "foldM (run_op (js_assign c'') (\<lambda>args. JsChart_SetArgs args c'') (JsChart_ResetVariables T c''))
      (Restart # xs) j = Some j'" "\<forall>i<?n. JsChart_GetVar (int i) c'' j' = Some (?js ! i)"
    using js_store.refines [OF assms(3,5), of T] by auto
  have "\<forall>i < ?n. \<exists>r. JsChart_GetVar (int i) c'' j' = Some r \<and> GetVar (int i) c w' = Some (f r) \<and>
       (i < params_count d \<or> (\<forall>x \<in> set xs. few (params_count d) x) \<longrightarrow> LuaChart_GetVar (int i) c' s' = Some (f r))"
    using w'(2) s'(2) j'(2) lua len by simp
  with w'(1) s'(1) j'(1) show ?thesis by auto
qed

end
