(* ===== verification/Timer_Exact.thy ===== *)
theory Timer_Exact
  imports Timer_Wheel
begin

text \<open>
  The timer wheel executes every event at the tick it is scheduled at. The wheel has one invariant
  with three parameters, because a tick goes through the levels one after the other: \<open>t\<close> is the
  current time, the levels below \<open>u\<close> already count it, and the levels below \<open>m\<close> may still hold
  events of the slot they have reached.
\<close>

section \<open>The invariant\<close>

definition due :: "nat \<Rightarrow> 'k \<Rightarrow> 'k wheel \<Rightarrow> nat" where
  "due L e w = scheduled_at w e div 256 ^ L"

definition in_time :: "nat \<Rightarrow> 'k wheel \<Rightarrow> 'k \<Rightarrow> nat \<Rightarrow> nat \<Rightarrow> bool" where
  "in_time m w e L i \<longleftrightarrow> L \<le> 7 \<and> i = due L e w mod 256 \<and> due L e w < nows w L + 256
     \<and> nows w L \<le> due L e w \<and> (L < m \<or> nows w L \<noteq> due L e w)"

definition linked :: "'k wheel \<Rightarrow> bool" where
  "linked w \<longleftrightarrow> (\<forall>L i e. e \<in> set (slots w L i) \<longleftrightarrow> slot_of w e = Some (L, i)) \<and> (\<forall>L i. distinct (slots w L i))"

definition counts :: "nat \<Rightarrow> nat \<Rightarrow> 'k wheel \<Rightarrow> bool" where
  "counts t u w \<longleftrightarrow> (\<forall>L \<le> 7. nows w L = (if L < u then t else t - 1) div 256 ^ L)"

definition waits :: "nat \<Rightarrow> 'k wheel \<Rightarrow> bool" where
  "waits m w \<longleftrightarrow> (\<forall>e L i. slot_of w e = Some (L, i) \<longrightarrow> in_time m w e L i)"

definition winv :: "nat \<Rightarrow> nat \<Rightarrow> nat \<Rightarrow> 'k wheel \<Rightarrow> bool" where
  "winv t u m w \<longleftrightarrow> linked w \<and> counts t u w \<and> waits m w"

text \<open>Between two ticks: all levels count the time, and every event is due in the future.\<close>

definition wheel_ok :: "'k wheel \<Rightarrow> bool" where
  "wheel_ok w \<longleftrightarrow> winv (nows w 0) 8 0 w"

lemma winvD:
  assumes "winv t u m w"
  shows "e \<in> set (slots w L i) \<longleftrightarrow> slot_of w e = Some (L, i)" "distinct (slots w L i)"
    and "L \<le> 7 \<Longrightarrow> nows w L = (if L < u then t else t - 1) div 256 ^ L"
    and "slot_of w e = Some (L, i) \<Longrightarrow> in_time m w e L i"
  using assms unfolding winv_def linked_def counts_def waits_def by blast+

lemma winv_next: "winv t 8 0 w \<Longrightarrow> winv (Suc t) 0 0 w"
  by (auto simp: winv_def counts_def)

lemma wheel_ok_new: "wheel_ok new_wheel"
  by (simp add: wheel_ok_def winv_def linked_def counts_def waits_def new_wheel_def)

lemma wheel_ok_future:
  assumes "wheel_ok w" "slot_of w e \<noteq> None"
  shows "nows w 0 < scheduled_at w e"
proof -
  obtain L i where e: "slot_of w e = Some (L, i)" using assms(2) by auto
  have inv: "winv (nows w 0) 8 0 w" using assms(1) by (simp add: wheel_ok_def)
  have "nows w L < due L e w" "L \<le> 7" using winvD(4) [OF inv e] by (auto simp: in_time_def)
  moreover from this have "nows w L = nows w 0 div 256 ^ L" using winvD(3) [OF inv, of L] by (cases "L < 8") auto
  ultimately have "nows w 0 div 256 ^ L < scheduled_at w e div 256 ^ L" by (simp add: due_def)
  then show ?thesis using div_le_mono [of "scheduled_at w e" "nows w 0" "256 ^ L"] by linarith
qed

section \<open>Linking and scheduling\<close>

lemma relink_sel [simp]: "nows (relink e x w) = nows w" "scheduled_at (relink e x w) = scheduled_at w"
  by (auto simp: relink_def Let_def slot_set_def split: option.splits)

lemma slot_of_relink [simp]: "slot_of (relink e x w) = (slot_of w)(e := x)"
  by (auto simp: relink_def Let_def slot_set_def split: option.splits)

lemma linked_relink:
  assumes "linked w"
  shows "linked (relink e x w)"
proof (cases "x = slot_of w e")
  case False
  define w1 where "w1 = (case slot_of w e of None \<Rightarrow> w
    | Some (L, i) \<Rightarrow> slot_set L i (without e (slots w L i)) w)"
  have w: "\<And>L i e. e \<in> set (slots w L i) \<longleftrightarrow> slot_of w e = Some (L, i)" "\<And>L i. distinct (slots w L i)"
    using assms by (auto simp: linked_def)
  have w1: "slots w1 L i = without e (slots w L i)" for L i
    using w(1) by (auto simp: w1_def slot_set_def split: option.splits)
  have "slots (relink e x w) L i = (if x = Some (L, i) then e # without e (slots w L i) else without e (slots w L i))"
    for L i
    using False w1 by (auto simp: relink_def Let_def w1_def [symmetric] slot_set_def split: option.splits)
  then show ?thesis using w by (auto simp: linked_def)
qed (simp add: relink_def assms)

lemma in_time_relink [simp]: "in_time m (relink e x w) = in_time m w"
  by (intro ext) (simp add: in_time_def due_def)

lemma winv_relink:
  assumes "winv t u m w" "\<And>L i. x = Some (L, i) \<Longrightarrow> in_time m w e L i"
  shows "winv t u m (relink e x w)"
  using assms linked_relink [of w e x] by (auto simp: winv_def counts_def waits_def)

lemma cancel_winv: "winv t u m w \<Longrightarrow> winv t u m (cancel e w)"
  using winv_relink [of t u m w None] by (simp add: cancel_def)

lemma pick_level_range:
  assumes "pick_level now L0 delta = (L, d)" "1 \<le> delta"
  shows "1 \<le> d \<and> d < 256"
  using assms
proof (induction now L0 delta rule: pick_level.induct)
  case (1 now L0 delta)
  show ?case
  proof (cases "delta \<ge> 256")
    case True
    then have "1 \<le> (delta + now L0 mod 256) div 256" by (simp add: div_greater_zero_iff Suc_le_eq)
    with 1 True show ?thesis by (simp add: pick_level.simps [of now L0 delta])
  qed (use 1 in \<open>simp add: pick_level.simps [of now L0 delta]\<close>)
qed

text \<open>At every level, the number of slots ahead and the count of the level add up to the due time.\<close>

lemma pick_level_due:
  assumes "pick_level now L0 delta = (L, d)" "\<And>l. L0 \<le> l \<Longrightarrow> l < L \<Longrightarrow> now (Suc l) = now l div 256"
  shows "L0 \<le> L \<and> now L + d = (now L0 + delta) div 256 ^ (L - L0)"
  using assms
proof (induction now L0 delta rule: pick_level.induct)
  case (1 now L0 delta)
  show ?case
  proof (cases "delta \<ge> 256")
    case True
    with 1(2) have p: "pick_level now (L0 + 1) ((delta + now L0 mod 256) div 256) = (L, d)"
      by (simp add: pick_level.simps [of now L0 delta])
    from 1(1) [OF True p] 1(3) have IH: "L0 + 1 \<le> L"
      "now L + d = (now (L0 + 1) + (delta + now L0 mod 256) div 256) div 256 ^ (L - (L0 + 1))" by auto
    have "now (L0 + 1) + (delta + now L0 mod 256) div 256 = (now L0 + delta) div 256"
    proof -
      have "now L0 + delta = (delta + now L0 mod 256) + now L0 div 256 * 256"
        using div_mult_mod_eq [of "now L0" 256] by linarith
      then have "(now L0 + delta) div 256 = now L0 div 256 + (delta + now L0 mod 256) div 256"
        by (simp only: div_mult_self1)
      then show ?thesis using 1(3) [of L0] IH(1) by simp
    qed
    moreover have "L - L0 = Suc (L - (L0 + 1))" using IH(1) by simp
    ultimately show ?thesis using IH by (simp add: div_mult2_eq)
  qed (use 1(2) in \<open>simp add: pick_level.simps [of now L0 delta]\<close>)
qed

lemma schedule_winv:
  assumes w: "winv t 8 m w" and run: "schedule e delta w = Some w'"
  shows "winv t 8 m w' \<and> nows w' = nows w \<and> scheduled_at w' e = nows w 0 + delta"
proof -
  obtain L d where p: "pick_level (nows w) 0 delta = (L, d)" by fastforce
  let ?w = "w\<lparr>scheduled_at := (scheduled_at w)(e := nows w 0 + delta)\<rparr>"
  from run p have delta: "1 \<le> delta" and L: "L \<le> 7"
    and w': "w' = relink e (Some (L, (nows w L + d) mod 256)) ?w"
    by (auto simp: schedule_def split: if_splits)
  have now: "nows w l = t div 256 ^ l" if "l \<le> 7" for l using winvD(3) [OF w that] that by simp
  have "nows w (Suc l) = nows w l div 256" if "l < L" for l
    using that L by (simp add: now div_mult2_eq [symmetric] mult.commute)
  with pick_level_due [OF p] have d: "nows w L + d = (nows w 0 + delta) div 256 ^ L" by simp
  note r = pick_level_range [OF p delta]
  have other: "in_time m w x = in_time m ?w x" if "x \<noteq> e" for x
    using that by (intro ext) (simp add: in_time_def due_def)
  have e: "in_time m ?w e L ((nows w L + d) mod 256)"
    using d r L by (auto simp: in_time_def due_def)
  have "linked w'" unfolding w' by (rule linked_relink) (use w in \<open>simp add: winv_def linked_def\<close>)
  moreover have "waits m w'"
    using w e other [symmetric] by (auto simp: w' winv_def waits_def)
  ultimately show ?thesis using w by (simp add: w' winv_def counts_def)
qed

section \<open>A tick\<close>

text \<open>Taking an event out of the slot that a level has reached.\<close>

lemma pop_winv:
  assumes w: "winv t u m w" and pop: "pop_event L i w = Some (e, w')"
  shows "winv t u m w'" "nows w' = nows w" "scheduled_at w' = scheduled_at w" "slot_of w e = Some (L, i)"
proof -
  from pop obtain es where es: "slots w L i = e # es" and w': "w' = (slot_set L i es w)\<lparr>slot_of := (slot_of w)(e := None)\<rparr>"
    by (auto simp: pop_event_def split: list.splits)
  from winvD(1) [OF w, of e L i] es show e: "slot_of w e = Some (L, i)" by simp
  show now: "nows w' = nows w" "scheduled_at w' = scheduled_at w" by (simp_all add: w' slot_set_def)
  have "linked w'"
    unfolding linked_def
  proof (intro conjI allI)
    fix L' i' x
    have mem: "x \<in> set (slots w L' i') \<longleftrightarrow> slot_of w x = Some (L', i')" by (rule winvD(1) [OF w])
    have d: "e \<notin> set es" using winvD(2) [OF w, of L i] es by simp
    show "x \<in> set (slots w' L' i') \<longleftrightarrow> slot_of w' x = Some (L', i')"
      using mem d e es by (auto simp: w' slot_set_def)
    show "distinct (slots w' L' i')"
      using winvD(2) [OF w, of L' i'] es by (auto simp: w' slot_set_def)
  qed
  moreover have "in_time m w' = in_time m w" by (intro ext) (simp add: in_time_def due_def now)
  ultimately show "winv t u m w'"
    using w by (auto simp: winv_def counts_def waits_def now w' slot_set_def)
qed

lemma due_now:
  assumes "in_time m w e L (nows w L mod 256)"
  shows "due L e w = nows w L"
proof -
  let ?d = "due L e w - nows w L"
  have "?d < 256" "due L e w mod 256 = nows w L mod 256" "nows w L \<le> due L e w"
    using assms by (auto simp: in_time_def)
  then have "256 dvd ?d" using mod_eq_dvd_iff_nat [of "nows w L" "due L e w" 256] by simp
  with \<open>?d < 256\<close> \<open>nows w L \<le> due L e w\<close> show ?thesis by (auto dest: dvd_imp_le)
qed

lemma winv_slot_done:
  assumes w: "winv t u (Suc L) w" and i: "slots w L (nows w L mod 256) = []"
  shows "winv t u L w"
proof -
  have "in_time L w e L' i'" if e: "slot_of w e = Some (L', i')" for e L' i'
  proof -
    have t: "in_time (Suc L) w e L' i'" using winvD(4) [OF w e] .
    have "nows w L \<noteq> due L e w" if "L' = L"
    proof
      assume "nows w L = due L e w"
      then have "i' = nows w L mod 256" using t that by (simp add: in_time_def)
      with winvD(1) [OF w, of e L i'] e that i show False by simp
    qed
    with t show ?thesis by (auto simp: in_time_def less_Suc_eq)
  qed
  with w show ?thesis by (simp add: winv_def waits_def)
qed

text \<open>The counter of a level moves on.\<close>

lemma count_up:
  assumes w: "winv t L L w" and L: "L \<le> 7" and t: "256 ^ L dvd t" "0 < t"
    and w': "w' = w\<lparr>nows := (nows w)(L := nows w L + 1)\<rparr>"
  shows "nows w L + 1 = t div 256 ^ L" "winv t (Suc L) (Suc L) w'"
    and "(nows w L + 1) mod 256 = 0 \<Longrightarrow> 256 ^ Suc L dvd t"
    and "(nows w L + 1) mod 256 \<noteq> 0 \<Longrightarrow> winv t 8 (Suc L) w'"
proof -
  obtain s where s: "t = Suc s" using t(2) by (cases t) auto
  have "t mod 256 ^ L = 0" using t(1) by simp
  moreover have "nows w L = s div 256 ^ L" using winvD(3) [OF w L] s by simp
  ultimately show now: "nows w L + 1 = t div 256 ^ L" using s by (simp add: div_Suc)
  have "in_time (Suc L) w' e L' i'" if e: "slot_of w e = Some (L', i')" for e L' i'
    using winvD(4) [OF w e] by (cases "L' = L") (auto simp: w' in_time_def due_def)
  with w show inv: "winv t (Suc L) (Suc L) w'"
    by (auto simp: winv_def counts_def waits_def linked_def w' now [simplified] less_Suc_eq)
  obtain q where q: "t = 256 ^ L * q" using t(1) by blast
  then have div: "t div 256 ^ L = q" by simp
  show step: "256 ^ Suc L dvd t" if "(nows w L + 1) mod 256 = 0"
    using that now div q by (auto simp: mult.commute)
  assume ne: "(nows w L + 1) mod 256 \<noteq> 0"
  have "(t - 1) div 256 ^ l = t div 256 ^ l" if "L < l" for l
  proof -
    have "256 ^ Suc L dvd (256 ^ l :: nat)" using that by (intro le_imp_power_dvd) simp
    moreover have "\<not> 256 ^ Suc L dvd t" using ne now div q by (auto simp: mult.commute dvd_mult_cancel1)
    ultimately have "t mod 256 ^ l \<noteq> 0" using dvd_trans by (metis dvd_eq_mod_eq_0)
    then show ?thesis by (simp add: s div_Suc)
  qed
  with inv show "winv t 8 (Suc L) w'" by (auto simp: winv_def counts_def less_Suc_eq)
qed

section \<open>Executing at the right tick\<close>

text \<open>The execution of an event that is only defined at the tick the event is scheduled at.\<close>

definition timed :: "('s \<Rightarrow> 'k wheel) \<Rightarrow> ('k \<Rightarrow> 's \<Rightarrow> 's option) \<Rightarrow> 'k \<Rightarrow> 's \<Rightarrow> 's option" where
  "timed getw exec e s =
     (if scheduled_at (getw s) e = nows (getw s) 0 then exec e s else None)"

text \<open>An event taken out of the slot a level has reached is due within the unit of that level.\<close>

lemma popped_due:
  assumes w: "winv t 8 (Suc L) w0" and L: "L \<le> 7"
    and pop: "pop_event L (t div 256 ^ L mod 256) w0 = Some (e, w)"
  shows "scheduled_at w e div 256 ^ L = t div 256 ^ L" "nows w l = (if l \<le> 7 then t div 256 ^ l else nows w l)"
proof -
  note pops = pop_winv [OF w pop]
  show now: "nows w l = (if l \<le> 7 then t div 256 ^ l else nows w l)" for l
    using winvD(3) [OF pops(1), of l] by simp
  have "due L e w0 = nows w0 L"
    using winvD(4) [OF w pops(4)] now [of L] L pops(2) by (intro due_now) simp
  then show "scheduled_at w e div 256 ^ L = t div 256 ^ L"
    using now [of L] L pops(2,3) by (simp add: due_def)
qed

text \<open>The owner of a wheel: its state gives access to the wheel, and executing an event leaves the
  invariant of the wheel alone.\<close>

locale wheel_owner =
  fixes getw :: "'s \<Rightarrow> 'k wheel" and putw :: "'k wheel \<Rightarrow> 's \<Rightarrow> 's" and exec :: "'k \<Rightarrow> 's \<Rightarrow> 's option"
  assumes get_put: "getw (putw w s) = w"
    and exec_law: "winv t 8 m (getw s) \<Longrightarrow> exec e s = Some s' \<Longrightarrow> winv t 8 m (getw s')"
begin

lemma drain_step:
  assumes w: "winv t 8 (Suc L) (getw s)" and t: "256 ^ L dvd t" and L: "L \<le> 7"
    and pop: "pop_event L (t div 256 ^ L mod 256) (getw s) = Some (e, w)"
    and run: "(if L > 0
       then if nows w 0 mod 256 \<noteq> 0 then None
            else if nows w 0 \<ge> scheduled_at w e then exec e (putw w s)
            else map_option (\<lambda>w'. putw w' (putw w s)) (schedule e (scheduled_at w e - nows w 0) w)
       else exec e (putw w s)) = Some s1"
  shows "winv t 8 (Suc L) (getw s1)"
    and "L = 0 \<or> scheduled_at w e \<le> nows w 0 \<Longrightarrow> timed getw exec e (putw w s) = exec e (putw w s)"
proof -
  note pops = pop_winv [OF w pop]
  have due: "scheduled_at w e div 256 ^ L = t div 256 ^ L" by (rule popped_due(1) [OF w L pop])
  have now: "nows w 0 = t" using popped_due(2) [OF w L pop, of 0] by simp
  show "winv t 8 (Suc L) (getw s1)"
    using run exec_law [of t "Suc L" "putw w s" e s1] schedule_winv [OF pops(1)] pops(1)
    by (auto simp: get_put split: if_splits)
  assume early: "L = 0 \<or> scheduled_at w e \<le> nows w 0"
  have "t \<le> scheduled_at w e" using t due by (metis dvd_div_mult_self div_times_less_eq_dividend)
  with early due now have "scheduled_at w e = nows w 0" by auto
  then show "timed getw exec e (putw w s) = exec e (putw w s)" by (simp add: timed_def get_put)
qed

lemma drain_exact:
  assumes run: "drain_slot getw putw exec L (t div 256 ^ L mod 256) s = Some s'"
    and w: "winv t 8 (Suc L) (getw s)" and t: "256 ^ L dvd t" and L: "L \<le> 7"
  shows "winv t 8 L (getw s') \<and> drain_slot getw putw (timed getw exec) L (t div 256 ^ L mod 256) s = Some s'"
  using run w
proof (induction rule: drain_slot_induct [consumes 1, case_names nil step])
  case (nil s)
  with winvD(3) [OF nil(2), of L] L winv_slot_done [OF nil(2)] show ?case
    by (simp add: drain_slot.simps)
next
  case (step s e w s1 s')
  note d = drain_step [OF step(5) t L step(2,3)]
  from step(4) [OF d(1)] have IH: "winv t 8 L (getw s')"
    "drain_slot getw putw (timed getw exec) L (t div 256 ^ L mod 256) s1 = Some s'" by auto
  have "(if L > 0
       then if nows w 0 mod 256 \<noteq> 0 then None
            else if nows w 0 \<ge> scheduled_at w e then timed getw exec e (putw w s)
            else map_option (\<lambda>w'. putw w' (putw w s)) (schedule e (scheduled_at w e - nows w 0) w)
       else timed getw exec e (putw w s)) = Some s1"
    using step(3) d(2) by (auto split: if_splits)
  with IH step(1,2) show ?case by (subst drain_slot.simps) (simp only: if_False bind.simps prod.case Let_def simp_thms)
qed

lemma tick_exact:
  assumes "tick_up getw putw exec up s = Some s'" "up \<le> 7"
    and "winv t (7 - up) (7 - up) (getw s)" "256 ^ (7 - up) dvd t" "0 < t"
  shows "winv t 8 (7 - up) (getw s') \<and> tick_up getw putw (timed getw exec) up s = Some s'"
  using assms
proof (induction up arbitrary: s s')
  case 0
  then have w: "winv t 7 7 (getw s)" and t: "256 ^ 7 dvd t" by simp_all
  note up = count_up [OF w _ t 0(5) refl]
  have "drain_slot getw putw exec 7 (t div 256 ^ 7 mod 256)
      (putw ((getw s)\<lparr>nows := (nows (getw s))(7 := nows (getw s) 7 + 1)\<rparr>) s) = Some s'"
    using 0(1) up(1) by (simp add: Let_def)
  from drain_exact [OF this _ t] up(2) have "winv t 8 7 (getw s')"
    "drain_slot getw putw (timed getw exec) 7 (t div 256 ^ 7 mod 256)
      (putw ((getw s)\<lparr>nows := (nows (getw s))(7 := nows (getw s) 7 + 1)\<rparr>) s) = Some s'"
    by (simp_all add: get_put)
  then show ?case using up(1) by (simp add: Let_def)
next
  case (Suc up)
  let ?L = "6 - up" let ?now = "nows (getw s) ?L + 1"
  let ?s = "putw ((getw s)\<lparr>nows := (nows (getw s))(?L := ?now)\<rparr>) s"
  have L: "7 - Suc up = ?L" "?L \<le> 7" "7 - up = Suc ?L" using Suc(3) by auto
  from Suc(4-) have w: "winv t ?L ?L (getw s)" and t: "256 ^ ?L dvd t" by (simp_all only: L)
  note up = count_up [OF w L(2) t Suc(6) refl]
  from Suc(2) obtain s1 where s1: "(if ?now mod 256 = 0 then tick_up getw putw exec up ?s else Some ?s) = Some s1"
    and s': "drain_slot getw putw exec ?L (?now mod 256) s1 = Some s'"
    by (simp only: tick_up.simps Let_def) (elim bind_SomeE, erule that)
  have "winv t 8 (Suc ?L) (getw s1)
      \<and> (if ?now mod 256 = 0 then tick_up getw putw (timed getw exec) up ?s else Some ?s) = Some s1"
  proof (cases "?now mod 256 = 0")
    case True
    with s1 have "tick_up getw putw exec up ?s = Some s1" by simp
    from Suc(1) [OF this, unfolded L(3)] up(2,3) True Suc(3,6) show ?thesis by (simp add: get_put)
  next
    case False
    with s1 up(4) show ?thesis by (auto simp: get_put)
  qed
  moreover from drain_exact [OF s' [unfolded up(1)] conjunct1 [OF this] t L(2)]
  have "winv t 8 ?L (getw s')" "drain_slot getw putw (timed getw exec) ?L (?now mod 256) s1 = Some s'"
    using up(1) by simp_all
  ultimately show ?case
    unfolding tick_up.simps Let_def L(1) by (simp only: bind.simps simp_thms)
qed

lemma wheel_tick_exact:
  assumes "wheel_tick getw putw exec s = Some s'" "wheel_ok (getw s)"
  shows "wheel_ok (getw s') \<and> nows (getw s') 0 = nows (getw s) 0 + 1
    \<and> wheel_tick getw putw (timed getw exec) s = Some s'"
proof -
  let ?t = "nows (getw s) 0 + 1"
  have w: "winv (nows (getw s) 0) 8 0 (getw s)" using assms(2) by (simp add: wheel_ok_def)
  have "winv ?t 0 0 (getw s)" using winv_next [OF w] by simp
  with tick_exact [of 7 s s' ?t] assms(1) have "winv ?t 8 0 (getw s')" "wheel_tick getw putw (timed getw exec) s = Some s'"
    by (auto simp: wheel_tick_def)
  moreover from this(1) have "nows (getw s') 0 = ?t" using winvD(3) [of ?t 8 0 "getw s'" 0] by simp
  ultimately show ?thesis by (simp add: wheel_ok_def)
qed

lemma advance_exact:
  assumes "advance getw putw exec k s = Some s'" "wheel_ok (getw s)"
  shows "wheel_ok (getw s') \<and> nows (getw s') 0 = nows (getw s) 0 + k
    \<and> advance getw putw (timed getw exec) k s = Some s'"
  using assms
proof (induction k arbitrary: s)
  case (Suc k)
  then obtain s1 where s1: "wheel_tick getw putw exec s = Some s1" and s': "advance getw putw exec k s1 = Some s'"
    by (auto elim: bind_SomeE)
  from wheel_tick_exact [OF s1 Suc(3)] Suc(1) [OF s'] show ?case by simp
qed simp

lemma Step_exact:
  assumes "TimerManager_Step getw putw exec ms s = Some s'" "wheel_ok (getw s)"
  shows "wheel_ok (getw s') \<and> nows (getw s') 0 = nows (getw s) 0 + nat ms
    \<and> TimerManager_Step getw putw (timed getw exec) ms s = Some s'"
proof (cases "ms > 0")
  case True
  with advance_exact [of "nat ms" s s'] assms show ?thesis by (simp add: TimerManager_Step_def)
next
  case False
  with assms show ?thesis by (simp add: TimerManager_Step_def)
qed

end

end
