(* ===== verification/Engine_Rel.thy ===== *)
theory Engine_Rel
  imports Executor
begin

text \<open>
  Relations that every operation of the engine respects. The engine is a few dozen operations on
  top of a small set of primitive ones, mutually recursive through the scripts; to prove that all
  of them preserve something is the same induction every time. It is done once here, for a
  preorder \<open>R\<close> on worlds that the primitive operations respect; the theories that follow
  interpret the locale on the relations they need.
\<close>

section \<open>Results related to a world\<close>

named_theorems post_rules \<open>introduction rules for the results of operations\<close>

text \<open>The scripts all of whose calls satisfy \<open>P\<close>, whatever they are replied.\<close>

primrec calls_only :: "(api \<Rightarrow> bool) \<Rightarrow> 'e script \<Rightarrow> bool" where
  "calls_only P (Ret v e) \<longleftrightarrow> True"
| "calls_only P (Raise e) \<longleftrightarrow> True"
| "calls_only P (Call a e k) \<longleftrightarrow> P a \<and> (\<forall>r e. calls_only P (k r e))"

definition host_calls_only :: "(api \<Rightarrow> bool) \<Rightarrow> 'e host \<Rightarrow> bool" where
  "host_calls_only P H \<longleftrightarrow>
     (\<forall>code name self e. calls_only P (h_func H code name self e))
   \<and> (\<forall>f v e. calls_only P (h_call H f v e))"

locale world_rel =
  fixes R :: "'e world \<Rightarrow> 'e world \<Rightarrow> bool"
    and P :: "api \<Rightarrow> bool"
  assumes refl: "R w w"
    and trans: "R u v \<Longrightarrow> R v w \<Longrightarrow> R u w"
    and node_law: "upd_node n f w = Some w' \<Longrightarrow> R w w'"
    and chart_law: "upd_chart c g w = Some w' \<Longrightarrow>
      (\<And>ch. nodes (g ch) = nodes ch \<and> owner_node (g ch) = owner_node ch
        \<and> chart_data_ptr (g ch) = chart_data_ptr ch) \<Longrightarrow> R w w'"
    and agent_law: "upd_agent a h w = Some w' \<Longrightarrow>
      (\<And>ag. agent_id (h ag) = agent_id ag \<and> game_object (h ag) = game_object ag
        \<and> agent_status (h ag) = agent_status ag) \<Longrightarrow> R w w'"
    and create_law: "CreateChart d owner w = Some (c, w') \<Longrightarrow> R w w'"
    and cancel_timer_law: "R w (cancel_timer t w)"
    and add_timer_law: "add_timer t ms w = Some w' \<Longrightarrow> R w w'"
    and wait_push_law: "wait_Push k n w = Some w' \<Longrightarrow> R w w'"
    and exec_push_law: "exec_Push i n w = Some w' \<Longrightarrow> R w w'"
    and exec_pop_law: "exec_Pop i w = Some (n, w') \<Longrightarrow> R w w'"
    and exec_clear_law: "on_cs (\<lambda>cs. Some (Exec_clear i cs)) w = Some w' \<Longrightarrow> R w w'"
    and hist_clear_law: "on_cs (\<lambda>cs. Some (hist_clear i cs)) w = Some w' \<Longrightarrow> R w w'"
    and local_pop_law: "local_Pop (w_cs w) = Some (n, cs) \<Longrightarrow> R w (w\<lparr>w_cs := cs\<rparr>)"
    and suspend_law: "P Py_suspend_node \<Longrightarrow> CreateAsyncContext w = Some (x', w') \<Longrightarrow> R w w'"
    and continue_law: "P (Py_continue_node ctx cv) \<Longrightarrow> ContinueAsyncNode ctx w = Some (b, w') \<Longrightarrow> R w w'"
    and cancel_law: "P (Py_cancel ctx b') \<Longrightarrow> CancelAsyncNode ctx b' w = Some (b, w') \<Longrightarrow> R w w'"
    and register_law: "Register obj w = Some (a, w') \<Longrightarrow> R w w'"
    and unregister_law: "Manager_UnregisterGameObject ao w = Some (b, w') \<Longrightarrow> R w w'"
    and cur_node_law: "R w (w\<lparr>w_cur_node := cn\<rparr>)"
    and cur_agent_law: "R w (w\<lparr>w_cur_agent := ca\<rparr>)"
    and env_law: "R w (w\<lparr>w_env := e\<rparr>)"
    and event_law: "R w (w\<lparr>w_event := ev\<rparr>)"
    and post_law: "R w (post_event evt imm w)"
    and index_law: "R (w\<lparr>w_index := w_index w + 1\<rparr>) w' \<Longrightarrow> R w (w'\<lparr>w_index := w_index w\<rparr>)"
    and handle_law: "on_cs (wait_swap k) w = Some w1 \<Longrightarrow> R w1 w2 \<Longrightarrow>
      on_cs local_delete w2 = Some w3 \<Longrightarrow> R w w3"
    and trigger_law: "on_cs (wait_swap k) (w\<lparr>w_event_frame := w_event_frame w + 1\<rparr>) = Some w1 \<Longrightarrow>
      R w1 w2 \<Longrightarrow>
      on_cs local_delete (w2\<lparr>w_event_frame := w_event_frame w2 - 1, w_event := ev\<rparr>) = Some w3 \<Longrightarrow> R w w3"

text \<open>The engine uses stopping and destroying as primitive operations too.\<close>

locale engine_rel = world_rel R P
  for R :: "'e world \<Rightarrow> 'e world \<Rightarrow> bool" and P :: "api \<Rightarrow> bool" +
  assumes node_stop_law: "Node_Stop n w = Some w' \<Longrightarrow> R w w'"
    and chart_stop_law: "Chart_Stop c w = Some w' \<Longrightarrow> R w w'"
    and attacher_law: "SetAttacher x n w = Some w' \<Longrightarrow> R w w'"
    and delete_law: "delete_chart c w = Some w' \<Longrightarrow> R w w'"
    and stop_remove_law: "stop_and_remove n w = Some w' \<Longrightarrow> R w w'"
begin

definition post :: "'e world \<Rightarrow> ('r \<Rightarrow> 'e world) \<Rightarrow> 'r option \<Rightarrow> bool" where
  "post v p m \<longleftrightarrow> (\<forall>r. m = Some r \<longrightarrow> R v (p r))"

abbreviation "postW v m \<equiv> post v (\<lambda>w. w) m"
abbreviation "postP v m \<equiv> post v snd m"

lemma postD: "post v p m \<Longrightarrow> m = Some r \<Longrightarrow> R v (p r)"
  by (simp add: post_def)

lemma post_None [post_rules]: "post v p None"
  by (simp add: post_def)

lemma post_Some [post_rules]: "R v (p r) \<Longrightarrow> post v p (Some r)"
  by (simp add: post_def)

lemma post_Pair [post_rules]: "R v w \<Longrightarrow> post v snd (Some (r, w))"
  by (simp add: post_def)

lemma post_bindW [post_rules]: "post v (\<lambda>w. w) m \<Longrightarrow> (\<And>w. R v w \<Longrightarrow> post v p (f w)) \<Longrightarrow> post v p (Option.bind m f)"
  by (cases m) (simp_all add: post_def)

lemma post_bindP [post_rules]:
  "post v snd m \<Longrightarrow> (\<And>r w. R v w \<Longrightarrow> post v p (f r w)) \<Longrightarrow> post v p (Option.bind m (\<lambda>(r, w). f r w))"
  by (cases m) (auto simp: post_def)

lemma post_bind: "(\<And>x. post v p (f x)) \<Longrightarrow> post v p (Option.bind m f)"
  by (cases m) (simp_all add: post_def)

lemma post_Let [post_rules]: "post v p (f x) \<Longrightarrow> post v p (Let x f)"
  by simp

lemma post_prod [post_rules]: "(\<And>a b. post v p (f a b)) \<Longrightarrow> post v p (case x of (a, b) \<Rightarrow> f a b)"
  by (cases x) simp

lemma post_if [post_rules]: "post v p m \<Longrightarrow> post v p m' \<Longrightarrow> post v p (if b then m else m')"
  by simp

lemma post_option [post_rules]: "post v p m \<Longrightarrow> (\<And>x. post v p (f x)) \<Longrightarrow> post v p (case y of None \<Rightarrow> m | Some x \<Rightarrow> f x)"
  by (cases y) simp_all

lemma post_attacher [post_rules]:
  "(\<And>x. post v p (f x)) \<Longrightarrow> (\<And>x. post v p (g x)) \<Longrightarrow> (\<And>x. post v p (h x)) \<Longrightarrow>
    post v p (case y of NodeTimer x \<Rightarrow> f x | Subchart x \<Rightarrow> g x | NodeWaitAll x \<Rightarrow> h x)"
  by (cases y) simp_all

lemma post_sum [post_rules]:
  "(\<And>x. post v p (f x)) \<Longrightarrow> (\<And>x. post v p (g x)) \<Longrightarrow> post v p (case y of Inl x \<Rightarrow> f x | Inr x \<Rightarrow> g x)"
  by (cases y) simp_all

lemma post_map_snd [post_rules]: "post v snd m \<Longrightarrow> post v (\<lambda>w. w) (map_option snd m)"
  by (cases m) (auto simp: post_def)

lemma post_map_Pair [post_rules]: "post v (\<lambda>w. w) m \<Longrightarrow> post v snd (map_option (Pair x) m)"
  by (cases m) (auto simp: post_def)

lemma post_foldM:
  assumes "R v (p s)" "\<And>x s. x \<in> set xs \<Longrightarrow> R v (p s) \<Longrightarrow> post v p (f x s)"
  shows "post v p (foldM f xs s)"
  using assms
proof (induction xs arbitrary: s)
  case (Cons x xs)
  show ?case
  proof (cases "f x s")
    case (Some s1)
    then have "R v (p s1)" using Cons.prems(2) [of x s] Cons.prems(1) by (simp add: post_def)
    with Some show ?thesis using Cons.IH [of s1] Cons.prems(2) by simp
  qed (simp add: post_def)
qed (simp add: post_def)

lemma post_foldM_W [post_rules]:
  "R v w \<Longrightarrow> (\<And>x w. R v w \<Longrightarrow> post v (\<lambda>w. w) (f x w)) \<Longrightarrow> post v (\<lambda>w. w) (foldM f xs w)"
  by (rule post_foldM)

lemma post_foldM_P [post_rules]:
  "R v w \<Longrightarrow> (\<And>x r w. R v w \<Longrightarrow> post v snd (f x (r, w))) \<Longrightarrow> post v snd (foldM f xs (r, w))"
  by (rule post_foldM) auto

lemma from_law: "(\<And>w'. m = Some w' \<Longrightarrow> R w w') \<Longrightarrow> R v w \<Longrightarrow> post v (\<lambda>w. w) m"
  unfolding post_def using trans by blast

lemma from_lawP: "(\<And>r w'. m = Some (r, w') \<Longrightarrow> R w w') \<Longrightarrow> R v w \<Longrightarrow> post v snd m"
  unfolding post_def using trans by fastforce

text \<open>Reading a value from the state.\<close>

lemma post_bind_pure [post_rules]:
  fixes m1 :: "node option" and m2 :: "chart option" and m3 :: "agent option"
    and m4 :: "node_data option" and m5 :: "chart_data option" and m6 :: "nat option"
    and m7 :: "nat option option" and m8 :: "val option" and m9 :: "val list option"
    and m10 :: "nptr option" and m11 :: "int option" and m12 :: "event option"
    and m13 :: "nat set option" and m14 :: "string option" and m15 :: "nat list option"
    and m16 :: "(int \<times> bool) list option"
  shows "(\<And>x. post v p (f1 x)) \<Longrightarrow> post v p (Option.bind m1 f1)"
    "(\<And>x. post v p (f2 x)) \<Longrightarrow> post v p (Option.bind m2 f2)"
    "(\<And>x. post v p (f3 x)) \<Longrightarrow> post v p (Option.bind m3 f3)"
    "(\<And>x. post v p (f4 x)) \<Longrightarrow> post v p (Option.bind m4 f4)"
    "(\<And>x. post v p (f5 x)) \<Longrightarrow> post v p (Option.bind m5 f5)"
    "(\<And>x. post v p (f6 x)) \<Longrightarrow> post v p (Option.bind m6 f6)"
    "(\<And>x. post v p (f7 x)) \<Longrightarrow> post v p (Option.bind m7 f7)"
    "(\<And>x. post v p (f8 x)) \<Longrightarrow> post v p (Option.bind m8 f8)"
    "(\<And>x. post v p (f9 x)) \<Longrightarrow> post v p (Option.bind m9 f9)"
    "(\<And>x. post v p (f10 x)) \<Longrightarrow> post v p (Option.bind m10 f10)"
    "(\<And>x. post v p (f11 x)) \<Longrightarrow> post v p (Option.bind m11 f11)"
    "(\<And>x. post v p (f12 x)) \<Longrightarrow> post v p (Option.bind m12 f12)"
    "(\<And>x. post v p (f13 x)) \<Longrightarrow> post v p (Option.bind m13 f13)"
    "(\<And>x. post v p (f14 x)) \<Longrightarrow> post v p (Option.bind m14 f14)"
    "(\<And>x. post v p (f15 x)) \<Longrightarrow> post v p (Option.bind m15 f15)"
    "(\<And>x. post v p (f16 x)) \<Longrightarrow> post v p (Option.bind m16 f16)"
  by (rule post_bind, simp)+

text \<open>The primitive operations, continuing from a related world.\<close>

lemma prim_rules [post_rules]:
  "R v w \<Longrightarrow> post v (\<lambda>w. w) (upd_node n f w)"
  "R v w \<Longrightarrow> post v (\<lambda>w. w) (Node_Stop n w)"
  "R v w \<Longrightarrow> post v (\<lambda>w. w) (Chart_Stop c w)"
  "R v w \<Longrightarrow> post v (\<lambda>w. w) (SetAttacher x n w)"
  "R v w \<Longrightarrow> post v (\<lambda>w. w) (delete_chart c w)"
  "R v w \<Longrightarrow> post v (\<lambda>w. w) (stop_and_remove n w)"
  "R v w \<Longrightarrow> post v snd (CreateChart d owner w)"
  "R v w \<Longrightarrow> post v (\<lambda>w. w) (add_timer t ms w)"
  "R v w \<Longrightarrow> post v (\<lambda>w. w) (wait_Push k n w)"
  "R v w \<Longrightarrow> post v (\<lambda>w. w) (exec_Push i n w)"
  "R v w \<Longrightarrow> post v snd (exec_Pop i w)"
  "R v w \<Longrightarrow> post v (\<lambda>w. w) (on_cs (\<lambda>cs. Some (Exec_clear i cs)) w)"
  "R v w \<Longrightarrow> post v (\<lambda>w. w) (on_cs (\<lambda>cs. Some (hist_clear i cs)) w)"
  "R v w \<Longrightarrow> post v snd (Register obj w)"
  "R v w \<Longrightarrow> post v snd (Manager_UnregisterGameObject ao w)"
  by (rule from_law from_lawP,
      erule node_law node_stop_law chart_stop_law attacher_law delete_law stop_remove_law create_law
        add_timer_law wait_push_law exec_push_law exec_pop_law exec_clear_law hist_clear_law
        register_law unregister_law, assumption)+

lemma prim_chart [post_rules]:
  "R v w \<Longrightarrow> (\<And>ch. nodes (g ch) = nodes ch \<and> owner_node (g ch) = owner_node ch
      \<and> chart_data_ptr (g ch) = chart_data_ptr ch) \<Longrightarrow> post v (\<lambda>w. w) (upd_chart c g w)"
  using chart_law trans unfolding post_def by blast

lemma prim_agent [post_rules]:
  "R v w \<Longrightarrow> (\<And>ag. agent_id (h ag) = agent_id ag \<and> game_object (h ag) = game_object ag
      \<and> agent_status (h ag) = agent_status ag) \<Longrightarrow> post v (\<lambda>w. w) (upd_agent a h w)"
  using agent_law trans unfolding post_def by blast

lemma prim_upd [post_rules]:
  "R v w \<Longrightarrow> R v (cancel_timer t w)" "R v w \<Longrightarrow> R v (w\<lparr>w_cur_node := cn\<rparr>)"
  "R v w \<Longrightarrow> R v (w\<lparr>w_cur_agent := ca\<rparr>)" "R v w \<Longrightarrow> R v (w\<lparr>w_env := e\<rparr>)"
  "R v w \<Longrightarrow> R v (w\<lparr>w_event := ev\<rparr>)" "R v w \<Longrightarrow> R v (post_event evt imm w)"
  using trans cancel_timer_law cur_node_law cur_agent_law env_law event_law post_law by blast+

lemma prim_suspend [post_rules]:
  "P Py_suspend_node \<Longrightarrow> R v w \<Longrightarrow> post v snd (CreateAsyncContext w)"
  by (rule from_lawP, rule suspend_law)

lemma prim_continue: "P (Py_continue_node ctx cv) \<Longrightarrow> R v w \<Longrightarrow> post v snd (ContinueAsyncNode ctx w)"
  by (rule from_lawP, rule continue_law)

lemma prim_cancel [post_rules]:
  "P (Py_cancel ctx b) \<Longrightarrow> R v w \<Longrightarrow> post v snd (CancelAsyncNode ctx b w)"
  by (rule from_lawP, rule cancel_law)

subsection \<open>Operations that run no nodes\<close>

lemma setters [post_rules]:
  "R v w \<Longrightarrow> post v (\<lambda>w. w) (SetStatus s n w)" "R v w \<Longrightarrow> post v (\<lambda>w. w) (SetResult r n w)"
  "R v w \<Longrightarrow> post v (\<lambda>w. w) (SetSkip b n w)" "R v w \<Longrightarrow> post v (\<lambda>w. w) (SetRunFlag b n w)"
  "R v w \<Longrightarrow> post v (\<lambda>w. w) (set_attacher x n w)" "R v w \<Longrightarrow> post v (\<lambda>w. w) (set_running b c w)"
  "R v w \<Longrightarrow> post v (\<lambda>w. w) (set_agent a c w)"
  unfolding SetStatus_def SetResult_def SetSkip_def SetRunFlag_def set_attacher_def
    set_running_def set_agent_def
  by (intro post_rules; (assumption | simp))+

lemma variables_post [post_rules]:
  "R v w \<Longrightarrow> post v (\<lambda>w. w) (InitArgs c w)" "R v w \<Longrightarrow> post v snd (SetVar i x c w)"
  unfolding InitArgs_def SetVar_def
  by (intro post_rules; (assumption | simp))+

lemma SetArgs_post [post_rules]: "R v w \<Longrightarrow> post v (\<lambda>w. w) (SetArgs args c w)"
  unfolding SetArgs_def by (intro post_rules; assumption)

lemma NodeTimer_Register_post [post_rules]: "R v w \<Longrightarrow> post v (\<lambda>w. w) (NodeTimer_Register n ms w)"
  unfolding NodeTimer_Register_def by (intro post_rules; assumption)

lemma AgentTimer_Start_post [post_rules]: "R v w \<Longrightarrow> post v (\<lambda>w. w) (AgentTimer_Start a w)"
  unfolding AgentTimer_Start_def by (intro post_rules; assumption)

lemma SetTickInterval_post [post_rules]: "R v w \<Longrightarrow> post v (\<lambda>w. w) (SetTickInterval t a w)"
  unfolding SetTickInterval_def by (intro post_rules; (assumption | simp))

lemma Manager_Wait_post [post_rules]: "R v w \<Longrightarrow> post v (\<lambda>w. w) (Manager_Wait ms w)"
  unfolding Manager_Wait_def by (intro post_rules; assumption)

lemma Manager_WaitAll_post [post_rules]: "R v w \<Longrightarrow> post v snd (Manager_WaitAll args w)"
  unfolding Manager_WaitAll_def by (intro post_rules; assumption)

lemma Manager_StopNode_post [post_rules]: "R v w \<Longrightarrow> post v snd (Manager_StopNode args w)"
  unfolding Manager_StopNode_def by (intro post_rules; assumption)

lemma Manager_StopFlow_post [post_rules]: "R v w \<Longrightarrow> post v snd (Manager_StopFlow args w)"
  unfolding Manager_StopFlow_def by (intro post_rules; assumption)

lemma Agent_WaitEvent_post [post_rules]: "R v w \<Longrightarrow> post v (\<lambda>w. w) (Agent_WaitEvent a n ev w)"
  unfolding Agent_WaitEvent_def by (intro post_rules; assumption)

lemma Manager_WaitEvent_post [post_rules]: "R v w \<Longrightarrow> post v snd (Manager_WaitEvent ao ev w)"
  unfolding Manager_WaitEvent_def by (intro post_rules; assumption)

lemma Py_ContinueAsyncNode_post [post_rules]:
  "P (Py_continue_node ctx cv) \<Longrightarrow> R v w \<Longrightarrow> post v snd (Py_ContinueAsyncNode ctx cv w)"
  unfolding Py_ContinueAsyncNode_def
  by (rule post_bindP, erule (1) prim_continue) (intro post_rules; assumption)

lemma AddChart_post [post_rules]: "R v w \<Longrightarrow> post v snd (AddChart c owner a w)"
  unfolding AddChart_def by (intro post_rules; (assumption | simp))

lemma AttachChart_post [post_rules]:
  "R v w \<Longrightarrow> post v snd (Agent_AttachChart d a w)"
  unfolding Agent_AttachChart_def by (intro post_rules; assumption)

lemma Manager_AttachChart_post [post_rules]: "R v w \<Longrightarrow> post v snd (Manager_AttachChart a name w)"
  unfolding Manager_AttachChart_def by (intro post_rules; assumption)

lemma RemoveChart_post [post_rules]: "R v w \<Longrightarrow> post v snd (RemoveChart name a w)"
  unfolding RemoveChart_def by (intro post_rules; assumption)

lemma StopChart_post [post_rules]: "R v w \<Longrightarrow> post v snd (StopChart name a w)"
  unfolding StopChart_def by (intro post_rules; assumption)

lemma Agent_Stop_post [post_rules]: "R v w \<Longrightarrow> post v (\<lambda>w. w) (Agent_Stop a w)"
  unfolding Agent_Stop_def by (intro post_rules; assumption)

lemma RegisterGameObject_post [post_rules]: "R v w \<Longrightarrow> post v snd (RegisterGameObject obj t w)"
  unfolding RegisterGameObject_def by (intro post_rules; assumption)

subsection \<open>Operations that run nodes\<close>

definition knot_ok :: "'e knot \<Rightarrow> bool" where
  "knot_ok K \<longleftrightarrow> (\<forall>v n w. R v w \<longrightarrow> post v snd (k_run K n w))
     \<and> (\<forall>v f x w. R v w \<longrightarrow> post v (\<lambda>w. w) (k_call K f x w))"

lemma knot_run [post_rules]: "knot_ok K \<Longrightarrow> R v w \<Longrightarrow> post v snd (k_run K n w)"
  by (simp add: knot_ok_def)

lemma knot_call [post_rules]: "knot_ok K \<Longrightarrow> R v w \<Longrightarrow> post v (\<lambda>w. w) (k_call K f x w)"
  by (simp add: knot_ok_def)

lemma local_Pop_post [post_rules]:
  "R v w \<Longrightarrow> (\<And>n cs. R v (w\<lparr>w_cs := cs\<rparr>) \<Longrightarrow> post v p (f n cs)) \<Longrightarrow>
    post v p (do { (n, cs) \<leftarrow> local_Pop (w_cs w); f n cs })"
  using local_pop_law trans unfolding post_def by (fastforce elim!: bind_SomeE)

lemma handle_nodes_post [post_rules]:
  assumes K: "knot_ok K"
  shows "R v w \<Longrightarrow> post v (\<lambda>w. w) (handle_nodes K k w)"
proof (induction k arbitrary: w)
  case 0
  then show ?case by (auto simp: post_def split: list.splits)
next
  case (Suc k)
  have "post v (\<lambda>w. w) (do { (n, cs) \<leftarrow> local_Pop (w_cs w); w \<leftarrow> SetStatus Idle n (w\<lparr>w_cs := cs\<rparr>);
      (_, w) \<leftarrow> k_run K n w; handle_nodes K k w })"
    by (rule local_Pop_post [OF Suc.prems]) (intro post_rules K Suc.IH; assumption)
  with Suc.prems show ?case
    by (auto simp: post_Some split: list.splits)
qed

lemma handleEvent_post [post_rules]:
  "knot_ok K \<Longrightarrow> R v w \<Longrightarrow> post v (\<lambda>w. w) (handleEvent K ev w)"
  unfolding handleEvent_def by (intro post_rules; assumption)

lemma HandleEvent_post [post_rules]:
  assumes "knot_ok K" "R v w"
  shows "post v (\<lambda>w. w) (HandleEvent K ev w)"
proof -
  have "post v (\<lambda>w. w) (do { w \<leftarrow> on_cs (wait_swap k) w; w \<leftarrow> handleEvent K ev w; on_cs local_delete w })" for k
    unfolding post_def
  proof (intro allI impI)
    fix w3
    assume "(do { w \<leftarrow> on_cs (wait_swap k) w; w \<leftarrow> handleEvent K ev w; on_cs local_delete w }) = Some w3"
    then obtain w1 w2 where w1: "on_cs (wait_swap k) w = Some w1" and w2: "handleEvent K ev w1 = Some w2"
      and w3: "on_cs local_delete w2 = Some w3" by (auto elim!: bind_SomeE)
    have "R w1 w2" using handleEvent_post [OF assms(1) refl] w2 by (rule postD)
    then show "R v w3" using handle_law [OF w1 _ w3] assms(2) trans by blast
  qed
  with assms(2) show ?thesis
    by (auto simp: HandleEvent_def post_Some split: option.split)
qed

lemma TriggerEvent_post [post_rules]:
  assumes "knot_ok K" "R v w"
  shows "post v snd (TriggerEvent K ev w)"
proof -
  have "post v snd (do { let prev_ev = w_event w;
      w \<leftarrow> on_cs (wait_swap k) (w\<lparr>w_event_frame := w_event_frame w + 1\<rparr>);
      w \<leftarrow> handleEvent K ev w;
      w \<leftarrow> on_cs local_delete (w\<lparr>w_event_frame := w_event_frame w - 1, w_event := prev_ev\<rparr>);
      Some (True, w) })" for k
    unfolding post_def
  proof (intro allI impI)
    fix r
    assume "(do { let prev_ev = w_event w;
      w \<leftarrow> on_cs (wait_swap k) (w\<lparr>w_event_frame := w_event_frame w + 1\<rparr>);
      w \<leftarrow> handleEvent K ev w;
      w \<leftarrow> on_cs local_delete (w\<lparr>w_event_frame := w_event_frame w - 1, w_event := prev_ev\<rparr>);
      Some (True, w) }) = Some r"
    then obtain w1 w2 w3 where w1: "on_cs (wait_swap k) (w\<lparr>w_event_frame := w_event_frame w + 1\<rparr>) = Some w1"
      and w2: "handleEvent K ev w1 = Some w2"
      and w3: "on_cs local_delete (w2\<lparr>w_event_frame := w_event_frame w2 - 1, w_event := w_event w\<rparr>) = Some w3"
      and r: "r = (True, w3)" by (auto simp: Let_def elim!: bind_SomeE)
    have "R w1 w2" using handleEvent_post [OF assms(1) refl] w2 by (rule postD)
    then show "R v (snd r)" using trigger_law [OF w1 _ w3] assms(2) trans r by auto
  qed
  with assms(2) show ?thesis
    by (auto simp: TriggerEvent_def post_Pair split: option.split)
qed

lemma Manager_Event_post [post_rules]:
  "knot_ok K \<Longrightarrow> R v w \<Longrightarrow> post v snd (Manager_Event K ev ao args imm trig w)"
  unfolding Manager_Event_def by (intro post_rules; (assumption | simp add: prim_upd))

lemma ContinueFlow_post [post_rules]: "knot_ok K \<Longrightarrow> R v w \<Longrightarrow> post v snd (ContinueFlow K n w)"
  unfolding ContinueFlow_def by (intro post_rules; assumption)

lemma Chart_Return_post [post_rules]: "knot_ok K \<Longrightarrow> R v w \<Longrightarrow> post v (\<lambda>w. w) (Chart_Return K b c w)"
  unfolding Chart_Return_def by (intro post_rules; assumption)

lemma InvokeCallback_post [post_rules]:
  "knot_ok K \<Longrightarrow> R v w \<Longrightarrow> post v (\<lambda>w. w) (InvokeCallback H K x c w)"
  unfolding InvokeCallback_def by (intro post_rules; (assumption | simp))

lemma PyChart_Return_bool_post [post_rules]:
  "knot_ok K \<Longrightarrow> R v w \<Longrightarrow> post v (\<lambda>w. w) (PyChart_Return_bool H K b c w)"
  unfolding PyChart_Return_bool_def by (intro post_rules; assumption)

lemma PyChart_Return_post [post_rules]:
  "knot_ok K \<Longrightarrow> R v w \<Longrightarrow> post v (\<lambda>w. w) (PyChart_Return H K x c w)"
  unfolding PyChart_Return_def by (intro post_rules; assumption)

lemma SetArgsFromDict_post [post_rules]: "R v w \<Longrightarrow> post v (\<lambda>w. w) (SetArgsFromDict H dict c w)"
  unfolding SetArgsFromDict_def by (intro post_rules; assumption)

lemma ResetVariables_post [post_rules]: "R v w \<Longrightarrow> post v (\<lambda>w. w) (ResetVariables H c w)"
  unfolding ResetVariables_def by (intro post_rules; assumption)

lemma StartChart_post [post_rules]:
  "knot_ok K \<Longrightarrow> R v w \<Longrightarrow> post v snd (StartChart H K c sync args a w)"
  unfolding StartChart_def by (intro post_rules; assumption)

lemma StartChart_name_post [post_rules]:
  "knot_ok K \<Longrightarrow> R v w \<Longrightarrow> post v snd (StartChart_name H K name a w)"
  unfolding StartChart_name_def by (intro post_rules; assumption)

lemma Agent_Start_post [post_rules]: "knot_ok K \<Longrightarrow> R v w \<Longrightarrow> post v snd (Agent_Start H K a w)"
  unfolding Agent_Start_def
  by (rule post_bind_pure, erule post_foldM_P, simp only: prod.case) (intro post_rules; assumption)

lemma Manager_Subchart_post [post_rules]:
  "knot_ok K \<Longrightarrow> R v w \<Longrightarrow> post v snd (Manager_Subchart H K name ao args w)"
  unfolding Manager_Subchart_def by (intro post_rules; assumption)

subsection \<open>The functions of the module\<close>

lemma PyManager_SetVar_post [post_rules]: "R v w \<Longrightarrow> post v snd (PyManager_SetVar i x w)"
  unfolding PyManager_SetVar_def by (intro post_rules; assumption)

lemma PyManager_Subchart_post [post_rules]:
  "knot_ok K \<Longrightarrow> R v w \<Longrightarrow> post v snd (PyManager_Subchart H K name obj args w)"
  unfolding PyManager_Subchart_def by (intro post_rules; assumption)

lemma PyManager_Return_post [post_rules]:
  "knot_ok K \<Longrightarrow> R v w \<Longrightarrow> post v snd (PyManager_Return H K x w)"
  unfolding PyManager_Return_def by (intro post_rules; assumption)

lemma module_start_post [post_rules]:
  "knot_ok K \<Longrightarrow> R v w \<Longrightarrow> post v snd (module_start H K obj names w)"
  unfolding module_start_def
  by (cases "GetAgent obj w"; cases names; simp only: option.case; (intro post_rules; assumption)?)
     (erule post_foldM_P, simp only: prod.case, intro post_rules; assumption)

lemma module_ops_post [post_rules]:
  "R v w \<Longrightarrow> post v snd (module_stop obj names w)"
  "R v w \<Longrightarrow> post v snd (module_attach obj path params w)"
  "R v w \<Longrightarrow> post v snd (module_wait_event ob ev w)"
  "R v w \<Longrightarrow> post v snd (module_wait seconds w)"
  "R v w \<Longrightarrow> post v snd (module_set_var key x w)"
  "R v w \<Longrightarrow> post v snd (module_get_var key w)"
  "R v w \<Longrightarrow> post v snd (module_wait_all ids w)"
  "R v w \<Longrightarrow> post v snd (module_stop_node ids w)"
  "R v w \<Longrightarrow> post v snd (module_stop_flow ids w)"
  "R v w \<Longrightarrow> post v snd (module_register obj interval w)"
  "R v w \<Longrightarrow> post v snd (module_get_agent obj w)"
  "R v w \<Longrightarrow> post v snd (module_deregister obj w)"
  "R v w \<Longrightarrow> post v snd (module_remove obj path w)"
  "R v w \<Longrightarrow> post v snd (module_time w)"
  unfolding module_stop_def module_attach_def module_wait_event_def module_wait_def
    module_set_var_def module_get_var_def module_wait_all_def module_stop_node_def
    module_stop_flow_def module_register_def module_get_agent_def module_deregister_def
    module_remove_def module_time_def
  by (intro post_rules; (assumption | simp))+

lemma module_knot_post [post_rules]:
  "knot_ok K \<Longrightarrow> R v w \<Longrightarrow> post v snd (module_call_sub H K name obj args w)"
  "knot_ok K \<Longrightarrow> R v w \<Longrightarrow> post v snd (module_event K obj ev args trigger w)"
  unfolding module_call_sub_def module_event_def by (intro post_rules; assumption)+

lemma chart_object_post [post_rules]:
  "knot_ok K \<Longrightarrow> R v w \<Longrightarrow> post v snd (chart_object_start H K c w)"
  "R v w \<Longrightarrow> post v snd (chart_object_stop c w)"
  "R v w \<Longrightarrow> post v snd (chart_object_is_running c w)"
  "R v w \<Longrightarrow> post v snd (chart_object_set_callback H c f w)"
  unfolding chart_object_start_def chart_object_stop_def chart_object_is_running_def
    chart_object_set_callback_def
  by (intro post_rules; (assumption | simp))+

lemma agent_object_post [post_rules]:
  "knot_ok K \<Longrightarrow> R v w \<Longrightarrow> post v snd (agent_object_start H K a w)"
  "R v w \<Longrightarrow> post v snd (agent_object_is_valid a w)"
  "R v w \<Longrightarrow> post v snd (agent_object_attach a path params w)"
  "R v w \<Longrightarrow> post v snd (agent_object_remove a path w)"
  "R v w \<Longrightarrow> post v snd (agent_object_stop a w)"
  "R v w \<Longrightarrow> post v snd (agent_object_get_obj a w)"
  "R v w \<Longrightarrow> post v snd (agent_object_get_chart a path w)"
  "R v w \<Longrightarrow> post v snd (agent_object_get_charts a w)"
  unfolding agent_object_start_def agent_object_is_valid_def agent_object_attach_def
    agent_object_remove_def agent_object_stop_def agent_object_get_obj_def
    agent_object_get_chart_def agent_object_get_charts_def
  by (intro post_rules; (assumption | simp))+

lemma module_dump_post [post_rules]: "R v w \<Longrightarrow> post v snd (module_dump H obj w)"
  by (auto simp: module_dump_def post_def split: option.splits elim!: bind_SomeE)

lemma reply_bool_post [post_rules]: "post v snd m \<Longrightarrow> post v snd (reply_bool m)"
  by (cases m) (auto simp: reply_bool_def post_def)

lemma module_suspend_post:
  "P Py_suspend_node \<Longrightarrow> R v w \<Longrightarrow> post v snd (module_suspend_node w)"
  unfolding module_suspend_node_def by (intro post_rules; assumption)

lemma exec_api_post [post_rules]:
  assumes "P a" "knot_ok K" "R v w"
  shows "post v snd (exec_api H K a w)"
  using assms by (cases a) (simp_all, (intro post_rules module_suspend_post; assumption)+)

lemma run_script_post [post_rules]:
  assumes "knot_ok K"
  shows "calls_only P s \<Longrightarrow> R v w \<Longrightarrow> post v snd (run_script H K s w)"
proof (induction s arbitrary: w)
  case (Call a e k)
  then have "P a" and k: "\<And>r e. calls_only P (k r e)" by simp_all
  show ?case unfolding run_script.simps
    by (intro post_bindP exec_api_post \<open>P a\<close> assms prim_upd Call.prems(2) Call.IH [OF rangeI rangeI] k)
qed (simp_all add: post_Pair prim_upd)

section \<open>Running nodes\<close>

lemma PyNodeFunc_call_post [post_rules]:
  assumes "host_calls_only P H" "knot_ok K" "R v w"
  shows "post v snd (PyNodeFunc_call H K code name a w)"
proof -
  have "calls_only P (h_func H code name self e)" for self e
    using assms(1) by (simp add: host_calls_only_def)
  with assms show ?thesis unfolding PyNodeFunc_call_def
    by - (intro post_rules; (assumption | simp))
qed

lemma post_map_result [post_rules]:
  "post v snd m \<Longrightarrow> post v snd (map_option (\<lambda>(b, w). (result_of_bool b, w)) m)"
  by (cases m) (auto simp: post_def)

lemma NodeFunc_call_post [post_rules]:
  "host_calls_only P H \<Longrightarrow> knot_ok K \<Longrightarrow> R v w \<Longrightarrow> post v snd (NodeFunc_call H K f a w)"
  unfolding NodeFunc_call_def
  by (cases f; simp; (intro PyNodeFunc_call_post post_map_result; assumption)?)
     (rule post_map_result, case_tac x21; simp; intro post_rules; assumption)

lemma Node_Run_post [post_rules]:
  "host_calls_only P H \<Longrightarrow> knot_ok K \<Longrightarrow> R v w \<Longrightarrow> post v (\<lambda>w. w) (Node_Run H K n w)"
  unfolding Node_Run_def by (intro post_rules; assumption)

section \<open>The executors\<close>

lemma push_child_post [post_rules]: "R v w \<Longrightarrow> post v (\<lambda>w. w) (push_child i n c w)"
  unfolding push_child_def by (intro post_rules; assumption)

lemma AddSubsequenceNodes_post [post_rules]:
  "R v w \<Longrightarrow> post v (\<lambda>w. w) (AddSubsequenceNodes i n w)"
  unfolding AddSubsequenceNodes_def by (intro post_rules; assumption)

lemma drain_post [post_rules]: "R v w \<Longrightarrow> post v (\<lambda>w. w) (drain i k w)"
proof (induction k arbitrary: w)
  case (Suc k)
  show ?case unfolding drain.simps using Suc.prems by - (intro post_rules Suc.IH; assumption)
qed (simp add: post_Some)

lemma dfs_pass_post:
  "host_calls_only P H \<Longrightarrow> knot_ok K \<Longrightarrow> R v w \<Longrightarrow> post v snd (dfs_pass H K i (b, w))"
  unfolding dfs_pass_def Let_def prod.case by (intro post_rules; (assumption | rule prim_upd))

lemma dfs_loop_post:
  assumes "host_calls_only P H" "knot_ok K"
  shows "R v w \<Longrightarrow> post v snd (dfs_loop H K i c left (b, w))"
proof (induction left arbitrary: b w)
  case 0
  then show ?case unfolding dfs_loop.simps drain_all_def Let_def prod.case
    by - (intro post_rules; assumption)
next
  case (Suc left)
  have "post v snd (do { s \<leftarrow> dfs_pass H K i (b, w); dfs_loop H K i c left s })"
  proof (cases "dfs_pass H K i (b, w)")
    case (Some s)
    with dfs_pass_post [OF assms Suc.prems] have "R v (snd s)" by (rule postD)
    with Some Suc.IH [of "snd s" "fst s"] show ?thesis by simp
  qed (simp add: post_None)
  with Suc.prems show ?case by (auto simp: post_def split: Option.bind_splits)
qed

lemma restore_history_post [post_rules]: "R v w \<Longrightarrow> post v (\<lambda>w. w) (restore_history i w)"
  unfolding restore_history_def by (intro post_rules; assumption)

lemma finish_chart_post [post_rules]:
  "knot_ok K \<Longrightarrow> R v w \<Longrightarrow> post v (\<lambda>w. w) (finish_chart H K b c w)"
  unfolding finish_chart_def by (intro post_rules; assumption)

lemma Dfs_RunFlow_post:
  "host_calls_only P H \<Longrightarrow> knot_ok K \<Longrightarrow> R v w \<Longrightarrow> post v (\<lambda>w. w) (Dfs_RunFlow H K n w)"
  unfolding Dfs_RunFlow_def by (intro post_rules dfs_loop_post; (assumption | rule prim_upd))

lemma callback_post:
  assumes "host_calls_only P H" "\<And>v n w. R v w \<Longrightarrow> post v snd (run n w)"
  shows "R v w \<Longrightarrow> post v (\<lambda>w. w) (callback H k run f x w)"
proof (induction k arbitrary: v f x w)
  case (Suc k)
  have K: "knot_ok \<lparr>k_run = run, k_call = callback H k run\<rparr>"
    using assms(2) Suc.IH by (simp add: knot_ok_def)
  have "calls_only P (h_call H f x e)" for e using assms(1) by (simp add: host_calls_only_def)
  then show ?case unfolding callback.simps
    by (intro post_map_snd run_script_post K Suc.prems) simp
qed (simp add: post_None)

lemma knot_of_ok:
  assumes "host_calls_only P H" "\<And>v n w. R v w \<Longrightarrow> post v snd (run n w)"
  shows "knot_ok (knot_of H run)"
  using assms(2) callback_post [OF assms] by (simp add: knot_ok_def knot_of_def)

lemma run_flow_post:
  assumes "host_calls_only P H"
  shows "R v w \<Longrightarrow> post v snd (run_flow H free n w)"
proof (induction free arbitrary: v n w)
  case 0
  then show ?case by (simp add: post_def)
next
  case (Suc free)
  let ?w = "w\<lparr>w_index := w_index w + 1\<rparr>"
  let ?K = "knot_of H (run_flow H free)"
  have "knot_ok ?K" using assms Suc.IH by (rule knot_of_ok)
  then have dfs: "post ?w (\<lambda>w. w) (Dfs_RunFlow H ?K n ?w)" by (rule Dfs_RunFlow_post [OF assms _ refl])
  show ?case
  proof (cases "Dfs_RunFlow H ?K n ?w")
    case (Some w')
    then have "R w (w'\<lparr>w_index := w_index w\<rparr>)" using dfs index_law by (simp add: post_def)
    then have "R v (w'\<lparr>w_index := w_index w\<rparr>)" using Suc.prems trans by blast
    with Some Suc.prems show ?thesis by (simp add: post_def Let_def)
  qed (use Suc.prems in \<open>simp add: post_def Let_def\<close>)
qed

lemma RunFlow_post: "host_calls_only P H \<Longrightarrow> R v w \<Longrightarrow> post v snd (RunFlow H n w)"
  unfolding RunFlow_def by (rule run_flow_post)

lemma top_knot_ok: "host_calls_only P H \<Longrightarrow> knot_ok (top_knot H)"
  unfolding top_knot_def by (rule knot_of_ok, assumption, rule RunFlow_post)

text \<open>The two facts the rest of the development uses.\<close>

lemma RunFlow_respects:
  "host_calls_only P H \<Longrightarrow> RunFlow H n w = Some (b, w') \<Longrightarrow> R w w'"
  by (drule RunFlow_post [OF _ refl], drule (1) postD) simp

lemma api_respects:
  "host_calls_only P H \<Longrightarrow> P a \<Longrightarrow> exec_api H (top_knot H) a w = Some (r, w') \<Longrightarrow> R w w'"
  by (drule exec_api_post [OF _ top_knot_ok refl, rotated], assumption, drule (1) postD) simp

end

end
