(* ===== verification/Stopping.thy ===== *)
theory Stopping
  imports Lifecycle
begin

text \<open>
  What stopping a chart does. A well-formed world has enough fuel for every nested stop, so that
  \<open>Chart::Stop\<close> always returns; it leaves the nodes of the chart idle, in no container and without
  a running timer, keeps the structure of charts, and does not touch charts outside the tree of
  subcharts.
\<close>

section \<open>Reading after writing\<close>

lemma upd_chart_Some:
  "upd_chart c f w = Some w' \<longleftrightarrow>
     (\<exists>ch. w_charts w c = Some ch \<and> w' = w\<lparr>w_charts := (w_charts w)(c \<mapsto> f ch)\<rparr>)"
  by (auto simp: upd_chart_def bind_eq_Some_conv)

lemma upd_node_Some:
  "upd_node n f w = Some w' \<longleftrightarrow>
     (\<exists>ch. w_charts w (np_chart n) = Some ch \<and> np_index n < length (nodes ch)
       \<and> w' = w\<lparr>w_charts := (w_charts w)(np_chart n \<mapsto>
             ch\<lparr>nodes := (nodes ch)[np_index n := f (nodes ch ! np_index n)]\<rparr>)\<rparr>)"
  by (auto simp: upd_node_def get_node_def upd_chart_Some bind_eq_Some_conv)

lemma get_node_Some:
  "get_node n w = Some nd \<longleftrightarrow>
     (\<exists>ch. w_charts w (np_chart n) = Some ch \<and> np_index n < length (nodes ch) \<and> nd = nodes ch ! np_index n)"
  by (auto simp: get_node_def bind_eq_Some_conv)

lemma get_upd_node:
  "upd_node n f w = Some w' \<Longrightarrow>
     get_node m w' = (if m = n then map_option f (get_node n w) else get_node m w)"
  by (cases m; cases n) (auto simp: upd_node_Some get_node_def)

lemma upd_node_total: "get_node n w = Some nd \<Longrightarrow> \<exists>w'. upd_node n f w = Some w'"
  by (auto simp: upd_node_Some get_node_Some)

lemma on_cs_Some: "on_cs f w = Some w' \<longleftrightarrow> (\<exists>cs. f (w_cs w) = Some cs \<and> w' = w\<lparr>w_cs := cs\<rparr>)"
  by (auto simp: on_cs_def bind_eq_Some_conv)

lemma get_node_cong: "w_charts w' = w_charts w \<Longrightarrow> get_node n w' = get_node n w"
  by (simp add: get_node_def)

section \<open>Well-formed worlds\<close>

definition subchart_of :: "nptr \<Rightarrow> 'e world \<Rightarrow> nat option" where
  "subchart_of n w =
     (case get_node n w of
        None \<Rightarrow> None
      | Some nd \<Rightarrow> (case attacher nd of Some (Subchart c) \<Rightarrow> Some c | _ \<Rightarrow> None))"

text \<open>Subcharts exist, are owned by their node and were created after its chart; the variables of a
  chart cover those its data declares.\<close>

definition wf_charts :: "'e world \<Rightarrow> bool" where
  "wf_charts w \<longleftrightarrow>
     (\<forall>c ch. w_charts w c = Some ch \<longrightarrow> c < w_next_chart w
        \<and> (\<exists>d. w_datas w (chart_data_ptr ch) = Some d
             \<and> (\<forall>vs. py_variables ch = Some vs \<longrightarrow> variable_count d \<le> length vs)))
   \<and> (\<forall>n c. subchart_of n w = Some c \<longrightarrow> np_chart n < c \<and> w_charts w c \<noteq> None)"

lemma wf_chartsD:
  assumes "wf_charts w" "w_charts w c = Some ch"
  shows "c < w_next_chart w"
    and "\<exists>d. w_datas w (chart_data_ptr ch) = Some d
           \<and> (\<forall>vs. py_variables ch = Some vs \<longrightarrow> variable_count d \<le> length vs)"
  using assms unfolding wf_charts_def by blast+

definition wf_world :: "'e world \<Rightarrow> bool" where
  "wf_world w \<longleftrightarrow> wf_charts w \<and> cs_inv (w_cs w)"

section \<open>What stopping keeps\<close>

text \<open>The shape of a world is the world with everything erased that a stop resets.\<close>

definition shape_attacher :: "attacher \<Rightarrow> attacher" where
  "shape_attacher a = (case a of NodeWaitAll ids \<Rightarrow> NodeWaitAll (reset_ids ids) | _ \<Rightarrow> a)"

definition shape_node :: "node \<Rightarrow> node" where
  "shape_node nd = nd\<lparr>status := Idle, result := rSTOP, run_flag := False, skip := False,
     attacher := map_option shape_attacher (attacher nd)\<rparr>"

definition shape_chart :: "chart \<Rightarrow> chart" where
  "shape_chart ch = ch\<lparr>chart_running := False, nodes := map shape_node (nodes ch),
     py_variables := map_option (\<lambda>vs. replicate (length vs) VNone) (py_variables ch)\<rparr>"

definition shape :: "'e world \<Rightarrow> 'e world" where
  "shape w = w\<lparr>w_charts := (\<lambda>c. map_option shape_chart (w_charts w c)), w_cs := empty_cstore,
     w_wheel := new_wheel\<rparr>"

lemma shape_attacher_sub [simp]: "shape_attacher a = Subchart c \<longleftrightarrow> a = Subchart c"
  by (cases a) (auto simp: shape_attacher_def)

lemma shape_attacher_timer [simp]: "shape_attacher a = NodeTimer ms \<longleftrightarrow> a = NodeTimer ms"
  by (cases a) (auto simp: shape_attacher_def)

lemma shape_sel [simp]:
  "w_datas (shape w) = w_datas w" "w_next_chart (shape w) = w_next_chart w"
  "w_charts (shape w) c = map_option shape_chart (w_charts w c)"
  by (simp_all add: shape_def)

lemma shape_chart_sel [simp]:
  "chart_data_ptr (shape_chart ch) = chart_data_ptr ch" "owner_node (shape_chart ch) = owner_node ch"
  "chart_agent (shape_chart ch) = chart_agent ch" "length (nodes (shape_chart ch)) = length (nodes ch)"
  by (simp_all add: shape_chart_def)

lemma get_node_shape: "get_node n (shape w) = map_option shape_node (get_node n w)"
  by (auto simp: get_node_def shape_chart_def split: Option.bind_split)

lemma subchart_of_shape: "subchart_of n (shape w) = subchart_of n w"
proof -
  have "attacher (shape_node nd) = map_option shape_attacher (attacher nd)" for nd
    by (simp add: shape_node_def)
  then show ?thesis
    by (auto simp: subchart_of_def get_node_shape shape_attacher_def
        split: option.splits attacher.splits)
qed

lemma wf_charts_shape: "wf_charts (shape w) = wf_charts w"
proof -
  have vars: "(\<forall>vs. py_variables (shape_chart ch) = Some vs \<longrightarrow> k \<le> length vs)
      = (\<forall>vs. py_variables ch = Some vs \<longrightarrow> k \<le> length vs)" for ch k
    by (cases "py_variables ch") (auto simp: shape_chart_def)
  have all: "(\<forall>c ch. w_charts (shape w) c = Some ch \<longrightarrow> P c ch)
      = (\<forall>c ch. w_charts w c = Some ch \<longrightarrow> P c (shape_chart ch))" for P
    by auto
  show ?thesis
    unfolding wf_charts_def all by (simp add: subchart_of_shape vars)
qed

definition node_reset :: "nptr \<Rightarrow> 'e world \<Rightarrow> bool" where
  "node_reset n w \<longleftrightarrow>
     (\<exists>nd. get_node n w = Some nd \<and> status nd = Idle \<and> result nd = rSTOP \<and> \<not> run_flag nd \<and> \<not> skip nd)"

definition has_timer :: "nptr \<Rightarrow> 'e world \<Rightarrow> bool" where
  "has_timer n w \<longleftrightarrow> (\<exists>nd ms. get_node n w = Some nd \<and> attacher nd = Some (NodeTimer ms))"

definition node_stopped :: "nptr \<Rightarrow> 'e world \<Rightarrow> bool" where
  "node_stopped n w \<longleftrightarrow> node_reset n w \<and> \<not> contained n (w_cs w)
     \<and> (has_timer n w \<longrightarrow> slot_of (w_wheel w) (TNode n) = None)"

definition stop_rel :: "'e world \<Rightarrow> 'e world \<Rightarrow> bool" where
  "stop_rel w w' \<longleftrightarrow> shape w' = shape w
   \<and> (\<forall>n. node_reset n w \<longrightarrow> node_reset n w')
   \<and> (\<forall>t. slot_of (w_wheel w) t = None \<longrightarrow> slot_of (w_wheel w') t = None)
   \<and> (cs_inv (w_cs w) \<longrightarrow> cs_inv (w_cs w') \<and> (\<forall>n. contained n (w_cs w') \<longrightarrow> contained n (w_cs w)))"

lemma stop_rel_refl [simp]: "stop_rel w w"
  by (simp add: stop_rel_def)

lemma stop_rel_trans [trans]: "stop_rel u v \<Longrightarrow> stop_rel v w \<Longrightarrow> stop_rel u w"
  by (simp add: stop_rel_def)

lemma stop_rel_wf: "stop_rel w w' \<Longrightarrow> wf_world w \<Longrightarrow> wf_world w'"
  by (metis stop_rel_def wf_charts_shape wf_world_def)

lemma stop_rel_next: "stop_rel w w' \<Longrightarrow> w_next_chart w' = w_next_chart w"
  unfolding stop_rel_def by (metis shape_sel(2))

lemma stop_rel_sub: "stop_rel w w' \<Longrightarrow> subchart_of n w' = subchart_of n w"
  unfolding stop_rel_def by (metis subchart_of_shape)

lemma stop_rel_chart: "stop_rel w w' \<Longrightarrow> w_charts w c = Some ch \<Longrightarrow>
    \<exists>ch'. w_charts w' c = Some ch' \<and> shape_chart ch' = shape_chart ch"
  unfolding stop_rel_def by (metis map_option_eq_Some option.simps(9) shape_sel(3))

lemma has_timer_shape: "has_timer n (shape w) = has_timer n w"
  by (auto simp: has_timer_def get_node_shape shape_node_def)

lemma stop_rel_stopped: "stop_rel w w' \<Longrightarrow> cs_inv (w_cs w) \<Longrightarrow> node_stopped n w \<Longrightarrow> node_stopped n w'"
  unfolding stop_rel_def node_stopped_def by (metis has_timer_shape)

section \<open>The steps of a stop\<close>

lemma contained_purge_cs:
  "cs_inv (w_cs w) \<Longrightarrow> on_cs (leave n) w = Some w' \<longleftrightarrow> w' = w\<lparr>w_cs := purge n (w_cs w)\<rparr>"
  by (auto simp: on_cs_Some leave_purge)

lemma shape_upd_node:
  assumes "upd_node n f w = Some w'" "\<And>nd. shape_node (f nd) = shape_node nd"
  shows "shape w' = shape w"
proof -
  obtain ch where ch: "w_charts w (np_chart n) = Some ch" "np_index n < length (nodes ch)"
    and w': "w' = w\<lparr>w_charts := (w_charts w)(np_chart n \<mapsto>
             ch\<lparr>nodes := (nodes ch)[np_index n := f (nodes ch ! np_index n)]\<rparr>)\<rparr>"
    using assms(1) by (auto simp: upd_node_Some)
  have "map shape_node ((nodes ch)[np_index n := f (nodes ch ! np_index n)]) = map shape_node (nodes ch)"
    using ch(2) assms(2) by (simp add: map_update list_update_same_conv)
  then have "shape_chart (ch\<lparr>nodes := (nodes ch)[np_index n := f (nodes ch ! np_index n)]\<rparr>) = shape_chart ch"
    by (simp add: shape_chart_def)
  with ch show ?thesis by (auto simp: w' shape_def fun_eq_iff)
qed

lemma stop_node_rel:
  assumes "upd_node n (\<lambda>nd. nd\<lparr>status := Idle, result := rSTOP, run_flag := False, skip := False\<rparr>) w = Some w'"
  shows "stop_rel w w'"
proof -
  have "w_cs w' = w_cs w" "w_wheel w' = w_wheel w" using assms by (auto simp: upd_node_Some)
  then show ?thesis
    using shape_upd_node [OF assms] get_upd_node [OF assms]
    by (auto simp: stop_rel_def node_reset_def shape_node_def)
qed

lemma reset_attacher_rel:
  assumes "set_attacher (Some (NodeWaitAll (reset_ids ids))) n w = Some w'"
    and "get_node n w = Some nd" "attacher nd = Some (NodeWaitAll ids)"
  shows "stop_rel w w'"
proof -
  let ?f = "\<lambda>nd. nd\<lparr>attacher := Some (NodeWaitAll (reset_ids ids))\<rparr>"
  have upd: "upd_node n (\<lambda>nd'. if nd' = nd then ?f nd else nd') w = Some w'"
    using assms(1,2) by (auto simp: set_attacher_def upd_node_Some get_node_Some)
  have "reset_ids (reset_ids ids) = reset_ids ids" by (auto simp: reset_ids_def)
  then have "shape_node (?f nd) = shape_node nd"
    using assms(3) by (simp add: shape_node_def shape_attacher_def)
  then have "shape w' = shape w" by (intro shape_upd_node [OF upd]) auto
  moreover have "w_cs w' = w_cs w" "w_wheel w' = w_wheel w" using upd by (auto simp: upd_node_Some)
  ultimately show ?thesis
    using get_upd_node [OF upd] assms(2,3)
    by (auto simp: stop_rel_def node_reset_def split: if_splits)
qed

lemma cancel_other: "slot_of wh t = None \<Longrightarrow> slot_of (cancel e wh) t = None"
  by (auto simp: cancel_def relink_def Let_def slot_set_def split: option.splits)

lemma cancel_self: "slot_of (cancel e wh) e = None"
  by (auto simp: cancel_def relink_def Let_def slot_set_def split: option.splits)

lemma cancel_rel: "stop_rel w (cancel_timer t w)"
  by (auto simp: stop_rel_def cancel_timer_def shape_def node_reset_def get_node_def cancel_other)

lemma leave_rel:
  assumes "on_cs (leave n) w = Some w'"
  shows "stop_rel w w'"
proof -
  have "shape w' = shape w" using assms by (auto simp: on_cs_Some shape_def)
  moreover have "cs_inv (w_cs w) \<Longrightarrow> w' = w\<lparr>w_cs := purge n (w_cs w)\<rparr>"
    using assms by (simp add: contained_purge_cs)
  ultimately show ?thesis
    using assms
    by (auto simp: on_cs_Some stop_rel_def node_reset_def purge_inv purge_contained get_node_def)
qed

lemma set_running_rel:
  assumes "set_running False c w = Some w'"
  shows "stop_rel w w'"
  using assms
  by (auto simp: set_running_def upd_chart_Some stop_rel_def shape_def fun_eq_iff shape_chart_def
      node_reset_def get_node_def split: if_splits)

lemma clear_variables_rel:
  assumes "ClearVariables c w = Some w'"
  shows "stop_rel w w'"
proof -
  obtain k ch where k: "GetVarCount c w = Some k" and ch: "w_charts w c = Some ch"
    using assms by (auto simp: ClearVariables_def bind_eq_Some_conv)
  have w': "w' = w \<or> (\<exists>vs vs'. py_variables ch = Some vs \<and> none_upto k vs = Some vs'
        \<and> upd_chart c (\<lambda>ch. ch\<lparr>py_variables := Some vs'\<rparr>) w = Some w')"
    using assms k ch by (cases "py_variables ch") (auto simp: ClearVariables_def bind_eq_Some_conv)
  have "length vs' = length vs" if "none_upto k vs = Some vs'" for vs vs'
    using that by (auto simp: none_upto_def split: if_splits)
  with w' ch show ?thesis
    by (auto simp: upd_chart_Some stop_rel_def shape_def fun_eq_iff shape_chart_def
      node_reset_def get_node_def split: if_splits)
qed

section \<open>Stopping a node and a chart\<close>

lemma same_timer: "stop_rel w w' \<Longrightarrow> has_timer n w' = has_timer n w"
  unfolding stop_rel_def by (metis has_timer_shape)

lemma attacher_rel:
  assumes "\<And>c w w'. stop c w = Some w' \<Longrightarrow> stop_rel w w'"
    and "get_node n w = Some nd" "attacher nd = Some a" "Attacher_Stop stop a n w = Some w'"
  shows "stop_rel w w' \<and> (has_timer n w \<longrightarrow> slot_of (w_wheel w') (TNode n) = None)"
proof (cases a)
  case (NodeTimer ms)
  with assms(4) have "w' = cancel_timer (TNode n) w" by (simp add: Attacher_Stop_def)
  then show ?thesis using cancel_rel cancel_self by (auto simp: cancel_timer_def)
next
  case (Subchart c)
  with assms show ?thesis by (auto simp: Attacher_Stop_def has_timer_def)
next
  case (NodeWaitAll ids)
  with assms(2-4) have "stop_rel w w'"
    by (intro reset_attacher_rel) (auto simp: Attacher_Stop_def)
  with NodeWaitAll assms(2,3) show ?thesis by (auto simp: has_timer_def)
qed

lemma Node_Stop_with_rel:
  assumes rec: "\<And>c w w'. stop c w = Some w' \<Longrightarrow> stop_rel w w'"
    and run: "Node_Stop_with stop n w = Some w'"
  shows "stop_rel w w' \<and> (cs_inv (w_cs w) \<longrightarrow> node_stopped n w')"
proof -
  let ?f = "\<lambda>nd. nd\<lparr>status := Idle, result := rSTOP, run_flag := False, skip := False\<rparr>"
  from run obtain w1 nd w2 where w1: "upd_node n ?f w = Some w1" and nd: "get_node n w1 = Some nd"
    and w2: "(case attacher nd of None \<Rightarrow> Some w1 | Some a \<Rightarrow> Attacher_Stop stop a n w1) = Some w2"
    and w3: "on_cs (leave n) w2 = Some w'"
    by (auto simp: Node_Stop_with_def elim!: bind_SomeE)
  have r1: "stop_rel w w1" by (rule stop_node_rel [OF w1])
  have "stop_rel w1 w2 \<and> (has_timer n w1 \<longrightarrow> slot_of (w_wheel w2) (TNode n) = None)"
  proof (cases "attacher nd")
    case None
    with w2 nd show ?thesis by (auto simp: has_timer_def)
  next
    case (Some a)
    with w2 show ?thesis by (intro attacher_rel [OF rec nd]) auto
  qed
  then have r2: "stop_rel w1 w2" and t2: "has_timer n w1 \<longrightarrow> slot_of (w_wheel w2) (TNode n) = None" by auto
  have r3: "stop_rel w2 w'" by (rule leave_rel [OF w3])
  have rel: "stop_rel w w'" using r1 r2 r3 stop_rel_trans by blast
  have "node_stopped n w'" if inv: "cs_inv (w_cs w)"
  proof -
    obtain nd0 where "get_node n w1 = Some (?f nd0)"
      using get_upd_node [OF w1, of n] nd by (cases "get_node n w") auto
    then have "node_reset n w1" by (auto simp: node_reset_def)
    then have "node_reset n w'" using r2 r3 by (simp add: stop_rel_def)
    moreover have "cs_inv (w_cs w2)" using inv r1 r2 by (simp add: stop_rel_def)
    then have "\<not> contained n (w_cs w')" using w3 by (auto simp: contained_purge_cs purge_contained)
    moreover have "has_timer n w' \<longrightarrow> slot_of (w_wheel w') (TNode n) = None"
      using t2 r2 r3 by (metis same_timer stop_rel_def)
    ultimately show ?thesis by (simp add: node_stopped_def)
  qed
  with rel show ?thesis by blast
qed

lemma foldM_stop:
  assumes rel: "\<And>i w w'. i \<in> set xs \<Longrightarrow> f i w = Some w' \<Longrightarrow>
      stop_rel w w' \<and> (cs_inv (w_cs w) \<longrightarrow> node_stopped (g i) w')"
    and run: "foldM f xs w = Some w'"
  shows "stop_rel w w' \<and> (cs_inv (w_cs w) \<longrightarrow> (\<forall>i \<in> set xs. node_stopped (g i) w'))"
  using assms
proof (induction xs arbitrary: w)
  case (Cons x xs)
  from Cons.prems(2) obtain w1 where w1: "f x w = Some w1" and rest: "foldM f xs w1 = Some w'"
    by (auto elim: bind_SomeE)
  have a: "stop_rel w w1 \<and> (cs_inv (w_cs w) \<longrightarrow> node_stopped (g x) w1)"
    by (rule Cons.prems(1) [OF _ w1]) simp
  have b: "stop_rel w1 w' \<and> (cs_inv (w_cs w1) \<longrightarrow> (\<forall>i \<in> set xs. node_stopped (g i) w'))"
    by (rule Cons.IH [OF Cons.prems(1) rest]) simp_all
  show ?case
  proof (intro conjI impI)
    show "stop_rel w w'" using a b stop_rel_trans by blast
    assume inv: "cs_inv (w_cs w)"
    then have inv1: "cs_inv (w_cs w1)" using a by (simp add: stop_rel_def)
    then have "node_stopped (g x) w'" using a b inv stop_rel_stopped by blast
    with b inv1 show "\<forall>i \<in> set (x # xs). node_stopped (g i) w'" by simp
  qed
qed simp

definition chart_stopped :: "nat \<Rightarrow> 'e world \<Rightarrow> bool" where
  "chart_stopped c w \<longleftrightarrow>
     (\<exists>ch. w_charts w c = Some ch \<and> \<not> chart_running ch
       \<and> (\<forall>i < length (nodes ch). node_stopped (NP c i) w))"

lemma Chart_Stop_fuel_rel:
  fixes w w' :: "'e world"
  shows "Chart_Stop_fuel f c w = Some w' \<Longrightarrow> stop_rel w w' \<and> (cs_inv (w_cs w) \<longrightarrow> chart_stopped c w')"
proof (induction f arbitrary: c w w')
  case (Suc f)
  from Suc.prems obtain ch w1 w2 where ch: "w_charts w c = Some ch"
    and w1: "foldM (\<lambda>i. Node_Stop_with (Chart_Stop_fuel f) (NP c i)) [0..<length (nodes ch)] w = Some w1"
    and w2: "set_running False c w1 = Some w2" and w3: "ClearVariables c w2 = Some w'"
    by (auto elim!: bind_SomeE)
  have fold: "stop_rel w w1 \<and> (cs_inv (w_cs w) \<longrightarrow> (\<forall>i \<in> set [0..<length (nodes ch)]. node_stopped (NP c i) w1))"
  proof (rule foldM_stop [OF _ w1])
    have rec: "\<And>d (u :: 'e world) u'. Chart_Stop_fuel f d u = Some u' \<Longrightarrow> stop_rel u u'"
      using Suc.IH by blast
    fix i and v v' :: "'e world"
    assume run: "Node_Stop_with (Chart_Stop_fuel f) (NP c i) v = Some v'"
    show "stop_rel v v' \<and> (cs_inv (w_cs v) \<longrightarrow> node_stopped (NP c i) v')"
      by (rule Node_Stop_with_rel [OF rec run])
  qed
  have r2: "stop_rel w1 w2" by (rule set_running_rel [OF w2])
  have r3: "stop_rel w2 w'" by (rule clear_variables_rel [OF w3])
  have rel: "stop_rel w w'" using fold r2 r3 stop_rel_trans by blast
  have "chart_stopped c w'" if inv: "cs_inv (w_cs w)"
  proof -
    obtain ch' where ch': "w_charts w' c = Some ch'" "shape_chart ch' = shape_chart ch"
      using stop_rel_chart [OF rel ch] by blast
    then have len: "length (nodes ch') = length (nodes ch)" by (metis shape_chart_sel(4))
    obtain ch2 where ch2: "w_charts w2 c = Some ch2" "\<not> chart_running ch2"
      using w2 by (auto simp: set_running_def upd_chart_Some)
    then have "\<not> chart_running ch'" using w3 ch'
      by (auto simp: ClearVariables_def upd_chart_Some bind_eq_Some_conv split: option.splits)
    moreover have "cs_inv (w_cs w1)" "cs_inv (w_cs w2)" using inv fold r2 by (auto simp: stop_rel_def)
    then have "node_stopped (NP c i) w'" if "i < length (nodes ch)" for i
      using fold inv r2 r3 that stop_rel_stopped by (metis atLeast0LessThan lessThan_iff set_upt)
    ultimately show ?thesis using ch' len by (auto simp: chart_stopped_def)
  qed
  with rel show ?case by blast
qed simp

section \<open>A stop always returns\<close>

lemma clear_variables_total:
  assumes "wf_charts w" "w_charts w c = Some ch"
  shows "\<exists>w'. ClearVariables c w = Some w'"
proof -
  obtain d where "w_datas w (chart_data_ptr ch) = Some d"
    "\<forall>vs. py_variables ch = Some vs \<longrightarrow> variable_count d \<le> length vs"
    using wf_chartsD(2) [OF assms] by blast
  with assms(2) show ?thesis
    by (cases "py_variables ch")
      (auto simp: ClearVariables_def GetVarCount_def chart_data_of_def none_upto_def upd_chart_def)
qed

lemma Node_Stop_with_total:
  assumes wf: "wf_world w" and nd: "get_node n w = Some nd"
    and rec: "\<And>c w. wf_world w \<Longrightarrow> w_charts w c \<noteq> None \<Longrightarrow> np_chart n < c
      \<Longrightarrow> w_next_chart w = k \<Longrightarrow> \<exists>w'. stop c w = Some w'"
    and k: "w_next_chart w = k"
    and rel: "\<And>c w w'. stop c w = Some w' \<Longrightarrow> stop_rel w w'"
  shows "\<exists>w'. Node_Stop_with stop n w = Some w'"
proof -
  let ?f = "\<lambda>nd. nd\<lparr>status := Idle, result := rSTOP, run_flag := False, skip := False\<rparr>"
  obtain w1 where w1: "upd_node n ?f w = Some w1" using upd_node_total [OF nd] by blast
  then have r1: "stop_rel w w1" by (rule stop_node_rel)
  then have wf1: "wf_world w1" and k1: "w_next_chart w1 = k"
    using wf k stop_rel_wf stop_rel_next by (blast, metis)
  have nd1: "get_node n w1 = Some (?f nd)" using get_upd_node [OF w1, of n] nd by simp
  have "\<exists>w2. (case attacher (?f nd) of None \<Rightarrow> Some w1 | Some a \<Rightarrow> Attacher_Stop stop a n w1) = Some w2"
  proof (cases "attacher nd")
    case (Some a)
    show ?thesis
    proof (cases a)
      case (Subchart c)
      with Some nd1 have "subchart_of n w1 = Some c" by (simp add: subchart_of_def)
      then have "np_chart n < c" "w_charts w1 c \<noteq> None"
        using wf1 by (auto simp: wf_world_def wf_charts_def)
      then obtain w2 where "stop c w1 = Some w2" using rec wf1 k1 by blast
      with Some Subchart show ?thesis by (simp add: Attacher_Stop_def)
    next
      case (NodeWaitAll ids)
      with Some show ?thesis
        using upd_node_total [OF nd1] by (simp add: Attacher_Stop_def set_attacher_def)
    qed (simp add: Some Attacher_Stop_def)
  qed simp
  then obtain w2 where
    w2: "(case attacher (?f nd) of None \<Rightarrow> Some w1 | Some a \<Rightarrow> Attacher_Stop stop a n w1) = Some w2" ..
  have r2: "stop_rel w1 w2"
  proof (cases "attacher (?f nd)")
    case (Some a)
    with w2 show ?thesis using attacher_rel [OF rel nd1] by auto
  qed (use w2 in simp)
  then have "cs_inv (w_cs w2)" using wf1 by (simp add: stop_rel_def wf_world_def)
  then have "\<exists>w3. on_cs (leave n) w2 = Some w3" by (simp add: contained_purge_cs)
  with w1 nd1 w2 show ?thesis by (auto simp: Node_Stop_with_def)
qed

lemma foldM_total:
  assumes "\<And>i w. i \<in> set xs \<Longrightarrow> P w \<Longrightarrow> \<exists>w'. f i w = Some w' \<and> P w'" "P w"
  shows "\<exists>w'. foldM f xs w = Some w' \<and> P w'"
  using assms
proof (induction xs arbitrary: w)
  case (Cons x xs)
  then obtain w1 where "f x w = Some w1" "P w1" by (meson list.set_intros(1))
  moreover from this(2) have "\<exists>w'. foldM f xs w1 = Some w' \<and> P w'"
    by (intro Cons.IH Cons.prems(1)) simp_all
  ultimately show ?case by simp
qed simp

lemma Chart_Stop_fuel_total:
  fixes w :: "'e world"
  assumes "wf_world w" "w_charts w c \<noteq> None" "w_next_chart w \<le> c + f"
  shows "\<exists>w'. Chart_Stop_fuel f c w = Some w'"
  using assms
proof (induction f arbitrary: c w)
  case 0
  then show ?case using wf_chartsD(1) by (fastforce simp: wf_world_def)
next
  case (Suc f)
  obtain ch where ch: "w_charts w c = Some ch" using Suc.prems(2) by blast
  have rel: "\<And>d (u :: 'e world) u'. Chart_Stop_fuel f d u = Some u' \<Longrightarrow> stop_rel u u'"
    using Chart_Stop_fuel_rel by blast
  let ?P = "\<lambda>v. stop_rel w v"
  have "\<exists>v'. foldM (\<lambda>i. Node_Stop_with (Chart_Stop_fuel f) (NP c i)) [0..<length (nodes ch)] w = Some v' \<and> ?P v'"
  proof (rule foldM_total)
    fix i and v :: "'e world"
    assume i: "i \<in> set [0..<length (nodes ch)]" and v: "?P v"
    obtain ch' where ch': "w_charts v c = Some ch'" "shape_chart ch' = shape_chart ch"
      using stop_rel_chart [OF v ch] by blast
    then have "length (nodes ch') = length (nodes ch)" by (metis shape_chart_sel(4))
    with i ch' obtain nd where nd: "get_node (NP c i) v = Some nd" by (auto simp: get_node_Some)
    have wf: "wf_world v" using v Suc.prems(1) stop_rel_wf by blast
    have "\<exists>v'. Node_Stop_with (Chart_Stop_fuel f) (NP c i) v = Some v'"
    proof (rule Node_Stop_with_total [OF wf nd])
      fix d and u :: "'e world"
      assume "wf_world u" "w_charts u d \<noteq> None" "np_chart (NP c i) < d" "w_next_chart u = w_next_chart w"
      then show "\<exists>u'. Chart_Stop_fuel f d u = Some u'" using Suc.prems(3) by (intro Suc.IH) auto
    qed (use v stop_rel_next rel in auto)
    then obtain v' where v': "Node_Stop_with (Chart_Stop_fuel f) (NP c i) v = Some v'" ..
    have "stop_rel v v'" by (rule conjunct1 [OF Node_Stop_with_rel [OF rel v']])
    with v v' show "\<exists>v'. Node_Stop_with (Chart_Stop_fuel f) (NP c i) v = Some v' \<and> ?P v'"
      using stop_rel_trans by blast
  qed simp
  then obtain v where v: "foldM (\<lambda>i. Node_Stop_with (Chart_Stop_fuel f) (NP c i)) [0..<length (nodes ch)] w = Some v"
    and relv: "stop_rel w v" by blast
  obtain ch1 where ch1: "w_charts v c = Some ch1" using stop_rel_chart [OF relv ch] by blast
  then obtain v2 where v2: "set_running False c v = Some v2" by (auto simp: set_running_def upd_chart_def)
  then have rel2: "stop_rel w v2" using relv set_running_rel stop_rel_trans by blast
  have "wf_charts v2" using rel2 Suc.prems(1) stop_rel_wf wf_world_def by blast
  moreover obtain ch2 where "w_charts v2 c = Some ch2" using stop_rel_chart [OF rel2 ch] by blast
  ultimately obtain v3 where "ClearVariables c v2 = Some v3" using clear_variables_total by blast
  with ch v v2 show ?case by simp
qed

lemma Chart_Stop_total:
  "wf_world w \<Longrightarrow> w_charts w c \<noteq> None \<Longrightarrow> \<exists>w'. Chart_Stop c w = Some w'"
  unfolding Chart_Stop_def by (rule Chart_Stop_fuel_total) auto

lemma Chart_Stop_rel:
  "Chart_Stop c w = Some w' \<Longrightarrow> stop_rel w w' \<and> (cs_inv (w_cs w) \<longrightarrow> chart_stopped c w')"
  unfolding Chart_Stop_def by (rule Chart_Stop_fuel_rel)

lemma Chart_Stop_fuel_stop_rel: "Chart_Stop_fuel f c w = Some w' \<Longrightarrow> stop_rel w w'"
  using Chart_Stop_fuel_rel by blast

lemma Node_Stop_rel:
  assumes "Node_Stop n w = Some w'"
  shows "stop_rel w w' \<and> (cs_inv (w_cs w) \<longrightarrow> node_stopped n w')"
  using assms unfolding Node_Stop_def
  by (rule Node_Stop_with_rel [rotated]) (rule Chart_Stop_fuel_stop_rel)

lemma Node_Stop_total:
  assumes "wf_world w" "get_node n w = Some nd"
  shows "\<exists>w'. Node_Stop n w = Some w'"
  unfolding Node_Stop_def
  by (rule Node_Stop_with_total [OF assms, where k = "w_next_chart w"])
    (auto intro: Chart_Stop_fuel_total Chart_Stop_fuel_stop_rel)

section \<open>Properties\<close>

text \<open>C14. Stopping a chart of a well-formed world returns, keeps the world well-formed with the same
  structure of charts, and leaves the chart not running, every node of it idle with result
  \<open>rSTOP\<close> and flags cleared, in no container, and its timer, if it has one, not scheduled.\<close>

theorem chart_stop_stops:
  assumes "wf_world w" "w_charts w c \<noteq> None"
  shows "\<exists>w'. Chart_Stop c w = Some w' \<and> chart_stopped c w' \<and> wf_world w' \<and> shape w' = shape w"
proof -
  obtain w' where w': "Chart_Stop c w = Some w'" using Chart_Stop_total [OF assms] ..
  then have "stop_rel w w'" "chart_stopped c w'"
    using Chart_Stop_rel assms(1) by (auto simp: wf_world_def)
  with w' assms(1) show ?thesis by (auto simp: stop_rel_wf) (auto simp: stop_rel_def)
qed

end
