(* ===== verification/Step_Rel.thy ===== *)
theory Step_Rel
  imports Engine_Rel Stopping
begin

text \<open>
  A relation respected by the smallest steps of stopping and destroying
  (one field of a node, one removal from a container, one chart freed) is respected by the whole
  of it, and so by everything the engine does.
\<close>

section \<open>From single steps to stopping and destroying\<close>

locale quiet_rel =
  fixes R :: "'e world \<Rightarrow> 'e world \<Rightarrow> bool"
  assumes refl: "R w w"
    and trans: "R u v \<Longrightarrow> R v w \<Longrightarrow> R u w"
    and node_law: "upd_node n f w = Some w' \<Longrightarrow> R w w'"
    and chart_law: "upd_chart c g w = Some w' \<Longrightarrow>
      (\<And>ch. nodes (g ch) = nodes ch \<and> owner_node (g ch) = owner_node ch
        \<and> chart_data_ptr (g ch) = chart_data_ptr ch) \<Longrightarrow> R w w'"
    and agent_law: "upd_agent a h w = Some w' \<Longrightarrow>
      (\<And>ag. agent_id (h ag) = agent_id ag \<and> game_object (h ag) = game_object ag
        \<and> agent_status (h ag) = agent_status ag) \<Longrightarrow> R w w'"
    and cancel_timer_law: "R w (cancel_timer t w)"
    and leave_law: "on_cs (leave n) w = Some w' \<Longrightarrow> R w w'"
    and free_law: "R w (w\<lparr>w_charts := (w_charts w)(c := None)\<rparr>)"
begin

lemma ClearVariables_step:
  assumes "ClearVariables c w = Some w'"
  shows "R w w'"
proof -
  have "w' = w \<or> (\<exists>vs. upd_chart c (\<lambda>ch. ch\<lparr>py_variables := vs\<rparr>) w = Some w')"
    using assms by (auto simp: ClearVariables_def split: option.splits elim!: bind_SomeE)
  then show ?thesis using refl chart_law by fastforce
qed

lemma set_running_step: "set_running b c w = Some w' \<Longrightarrow> R w w'"
  unfolding set_running_def by (erule chart_law) simp

lemma set_agent_step: "set_agent x c w = Some w' \<Longrightarrow> R w w'"
  unfolding set_agent_def by (erule chart_law) simp

lemma set_attacher_step: "set_attacher x n w = Some w' \<Longrightarrow> R w w'"
  unfolding set_attacher_def by (erule node_law)

lemma Node_Stop_with_step:
  assumes "\<And>c w w'. stop c w = Some w' \<Longrightarrow> R w w'" "Node_Stop_with stop n w = Some w'"
  shows "R w w'"
proof -
  from assms(2) obtain w1 and nd :: node and w2 where
    w1: "upd_node n (\<lambda>nd. nd\<lparr>status := Idle, result := rSTOP, run_flag := False, skip := False\<rparr>) w = Some w1"
    and w2: "(case attacher nd of None \<Rightarrow> Some w1 | Some a \<Rightarrow> Attacher_Stop stop a n w1) = Some w2"
    and w': "on_cs (leave n) w2 = Some w'"
    unfolding Node_Stop_with_def by (elim bind_SomeE) (rule that)
  have "R w1 w2" using w2 assms(1) cancel_timer_law refl
    by (auto simp: Attacher_Stop_def intro: set_attacher_step split: option.splits attacher.splits)
  with node_law [OF w1] leave_law [OF w'] show ?thesis using trans by blast
qed

lemma Chart_Stop_fuel_step: "Chart_Stop_fuel f c w = Some w' \<Longrightarrow> R w w'"
proof (induction f arbitrary: c w w')
  case (Suc f)
  then obtain ch :: chart and w1 w2 where
    w1: "foldM (\<lambda>i. Node_Stop_with (Chart_Stop_fuel f) (NP c i)) [0..<length (nodes ch)] w = Some w1"
    and w2: "set_running False c w1 = Some w2" and w': "ClearVariables c w2 = Some w'"
    by (auto elim!: bind_SomeE)
  have "R w w1" by (rule foldM_rel [OF refl trans _ w1]) (auto intro: Node_Stop_with_step Suc.IH)
  then show ?case using set_running_step [OF w2] ClearVariables_step [OF w'] trans by blast
qed simp

lemma Node_Stop_fuel_step: "Node_Stop_with (Chart_Stop_fuel f) n w = Some w' \<Longrightarrow> R w w'"
  by (rule Node_Stop_with_step [OF Chart_Stop_fuel_step])

lemma delete_attacher_step:
  assumes "\<And>c w w'. del c w = Some w' \<Longrightarrow> R w w'" "delete_attacher del a n w = Some w'"
  shows "R w w'"
  using assms cancel_timer_law refl by (auto simp: delete_attacher_def split: attacher.splits)

lemma SetAttacher_with_step:
  assumes "\<And>c w w'. del c w = Some w' \<Longrightarrow> R w w'" "SetAttacher_with del a n w = Some w'"
  shows "R w w'"
proof -
  from assms(2) obtain nd :: node and w1 where
    w1: "(case attacher nd of None \<Rightarrow> Some w | Some old \<Rightarrow> delete_attacher del old n w) = Some w1"
    and w': "set_attacher a n w1 = Some w'"
    unfolding SetAttacher_with_def by (elim bind_SomeE) (rule that)
  have "R w w1" using w1 refl delete_attacher_step [OF assms(1)] by (auto split: option.splits)
  with set_attacher_step [OF w'] show ?thesis using trans by blast
qed

lemma EraseChart_step: "EraseChart a c w = Some (b, w') \<Longrightarrow> R w w'"
proof -
  assume "EraseChart a c w = Some (b, w')"
  then have "w' = w \<or> (\<exists>w1 d. set_agent None c w = Some w1
      \<and> upd_agent a (\<lambda>ag. ag\<lparr>chart_dict := d ag\<rparr>) w1 = Some w')"
    by (fastforce simp: EraseChart_def elim!: bind_SomeE split: option.splits if_splits)
  moreover have "upd_agent a (\<lambda>ag. ag\<lparr>chart_dict := d ag\<rparr>) w1 = Some w' \<Longrightarrow> R w1 w'" for d w1
    by (erule agent_law) simp
  ultimately show "R w w'" using refl trans set_agent_step by blast
qed

lemma delete_chart_fuel_step: "delete_chart_fuel f c w = Some w' \<Longrightarrow> R w w'"
proof (induction f arbitrary: c w w')
  case (Suc f)
  then obtain w1 w2 w3 w4 and ch ch2 :: chart where w1: "ClearVariables c w = Some w1"
    and w2: "foldM (\<lambda>i. delete_node f (delete_chart_fuel f) (NP c i)) [0..<length (nodes ch)] w1 = Some w2"
    and w3: "(case chart_agent ch2 of None \<Rightarrow> Some w2 | Some a \<Rightarrow> map_option snd (EraseChart a c w2)) = Some w3"
    and w4: "(case owner_node ch2 of None \<Rightarrow> Some w3 | Some n \<Rightarrow> set_attacher None n w3) = Some w4"
    and w': "w' = w4\<lparr>w_charts := (w_charts w4)(c := None)\<rparr>"
    by (auto elim!: bind_SomeE)
  have "R w1 w2"
  proof (rule foldM_rel [OF refl trans _ w2])
    fix i and s t :: "'e world"
    assume "delete_node f (delete_chart_fuel f) (NP c i) s = Some t"
    then obtain u where "Node_Stop_with (Chart_Stop_fuel f) (NP c i) s = Some u"
      and "SetAttacher_with (delete_chart_fuel f) None (NP c i) u = Some t"
      by (auto simp: delete_node_def elim!: bind_SomeE)
    then have "R s u" "R u t"
      using Suc.IH by (auto intro: Node_Stop_fuel_step SetAttacher_with_step)
    then show "R s t" by (rule trans)
  qed
  moreover have "R w2 w3" using w3 refl EraseChart_step by (auto split: option.splits)
  moreover have "R w3 w4" using w4 refl set_attacher_step by (auto split: option.splits)
  ultimately show ?case
    using ClearVariables_step [OF w1] free_law [of w4 c] trans unfolding w' by blast
qed simp

lemma delete_chart_list_step: "delete_chart_list a name k w = Some w' \<Longrightarrow> R w w'"
proof (induction k arbitrary: w)
  case 0
  then show ?case using refl by (auto elim!: bind_SomeE)
next
  case (Suc k)
  then obtain ag :: agent and cs where cs: "(if cs = [] then Some w
      else do { ch \<leftarrow> w_charts w (last cs);
                w \<leftarrow> (case owner_node ch of Some n \<Rightarrow> SetAttacher None n w | None \<Rightarrow> delete_chart (last cs) w);
                delete_chart_list a name k w }) = Some w'"
    unfolding delete_chart_list.simps by (elim bind_SomeE) (rule that)
  show ?case
  proof (cases "cs = []")
    case False
    with cs obtain ch :: chart and w1 where w1: "(case owner_node ch of Some n \<Rightarrow> SetAttacher None n w
        | None \<Rightarrow> delete_chart (last cs) w) = Some w1" and w': "delete_chart_list a name k w1 = Some w'"
      by (simp only: if_False) (elim bind_SomeE, rule that)
    have "R w w1"
      using w1 SetAttacher_with_step [OF delete_chart_fuel_step] delete_chart_fuel_step
      by (auto simp: SetAttacher_def delete_chart_def split: option.splits)
    with Suc.IH [OF w'] show ?thesis using trans by blast
  qed (use cs refl in simp)
qed

lemma foldM_Chart_Stop_step: "foldM Chart_Stop cs w = Some w' \<Longrightarrow> R w w'"
  by (rule foldM_rel [OF refl trans]) (auto simp: Chart_Stop_def intro: Chart_Stop_fuel_step)

end

locale step_rel = world_rel R P
  for R :: "'e world \<Rightarrow> 'e world \<Rightarrow> bool" and P :: "api \<Rightarrow> bool" +
  assumes leave_law: "on_cs (leave n) w = Some w' \<Longrightarrow> R w w'"
    and free_law: "R w (w\<lparr>w_charts := (w_charts w)(c := None)\<rparr>)"
    and exec_remove_law: "cs_of (w_cs w) n = None \<Longrightarrow> on_cs (\<lambda>cs. Some (Exec_Remove i n cs)) w = Some w' \<Longrightarrow> R w w'"

sublocale step_rel \<subseteq> quiet: quiet_rel R
  by unfold_locales
    (blast intro: refl trans node_law chart_law agent_law cancel_timer_law leave_law free_law)+

context step_rel
begin

lemma stop_and_remove_step:
  assumes "stop_and_remove n w = Some w'"
  shows "R w w'"
proof -
  from assms obtain w1 where w1: "Node_Stop n w = Some w1"
    and w': "on_cs (\<lambda>cs. Some (Exec_Remove (w_index w1) n cs)) w1 = Some w'"
    by (auto simp: stop_and_remove_def executor_Remove_def elim!: bind_SomeE)
  obtain w2 where "on_cs (leave n) w2 = Some w1"
    using w1 by (auto simp: Node_Stop_def Node_Stop_with_def elim!: bind_SomeE)
  then have "cs_of (w_cs w1) n = None" by (auto simp: on_cs_Some intro: leave_of)
  moreover have "R w w1"
    using w1 unfolding Node_Stop_def by (rule quiet.Node_Stop_fuel_step)
  ultimately show ?thesis using exec_remove_law [OF _ w'] trans by blast
qed

end

sublocale step_rel \<subseteq> engine_rel
  by unfold_locales
    (auto simp: Node_Stop_def Chart_Stop_def SetAttacher_def delete_chart_def
      intro: quiet.Node_Stop_fuel_step quiet.Chart_Stop_fuel_step quiet.SetAttacher_with_step
        quiet.delete_chart_fuel_step stop_and_remove_step)

end
