(* ===== verification/Engine_Frame.thy ===== *)
theory Engine_Frame
  imports Step_Rel
begin

text \<open>
  What nothing that runs inside the engine can change, whatever the scripts do: the executor that
  is current, the nesting of events, the settings, the chart data, the clock of the timers, and the
  identity of the agents, which are neither freed nor renamed and never come back to life once they
  are being destroyed.
\<close>

section \<open>What no script can change\<close>

text \<open>Every primitive operation is an update of some fields of the world.\<close>

lemma upd_agent_Some:
  "upd_agent a h w = Some w' \<longleftrightarrow>
     (\<exists>ag. w_agents w a = Some ag \<and> w' = w\<lparr>w_agents := (w_agents w)(a \<mapsto> h ag)\<rparr>)"
  by (auto simp: upd_agent_def bind_eq_Some_conv)

lemma prim_Some:
  "wait_Push k n w = Some w' \<Longrightarrow> \<exists>cs. Wait_Push k n (wait_create k (w_cs w)) = Some cs \<and> w' = w\<lparr>w_cs := cs\<rparr>"
  "exec_Push i n w = Some w' \<Longrightarrow> \<exists>cs. Exec_Push i n (w_cs w) = Some cs \<and> w' = w\<lparr>w_cs := cs\<rparr>"
  "exec_Pop i w = Some (n, w') \<Longrightarrow> \<exists>cs. Exec_Pop i (w_cs w) = Some (n, cs) \<and> w' = w\<lparr>w_cs := cs\<rparr>"
  "add_timer t ms w = Some w' \<Longrightarrow> \<exists>wh. w' = w\<lparr>w_wheel := wh\<rparr>"
  "CreateChart d owner w = Some (c, w') \<Longrightarrow>
     \<exists>ch. w' = w\<lparr>w_charts := (w_charts w)(c \<mapsto> ch), w_next_chart := w_next_chart w + 1\<rparr>"
  by (auto simp: wait_Push_def exec_Push_def exec_Pop_def add_timer_def CreateChart_def on_cs_Some
      Let_def elim!: bind_SomeE)

lemma cs_local_ops:
  "leave n cs = Some cs' \<Longrightarrow> length (cs_local cs') = length (cs_local cs)"
  "Wait_Push k n (wait_create k cs) = Some cs' \<Longrightarrow> length (cs_local cs') = length (cs_local cs)"
  "Exec_Push i n cs = Some cs' \<Longrightarrow> length (cs_local cs') = length (cs_local cs)"
  "Exec_Pop i cs = Some (m, cs') \<Longrightarrow> length (cs_local cs') = length (cs_local cs)"
  "Await_Push n cs = Some cs' \<Longrightarrow> length (cs_local cs') = length (cs_local cs)"
  "Aact_Push n cs = Some cs' \<Longrightarrow> length (cs_local cs') = length (cs_local cs)"
  "local_Pop cs = Some (m, cs') \<Longrightarrow> length (cs_local cs') = length (cs_local cs)"
  "wait_swap k cs = Some cs' \<Longrightarrow> length (cs_local cs') = Suc (length (cs_local cs))"
  "local_delete cs = Some cs' \<Longrightarrow> length (cs_local cs) = Suc (length (cs_local cs'))"
proof -
  show l: "leave n cs = Some cs' \<Longrightarrow> length (cs_local cs') = length (cs_local cs)" for cs cs'
    by (auto simp: leave_def LinkedList_Remove_def unlink_def Exec_Remove_def Await_Remove_def
        Aact_Remove_def set_of_def split: option.splits if_splits elim: container_Remove.elims)
  show "Wait_Push k n (wait_create k cs) = Some cs' \<Longrightarrow> length (cs_local cs') = length (cs_local cs)"
    "Exec_Push i n cs = Some cs' \<Longrightarrow> length (cs_local cs') = length (cs_local cs)"
    "Exec_Pop i cs = Some (m, cs') \<Longrightarrow> length (cs_local cs') = length (cs_local cs)"
    "Await_Push n cs = Some cs' \<Longrightarrow> length (cs_local cs') = length (cs_local cs)"
    "Aact_Push n cs = Some cs' \<Longrightarrow> length (cs_local cs') = length (cs_local cs)"
    "local_Pop cs = Some (m, cs') \<Longrightarrow> length (cs_local cs') = length (cs_local cs)"
    "wait_swap k cs = Some cs' \<Longrightarrow> length (cs_local cs') = Suc (length (cs_local cs))"
    "local_delete cs = Some cs' \<Longrightarrow> length (cs_local cs) = Suc (length (cs_local cs'))"
    by (auto simp: Wait_Push_def wait_create_def Exec_Push_def Exec_Pop_def Await_Push_def
        Aact_Push_def local_Pop_def wait_swap_def local_delete_def set_of_def clear_of_def Let_def
        elim!: bind_SomeE dest!: l split: if_splits list.splits)
qed

definition agent_view :: "agent \<Rightarrow> nat \<times> nat \<times> agent_status" where
  "agent_view ag = (agent_id ag, game_object ag, agent_status ag)"

definition view :: "nat \<Rightarrow> 'e world \<Rightarrow> (nat \<times> nat \<times> agent_status) option" where
  "view a w = map_option agent_view (w_agents w a)"

definition agent_keeps :: "nat \<Rightarrow> 'e world \<Rightarrow> 'e world \<Rightarrow> bool" where
  "agent_keeps a w w' \<longleftrightarrow>
     view a w' = view a w
   \<or> (\<exists>i obj. view a w = Some (i, obj, AgentRunning) \<and> view a w' = Some (i, obj, AgentDestroying))"

definition engine_frame :: "'e world \<Rightarrow> 'e world \<Rightarrow> bool" where
  "engine_frame w w' \<longleftrightarrow>
     w_index w' = w_index w \<and> w_event_frame w' = w_event_frame w
   \<and> length (cs_local (w_cs w')) = length (cs_local (w_cs w))
   \<and> w_datas w' = w_datas w \<and> w_chart_dict w' = w_chart_dict w \<and> w_events w' = w_events w
   \<and> w_frame w' = w_frame w \<and> w_in_step w' = w_in_step w \<and> w_defer w' = w_defer w
   \<and> w_stop_when_error w' = w_stop_when_error w \<and> w_interval w' = w_interval w
   \<and> nows (w_wheel w') = nows (w_wheel w)
   \<and> w_next_agent w \<le> w_next_agent w' \<and> w_next_chart w \<le> w_next_chart w' \<and> w_id_count w \<le> w_id_count w'
   \<and> (\<forall>a < w_next_agent w. agent_keeps a w w')"

lemma agent_keeps_trans: "agent_keeps a u v \<Longrightarrow> agent_keeps a v w \<Longrightarrow> agent_keeps a u w"
  by (auto simp: agent_keeps_def)

lemma agent_keeps_refl: "w_agents w' = w_agents w \<Longrightarrow> agent_keeps a w w'"
  by (simp add: agent_keeps_def view_def)

lemma wheel_nows:
  "nows (cancel t wh) = nows wh" "schedule t d wh = Some wh' \<Longrightarrow> nows wh' = nows wh"
  by (auto simp: cancel_def relink_def schedule_def slot_set_def Let_def split: option.splits prod.splits if_splits)

text \<open>Stopping and destroying charts changes charts, containers and timers only.\<close>

definition quiet :: "'e world \<Rightarrow> 'e world \<Rightarrow> bool" where
  "quiet w w' \<longleftrightarrow>
     w' = w\<lparr>w_agents := w_agents w', w_charts := w_charts w', w_cs := w_cs w', w_wheel := w_wheel w'\<rparr>
   \<and> length (cs_local (w_cs w')) = length (cs_local (w_cs w))
   \<and> nows (w_wheel w') = nows (w_wheel w) \<and> (\<forall>a. view a w' = view a w)"

lemma quiet_trans: "quiet u v \<Longrightarrow> quiet v w \<Longrightarrow> quiet u w"
  by (cases u; cases v; cases w) (simp add: quiet_def)

lemma view_upd_agent:
  "upd_agent a h w = Some w' \<Longrightarrow> (\<And>ag. agent_id (h ag) = agent_id ag
      \<and> game_object (h ag) = game_object ag \<and> agent_status (h ag) = agent_status ag) \<Longrightarrow> view b w' = view b w"
  by (auto simp: view_def agent_view_def upd_agent_Some)

interpretation quiet: quiet_rel quiet
proof unfold_locales
  show "upd_agent a h w = Some w' \<Longrightarrow> (\<And>ag. agent_id (h ag) = agent_id ag
      \<and> game_object (h ag) = game_object ag \<and> agent_status (h ag) = agent_status ag) \<Longrightarrow> quiet w w'"
    for a h and w w' :: "'e world"
    using view_upd_agent [of a h w w'] by (auto simp: quiet_def upd_agent_Some)
  show "quiet u v \<Longrightarrow> quiet v w \<Longrightarrow> quiet u w" for u v w :: "'e world" by (rule quiet_trans)
qed (auto simp: quiet_def view_def upd_node_Some upd_chart_Some cancel_timer_def wheel_nows on_cs_Some
    cs_local_ops)

lemma quiet_sel:
  assumes "quiet w w'"
  shows "w_index w' = w_index w" "w_event_frame w' = w_event_frame w" "w_datas w' = w_datas w"
    "w_chart_dict w' = w_chart_dict w" "w_events w' = w_events w" "w_frame w' = w_frame w"
    "w_in_step w' = w_in_step w" "w_defer w' = w_defer w" "w_stop_when_error w' = w_stop_when_error w"
    "w_interval w' = w_interval w" "w_next_agent w' = w_next_agent w" "w_next_chart w' = w_next_chart w"
    "w_id_count w' = w_id_count w" "w_agent_map w' = w_agent_map w" "w_object_map w' = w_object_map w"
    "w_dying w' = w_dying w" "length (cs_local (w_cs w')) = length (cs_local (w_cs w))"
    "nows (w_wheel w') = nows (w_wheel w)" "view a w' = view a w" "w_async w' = w_async w"
proof -
  obtain A C S W where
    "w' = w\<lparr>w_agents := A, w_charts := C, w_cs := S, w_wheel := W\<rparr>"
    using assms unfolding quiet_def by blast
  then show "w_index w' = w_index w" "w_event_frame w' = w_event_frame w" "w_datas w' = w_datas w"
    "w_chart_dict w' = w_chart_dict w" "w_events w' = w_events w" "w_frame w' = w_frame w"
    "w_in_step w' = w_in_step w" "w_defer w' = w_defer w" "w_stop_when_error w' = w_stop_when_error w"
    "w_interval w' = w_interval w" "w_next_agent w' = w_next_agent w" "w_next_chart w' = w_next_chart w"
    "w_id_count w' = w_id_count w" "w_agent_map w' = w_agent_map w" "w_object_map w' = w_object_map w"
    "w_dying w' = w_dying w" "w_async w' = w_async w"
    by simp_all
  show "length (cs_local (w_cs w')) = length (cs_local (w_cs w))"
    "nows (w_wheel w') = nows (w_wheel w)" "view a w' = view a w"
    using assms by (simp_all add: quiet_def)
qed

lemma Register_cases:
  assumes "Register obj w = Some (a, w')"
  obtains "GetAgent obj w = Some a" "w' = w"
  | wh where "GetAgent obj w = None" "a = w_next_agent w" "nows wh = nows (w_wheel w)"
      "w' = w\<lparr>w_agents := (w_agents w)(a \<mapsto> \<lparr>agent_id = w_id_count w + 1,
            tick_interval = DEFAULT_AGENT_TICK, agent_status = AgentRunning, chart_dict = [],
            game_object = obj\<rparr>), w_next_agent := a + 1, w_wheel := wh,
          w_object_map := AList.update obj a (w_object_map w), w_id_count := w_id_count w + 1,
          w_agent_map := AList.update (w_id_count w + 1) a (w_agent_map w)\<rparr>"
proof (cases "GetAgent obj w")
  case None
  with assms show thesis
    by (auto simp: Register_def Let_def AgentTimer_Start_def add_timer_def AddTimer_def upd_agent_Some
        elim!: bind_SomeE dest: wheel_nows(2) intro: that(2))
next
  case (Some b)
  with assms show thesis by (auto simp: Register_def intro: that(1))
qed

lemma Unregister_cases:
  assumes "Manager_UnregisterGameObject ao w = Some (b, w')"
  obtains "w' = w"
  | a ag w1 ag1 where "ao = Some a" "w_agents w a = Some ag" "agent_status ag = AgentRunning"
      "quiet (w\<lparr>w_agents := (w_agents w)(a \<mapsto> ag\<lparr>agent_status := AgentDestroying\<rparr>)\<rparr>) w1"
      "w_agents w1 a = Some ag1" "agent_id ag1 = agent_id ag" "game_object ag1 = game_object ag"
      "w' = w1\<lparr>w_agent_map := AList.delete (agent_id ag) (w_agent_map w1),
           w_object_map := AList.delete (game_object ag) (w_object_map w1),
           w_dying := AddDyingAgent a (w_in_step w1) (w_dying w1)\<rparr>"
proof (cases ao)
  case None
  with assms show thesis by (auto simp: Manager_UnregisterGameObject_def intro: that(1))
next
  case (Some a)
  with assms obtain ag where ag: "w_agents w a = Some ag"
    by (auto simp: Manager_UnregisterGameObject_def elim!: bind_SomeE)
  show thesis
  proof (cases "agent_status ag")
    case AgentDestroying
    with assms Some ag show thesis by (auto simp: Manager_UnregisterGameObject_def intro: that(1))
  next
    case AgentRunning
    let ?w0 = "w\<lparr>w_agents := (w_agents w)(a \<mapsto> ag\<lparr>agent_status := AgentDestroying\<rparr>)\<rparr>"
    from assms Some ag AgentRunning have "(do { w \<leftarrow> Agent_Stop a ?w0; w \<leftarrow> UnRegister a w;
        Some (True, w\<lparr>w_dying := AddDyingAgent a (w_in_step w) (w_dying w)\<rparr>) }) = Some (b, w')"
      by (simp add: Manager_UnregisterGameObject_def upd_agent_def)
    then obtain w1 w2 where w1: "Agent_Stop a ?w0 = Some w1" and w2: "UnRegister a w1 = Some w2"
      and w2': "w' = w2\<lparr>w_dying := AddDyingAgent a (w_in_step w2) (w_dying w2)\<rparr>"
      by (elim bind_SomeE) (simp add: that)
    from w2 obtain ag1 where ag1: "w_agents w1 a = Some ag1"
      and "w2 = w1\<lparr>w_agent_map := AList.delete (agent_id ag1) (w_agent_map w1),
           w_object_map := AList.delete (game_object ag1) (w_object_map w1)\<rparr>"
      unfolding UnRegister_def by (elim bind_SomeE) (simp add: that)
    then have w': "w' = w1\<lparr>w_agent_map := AList.delete (agent_id ag1) (w_agent_map w1),
           w_object_map := AList.delete (game_object ag1) (w_object_map w1),
           w_dying := AddDyingAgent a (w_in_step w1) (w_dying w1)\<rparr>"
      by (simp add: w2')
    have q: "quiet ?w0 w1"
      using w1 by (auto simp: Agent_Stop_def intro: quiet.foldM_Chart_Stop_step elim!: bind_SomeE)
    have "view a w1 = view a ?w0" by (rule quiet_sel(19) [OF q])
    then have "agent_id ag1 = agent_id ag" "game_object ag1 = game_object ag"
      using ag1 by (simp_all add: view_def agent_view_def)
    with that(2) [OF Some ag AgentRunning q ag1] w' show thesis by simp
  qed
qed

lemma engine_frame_refl: "engine_frame w w"
  by (simp add: engine_frame_def agent_keeps_def)

lemma engine_frame_trans: "engine_frame u v \<Longrightarrow> engine_frame v w \<Longrightarrow> engine_frame u w"
  unfolding engine_frame_def by (auto intro: agent_keeps_trans)

lemma quiet_frame: "quiet w w' \<Longrightarrow> engine_frame w w'"
  by (simp add: engine_frame_def quiet_sel agent_keeps_def)

lemma Register_frame: "Register obj w = Some (a, w') \<Longrightarrow> engine_frame w w'"
  by (erule Register_cases) (auto simp: engine_frame_def agent_keeps_def view_def)

lemma Unregister_frame:
  assumes "Manager_UnregisterGameObject ao w = Some (b, w')"
  shows "engine_frame w w'"
  using assms
proof (cases rule: Unregister_cases)
  case (2 a ag w1 ag1)
  let ?w0 = "w\<lparr>w_agents := (w_agents w)(a \<mapsto> ag\<lparr>agent_status := AgentDestroying\<rparr>)\<rparr>"
  have "engine_frame w ?w0"
    using 2(2,3) by (auto simp: engine_frame_def agent_keeps_def view_def agent_view_def)
  moreover have "engine_frame ?w0 w1" by (rule quiet_frame [OF 2(4)])
  moreover have "engine_frame w1 w'"
    by (auto simp: 2(8) engine_frame_def agent_keeps_def view_def)
  ultimately show ?thesis using engine_frame_trans by blast
qed (simp add: engine_frame_refl)

lemma quiet_node: "upd_node n f w = Some w' \<Longrightarrow> quiet w w'"
  by (rule quiet.node_law)

lemma cs_frame: "length (cs_local cs) = length (cs_local (w_cs w)) \<Longrightarrow> engine_frame w (w\<lparr>w_cs := cs\<rparr>)"
  by (simp add: engine_frame_def agent_keeps_def view_def)

lemma frame_sel: "engine_frame w w' \<Longrightarrow> w_index w' = w_index w \<and> w_event_frame w' = w_event_frame w
    \<and> length (cs_local (w_cs w')) = length (cs_local (w_cs w))"
  by (simp add: engine_frame_def)

lemma bracket_laws:
  assumes r: "engine_frame w1 w2"
  shows "on_cs (wait_swap k) w = Some w1 \<Longrightarrow> on_cs local_delete w2 = Some w3 \<Longrightarrow> engine_frame w w3"
    and "on_cs (wait_swap k) (w\<lparr>w_event_frame := w_event_frame w + 1\<rparr>) = Some w1 \<Longrightarrow>
      on_cs local_delete (w2\<lparr>w_event_frame := w_event_frame w2 - 1, w_event := ev\<rparr>) = Some w3
      \<Longrightarrow> engine_frame w w3"
proof -
  have keeps: "agent_keeps a w1 w2 = agent_keeps a w w3" if "w_agents w1 = w_agents w" "w_agents w3 = w_agents w2" for a
    using that by (simp add: agent_keeps_def view_def)
  {
    assume "on_cs (wait_swap k) w = Some w1" "on_cs local_delete w2 = Some w3"
    then obtain cs1 cs3 where cs: "w1 = w\<lparr>w_cs := cs1\<rparr>" "w3 = w2\<lparr>w_cs := cs3\<rparr>"
      and "wait_swap k (w_cs w) = Some cs1" "local_delete (w_cs w2) = Some cs3"
      by (auto simp: on_cs_Some)
    then have "length (cs_local cs1) = Suc (length (cs_local (w_cs w)))"
      "length (cs_local (w_cs w2)) = Suc (length (cs_local cs3))"
      by (simp_all add: cs_local_ops(8,9))
    with r keeps show "engine_frame w w3" by (simp add: engine_frame_def cs)
  next
    assume "on_cs (wait_swap k) (w\<lparr>w_event_frame := w_event_frame w + 1\<rparr>) = Some w1"
      "on_cs local_delete (w2\<lparr>w_event_frame := w_event_frame w2 - 1, w_event := ev\<rparr>) = Some w3"
    then obtain cs1 cs3 where cs: "w1 = w\<lparr>w_event_frame := w_event_frame w + 1, w_cs := cs1\<rparr>"
      "w3 = w2\<lparr>w_event_frame := w_event_frame w2 - 1, w_event := ev, w_cs := cs3\<rparr>"
      and "wait_swap k (w_cs w) = Some cs1" "local_delete (w_cs w2) = Some cs3"
      by (auto simp: on_cs_Some)
    then have "length (cs_local cs1) = Suc (length (cs_local (w_cs w)))"
      "length (cs_local (w_cs w2)) = Suc (length (cs_local cs3))"
      by (simp_all add: cs_local_ops(8,9))
    with r keeps show "engine_frame w w3" by (simp add: engine_frame_def cs)
  }
qed

lemma misc_frame:
  "engine_frame w (w\<lparr>w_cur_node := cn\<rparr>)" "engine_frame w (w\<lparr>w_cur_agent := ca\<rparr>)"
  "engine_frame w (w\<lparr>w_env := e\<rparr>)" "engine_frame w (w\<lparr>w_event := ev\<rparr>)"
  "engine_frame w (post_event evt imm w)"
  "engine_frame (w\<lparr>w_index := w_index w + 1\<rparr>) w' \<Longrightarrow> engine_frame w (w'\<lparr>w_index := w_index w\<rparr>)"
  by (simp_all add: engine_frame_def agent_keeps_def view_def post_event_def)

lemma on_cs_frame:
  "on_cs f w = Some w' \<Longrightarrow> (\<And>cs. f (w_cs w) = Some cs \<Longrightarrow> length (cs_local cs) = length (cs_local (w_cs w)))
    \<Longrightarrow> engine_frame w w'"
  by (auto simp: on_cs_Some intro: cs_frame)

lemma setter_frame:
  "SetStatus s n w = Some w' \<Longrightarrow> engine_frame w w'" "SetResult r n w = Some w' \<Longrightarrow> engine_frame w w'"
  "SetSkip b n w = Some w' \<Longrightarrow> engine_frame w w'"
  unfolding SetStatus_def SetResult_def SetSkip_def by (blast intro: quiet_frame quiet.node_law)+

lemma async_set_frame: "engine_frame w (w\<lparr>w_async := A\<rparr>)"
  by (simp add: engine_frame_def agent_keeps_def view_def)

lemma async_ops_frame:
  "AddNode n w = Some w' \<Longrightarrow> engine_frame w w'" "RemoveNode n w = Some w' \<Longrightarrow> engine_frame w w'"
  "ActivateNode n b w = Some w' \<Longrightarrow> engine_frame w w'"
proof -
  show "AddNode n w = Some w' \<Longrightarrow> engine_frame w w'" "RemoveNode n w = Some w' \<Longrightarrow> engine_frame w w'"
    by (auto simp: AddNode_def RemoveNode_def Await_Remove_def set_of_def dest: cs_local_ops elim!: bind_SomeE
        intro!: engine_frame_trans [OF on_cs_frame async_set_frame])
  assume "ActivateNode n b w = Some w'"
  then have "w' = w \<or> (\<exists>w1. on_cs (Aact_Push n) w = Some w1 \<and> SetSkip b n w1 = Some w')"
    by (auto simp: ActivateNode_def elim!: bind_SomeE split: if_splits)
  then show "engine_frame w w'"
    using engine_frame_refl engine_frame_trans on_cs_frame cs_local_ops(6) setter_frame(3) by blast
qed

lemma async_frame:
  "CreateAsyncContext w = Some (x, w') \<Longrightarrow> engine_frame w w'"
  "ContinueAsyncNode ctx w = Some (b, w') \<Longrightarrow> engine_frame w w'"
  "CancelAsyncNode ctx stop w = Some (b, w') \<Longrightarrow> engine_frame w w'"
  unfolding CreateAsyncContext_def ContinueAsyncNode_def CancelAsyncNode_def
  by (auto elim!: bind_SomeE split: option.splits if_splits intro: engine_frame_refl
      dest!: setter_frame async_ops_frame) (blast intro: engine_frame_trans)+

lemma prim_frame:
  "wait_Push k n w = Some w' \<Longrightarrow> engine_frame w w'" "exec_Push i n w = Some w' \<Longrightarrow> engine_frame w w'"
  "exec_Pop i w = Some (n, w') \<Longrightarrow> engine_frame w w'" "add_timer t ms w = Some w' \<Longrightarrow> engine_frame w w'"
  "CreateChart d owner w = Some (c, w') \<Longrightarrow> engine_frame w w'"
proof -
  show "wait_Push k n w = Some w' \<Longrightarrow> engine_frame w w'" "exec_Push i n w = Some w' \<Longrightarrow> engine_frame w w'"
    "exec_Pop i w = Some (n, w') \<Longrightarrow> engine_frame w w'"
    by (auto dest!: prim_Some dest: cs_local_ops intro!: cs_frame)
  show "add_timer t ms w = Some w' \<Longrightarrow> engine_frame w w'"
    by (auto simp: add_timer_def AddTimer_def engine_frame_def agent_keeps_def view_def wheel_nows
       elim!: bind_SomeE)
  show "CreateChart d owner w = Some (c, w') \<Longrightarrow> engine_frame w w'"
    by (auto dest!: prim_Some(5) simp: engine_frame_def agent_keeps_def view_def)
qed

interpretation frame: step_rel engine_frame "\<lambda>_. True"
proof unfold_locales
  show "upd_agent a h w = Some w' \<Longrightarrow> (\<And>ag. agent_id (h ag) = agent_id ag
      \<and> game_object (h ag) = game_object ag \<and> agent_status (h ag) = agent_status ag)
      \<Longrightarrow> engine_frame w w'" for a h and w w' :: "'e world"
    by (rule quiet_frame, rule quiet.agent_law) blast+
  show "upd_chart c g w = Some w' \<Longrightarrow> (\<And>ch. nodes (g ch) = nodes ch
      \<and> owner_node (g ch) = owner_node ch \<and> chart_data_ptr (g ch) = chart_data_ptr ch)
      \<Longrightarrow> engine_frame w w'" for c g and w w' :: "'e world"
    by (rule quiet_frame, rule quiet.chart_law) blast+
  show "engine_frame u v \<Longrightarrow> engine_frame v w \<Longrightarrow> engine_frame u w" for u v w :: "'e world"
    by (rule engine_frame_trans)
qed (erule Register_frame Unregister_frame prim_frame async_frame misc_frame(6)
    | rule misc_frame(1-5) engine_frame_refl
    | rule bracket_laws, assumption, assumption, assumption
    | rule quiet_frame, rule quiet.cancel_timer_law quiet.free_law
    | rule quiet_frame, erule quiet.node_law quiet.leave_law
    | erule on_cs_frame, force simp: cs_local_ops Exec_Remove_def set_of_def Exec_clear_def hist_clear_def
    | rule cs_frame, erule cs_local_ops)+

section \<open>Properties\<close>

lemma calls_only_True: "calls_only (\<lambda>_. True) s"
proof (induction s)
  case (Call a e k)
  then show ?case using rangeI by fastforce
qed simp_all

lemma host_calls_True: "host_calls_only (\<lambda>_. True) H"
  by (simp add: host_calls_only_def calls_only_True)

text \<open>C12. Whatever the scripts of the host do, running a flow gives back the executor it took and
  the nesting of events and of local waiting lists it found, leaves the settings, the chart data and
  the clock of the timers alone, and neither frees nor renames an agent nor brings one back that is
  being destroyed.\<close>

theorem run_flow_frame:
  assumes "RunFlow H n w = Some (b, w')"
  shows "engine_frame w w'"
  using host_calls_True assms by (rule frame.RunFlow_respects)

end
