(* ===== verification/Manager_Rel.thy ===== *)
theory Manager_Rel
  imports Engine_Frame Manager
begin

text \<open>
  The operations of the host program on top of the engine. A relation that the engine respects,
  the few steps of \<open>Manager::Step\<close> that the engine does not make itself (moving the hands of the
  timer wheel, popping a resumed node, switching the event queue, destroying agents) and the
  bracket of the flag \<open>in_step_\<close> is respected by the whole step, by timers and by restarting a chart.
\<close>

context engine_rel
begin

lemma restart_one_post:
  "host_calls_only P H \<Longrightarrow> R v w \<Longrightarrow> post v (\<lambda>w. w) (restart_one H name a w)"
  unfolding restart_one_def by (intro post_rules top_knot_ok; assumption)

lemma RestartChart_rel:
  assumes H: "host_calls_only P H" and run: "RestartChart H name w = Some w'"
  shows "R w w'"
proof -
  have "post w (\<lambda>w. w) (RestartChart H name w)"
    unfolding RestartChart_def
    by (intro post_foldM_W refl) (intro post_bindW restart_one_post H post_if post_None post_Some; assumption)
  from postD [OF this run] show ?thesis .
qed

end

text \<open>The operations of the host that run nodes, apart from the hands of the timer wheel.\<close>

locale handler_rel = engine_rel R P
  for R :: "'e world \<Rightarrow> 'e world \<Rightarrow> bool" and P :: "api \<Rightarrow> bool" +
  assumes aact_pop_law: "Aact_Pop (w_cs w) = Some (Some n, cs) \<Longrightarrow> R w (w\<lparr>w_cs := cs\<rparr>)"
    and remove_law: "cs_of (w_cs w) n = None \<Longrightarrow> RemoveNode n w = Some w' \<Longrightarrow> R w w'"
    and queue_law: "R w (w\<lparr>w_queue := q\<rparr>)"
    and destroy_law: "destroy_agents w = Some w' \<Longrightarrow> R w w'"
begin

section \<open>Timers\<close>

lemma NodeTimer_execute_post:
  "host_calls_only P H \<Longrightarrow> R v w \<Longrightarrow> post v (\<lambda>w. w) (NodeTimer_execute H n w)"
  unfolding NodeTimer_execute_def by (intro post_rules RunFlow_post; assumption)

lemma AgentTimer_execute_post:
  "host_calls_only P H \<Longrightarrow> R v w \<Longrightarrow> post v (\<lambda>w. w) (AgentTimer_execute H a w)"
  unfolding AgentTimer_execute_def by (intro post_rules top_knot_ok; assumption)

lemma timer_execute_rel:
  "host_calls_only P H \<Longrightarrow> timer_execute H t w = Some w' \<Longrightarrow> R w w'"
  using NodeTimer_execute_post [OF _ refl] AgentTimer_execute_post [OF _ refl]
  by (cases t) (fastforce simp: post_def)+

section \<open>Resumed nodes and events\<close>

text \<open>A node that was stopped is in no container when it is taken out of the suspended ones.\<close>

lemma async_resume_rel:
  assumes H: "host_calls_only P H" and run: "async_resume H n w = Some w'"
  shows "R w w'"
proof -
  from run obtain w1 w2 w3 w4 b r where w1: "Node_Stop n w = Some w1" and w2: "SetSkip b n w1 = Some w2"
    and w3: "SetResult r n w2 = Some w3" and w4: "RemoveNode n w3 = Some w4"
    and w': "map_option snd (RunFlow H n w4) = Some w'"
    unfolding async_resume_def by (elim bind_SomeE) (rule that)
  obtain w0 where "on_cs (leave n) w0 = Some w1"
    using w1 by (auto simp: Node_Stop_def Node_Stop_with_def elim!: bind_SomeE)
  then have "cs_of (w_cs w1) n = None" by (auto simp: on_cs_Some intro: leave_of)
  moreover have "w_cs w3 = w_cs w1"
    using w2 w3 by (auto simp: SetSkip_def SetResult_def upd_node_Some)
  ultimately have "R w3 w4" using remove_law w4 by simp
  moreover have "R w w1" by (rule node_stop_law [OF w1])
  moreover have "R w1 w2" using w2 unfolding SetSkip_def by (rule node_law)
  moreover have "R w2 w3" using w3 unfolding SetResult_def by (rule node_law)
  moreover have "R w4 w'" using w' RunFlow_respects [OF H] by auto
  ultimately show ?thesis using trans by blast
qed

lemma AsyncManager_Step_rel:
  assumes H: "host_calls_only P H"
  shows "AsyncManager_Step H w = Some w' \<Longrightarrow> R w w'"
proof -
  have "AsyncManager_Step G w = Some w' \<Longrightarrow> G = H \<Longrightarrow> R w w'" for G w w'
  proof (induction G w w' rule: AsyncManager_Step.raw_induct [rotated, consumes 1])
    case (1 rec G w w')
    from 1(2) obtain r cs where pop: "Aact_Pop (w_cs w) = Some (r, cs)"
      and body: "(case r of None \<Rightarrow> Some w
        | Some n \<Rightarrow> do { w \<leftarrow> async_resume H n (w\<lparr>w_cs := cs\<rparr>); rec H w }) = Some w'"
      using 1(3) by (cases "Aact_Pop (w_cs w)") auto
    show ?case
    proof (cases r)
      case (Some n)
      with body obtain w1 where "async_resume H n (w\<lparr>w_cs := cs\<rparr>) = Some w1" "rec H w1 = Some w'"
        by (auto elim!: bind_SomeE)
      then have "R (w\<lparr>w_cs := cs\<rparr>) w1" "R w1 w'"
        using async_resume_rel [OF H] 1(1) by (blast, blast)
      with aact_pop_law pop Some show ?thesis using trans by blast
    qed (use body refl in simp)
  qed
  then show "AsyncManager_Step H w = Some w' \<Longrightarrow> R w w'" by blast
qed

lemma handle_events_rel:
  assumes H: "host_calls_only P H"
  shows "handle_events H w = Some w' \<Longrightarrow> R w w'"
proof -
  have "handle_events G w = Some w' \<Longrightarrow> G = H \<Longrightarrow> R w w'" for G w w'
  proof (induction G w w' rule: handle_events.raw_induct [rotated, consumes 1])
    case (1 rec G w w')
    obtain r q where ne: "NextEvent (w_queue w) = (r, q)" by fastforce
    show ?case
    proof (cases r)
      case None
      with 1(2) ne queue_law show ?thesis by auto
    next
      case (Some ev)
      with 1(2) ne obtain w1 where w1: "HandleEvent (top_knot H) ev (w\<lparr>w_queue := q\<rparr>) = Some w1"
        and rest: "rec H w1 = Some w'" by (auto simp: 1(3) elim!: bind_SomeE)
      have "R (w\<lparr>w_queue := q\<rparr>) w1"
        using postD [OF HandleEvent_post [OF top_knot_ok [OF H] refl] w1] .
      with queue_law 1(1) [OF rest] show ?thesis using trans by blast
    qed
  qed
  then show "handle_events H w = Some w' \<Longrightarrow> R w w'" by blast
qed

section \<open>The step\<close>

lemma Manager_Step_parts:
  assumes H: "host_calls_only P H" and run: "Manager_Step H ms w = Some w'"
  obtains w1 w4 where
    "TimerManager_Step w_wheel set_wheel (timer_execute H) (if ms \<ge> 0 then ms else w_interval w) (w\<lparr>w_in_step := True\<rparr>)
      = Some w1"
    "R w1 w4" "w' = w4\<lparr>w_frame := w_frame w4 + 1, w_in_step := False\<rparr>"
proof -
  let ?w = "w\<lparr>w_in_step := True\<rparr>"
  from run obtain w1 w2 w3 w4 where
    w1: "TimerManager_Step w_wheel set_wheel (timer_execute H) (if ms \<ge> 0 then ms else w_interval ?w) ?w = Some w1"
    and w2: "AsyncManager_Step H w1 = Some w2"
    and w3: "handle_events H (w2\<lparr>w_queue := Switch (w_queue w2)\<rparr>) = Some w3"
    and w4: "destroy_agents w3 = Some w4" and w': "w' = w4\<lparr>w_frame := w_frame w4 + 1, w_in_step := False\<rparr>"
    unfolding Manager_Step_def Let_def by (elim bind_SomeE) (rule that, assumption+, simp)
  have "R w1 w2" by (rule AsyncManager_Step_rel [OF H w2])
  moreover have "R w2 w3" using queue_law handle_events_rel [OF H w3] trans by blast
  moreover have "R w3 w4" by (rule destroy_law [OF w4])
  ultimately have R: "R w1 w4" using trans by blast
  show ?thesis by (rule that [OF _ R w']) (use w1 in \<open>auto split: if_splits\<close>)
qed

end

text \<open>A relation that does not look at the wheel.\<close>

locale manager_rel = handler_rel R P
  for R :: "'e world \<Rightarrow> 'e world \<Rightarrow> bool" and P :: "api \<Rightarrow> bool" +
  assumes wheel_law: "R w (w\<lparr>w_wheel := wh\<rparr>)"
    and step_law: "R (w\<lparr>w_in_step := True\<rparr>) w' \<Longrightarrow> R w (w'\<lparr>w_frame := w_frame w' + 1, w_in_step := False\<rparr>)"
begin

section \<open>The hands of the wheel\<close>

lemma set_wheel_rel: "R w (set_wheel wh w)"
  unfolding set_wheel_def by (rule wheel_law)

lemma drain_slot_rel:
  assumes exec: "\<And>e w w'. exec e w = Some w' \<Longrightarrow> R w w'"
  shows "drain_slot w_wheel set_wheel exec L i w = Some w' \<Longrightarrow> R w w'"
proof (induction rule: drain_slot_induct [consumes 1, case_names nil step])
  case (step w e wh w1 w')
  have "R (set_wheel wh w) w1"
    using step(3) exec set_wheel_rel by (auto split: if_splits)
  with set_wheel_rel [of w wh] step(4) show ?case using trans by blast
qed (rule refl)

lemma tick_up_rel:
  assumes exec: "\<And>e w w'. exec e w = Some w' \<Longrightarrow> R w w'"
  shows "tick_up w_wheel set_wheel exec up w = Some w' \<Longrightarrow> R w w'"
proof (induction up arbitrary: w w')
  case 0
  then have "drain_slot w_wheel set_wheel exec 7 ((nows (w_wheel w) 7 + 1) mod 256)
      (set_wheel ((w_wheel w)\<lparr>nows := (nows (w_wheel w))(7 := nows (w_wheel w) 7 + 1)\<rparr>) w) = Some w'"
    by (simp add: Let_def)
  then have "R (set_wheel ((w_wheel w)\<lparr>nows := (nows (w_wheel w))(7 := nows (w_wheel w) 7 + 1)\<rparr>) w) w'"
    by (rule drain_slot_rel [rotated]) (rule exec)
  then show ?case using set_wheel_rel trans by blast
next
  case (Suc up)
  let ?L = "6 - up"
  let ?w = "set_wheel ((w_wheel w)\<lparr>nows := (nows (w_wheel w))(?L := nows (w_wheel w) ?L + 1)\<rparr>) w"
  from Suc.prems obtain w1 where
    "(if (nows (w_wheel w) ?L + 1) mod 256 = 0 then tick_up w_wheel set_wheel exec up ?w else Some ?w) = Some w1"
    and w': "drain_slot w_wheel set_wheel exec ?L ((nows (w_wheel w) ?L + 1) mod 256) w1 = Some w'"
    unfolding tick_up.simps Let_def by (rule bind_SomeE)
  then have "R ?w w1" using Suc.IH refl by (auto split: if_splits)
  moreover have "R w1 w'" using w' by (rule drain_slot_rel [rotated]) (rule exec)
  ultimately show ?case using set_wheel_rel trans by blast
qed

lemma TimerManager_Step_rel:
  assumes exec: "\<And>e w w'. exec e w = Some w' \<Longrightarrow> R w w'"
    and run: "TimerManager_Step w_wheel set_wheel exec ms w = Some w'"
  shows "R w w'"
proof -
  have tick: "wheel_tick w_wheel set_wheel exec v = Some v' \<Longrightarrow> R v v'" for v v'
    unfolding wheel_tick_def by (rule tick_up_rel [rotated], assumption) (rule exec)
  have "advance w_wheel set_wheel exec k v = Some w' \<Longrightarrow> R v w'" for k v
    by (induction k arbitrary: v) (auto elim!: bind_SomeE intro: refl trans [OF tick])
  with run refl show ?thesis by (auto simp: TimerManager_Step_def split: if_splits)
qed

lemma Manager_Step_rel:
  assumes H: "host_calls_only P H" and run: "Manager_Step H ms w = Some w'"
  shows "R w w'"
  using H run
proof (rule Manager_Step_parts)
  fix w1 w4 :: "'e world"
  assume w1: "TimerManager_Step w_wheel set_wheel (timer_execute H) (if ms \<ge> 0 then ms else w_interval w)
      (w\<lparr>w_in_step := True\<rparr>) = Some w1"
    and w4: "R w1 w4" "w' = w4\<lparr>w_frame := w_frame w4 + 1, w_in_step := False\<rparr>"
  have "R (w\<lparr>w_in_step := True\<rparr>) w1" by (rule TimerManager_Step_rel [OF _ w1]) (rule timer_execute_rel [OF H])
  then have "R (w\<lparr>w_in_step := True\<rparr>) w4" by (rule trans) (rule w4(1))
  then show ?thesis unfolding w4(2) by (rule step_law)
qed

end

end
