(* ===== verification/Registry.thy ===== *)
theory Registry
  imports Engine_Frame
begin

text \<open>
  The registration of agents: the maps of the \<open>AgentManager\<close> and of the Python manager, the
  identifiers and the list of dying agents stay consistent through everything that runs inside the
  engine.
\<close>

section \<open>Registration\<close>

text \<open>The two maps hold exactly the agents that are running, under their identifier and under
  their object; the agents being destroyed are the ones on the list of dying agents, once each; no
  two agents have an identifier in common, and identifiers are not used again.\<close>

definition reg_inv :: "'e world \<Rightarrow> bool" where
  "reg_inv w \<longleftrightarrow>
     (\<forall>i a. map_of (w_agent_map w) i = Some a \<longleftrightarrow> (\<exists>obj. view a w = Some (i, obj, AgentRunning)))
   \<and> (\<forall>obj a. map_of (w_object_map w) obj = Some a \<longleftrightarrow> (\<exists>i. view a w = Some (i, obj, AgentRunning)))
   \<and> (\<forall>a. a \<in> set (dying (w_dying w)) \<longleftrightarrow> (\<exists>i obj. view a w = Some (i, obj, AgentDestroying)))
   \<and> distinct (dying (w_dying w))
   \<and> (\<forall>a i obj s. view a w = Some (i, obj, s) \<longrightarrow> a < w_next_agent w \<and> i \<le> w_id_count w)
   \<and> (\<forall>a b i obj obj' s s'. view a w = Some (i, obj, s) \<longrightarrow> view b w = Some (i, obj', s') \<longrightarrow> a = b)
   \<and> distinct (map fst (w_agent_map w))"

lemma reg_invD:
  assumes "reg_inv w"
  shows "map_of (w_agent_map w) i = Some a \<longleftrightarrow> (\<exists>obj. view a w = Some (i, obj, AgentRunning))"
    and "map_of (w_object_map w) obj = Some a \<longleftrightarrow> (\<exists>i. view a w = Some (i, obj, AgentRunning))"
    and "a \<in> set (dying (w_dying w)) \<longleftrightarrow> (\<exists>i obj. view a w = Some (i, obj, AgentDestroying))"
    and "distinct (dying (w_dying w))"
    and "view a w = Some (i, obj, s) \<Longrightarrow> a < w_next_agent w \<and> i \<le> w_id_count w"
    and "view a w = Some (i, obj, s) \<Longrightarrow> view b w = Some (i, obj', s') \<Longrightarrow> a = b"
    and "distinct (map fst (w_agent_map w))"
  using assms unfolding reg_inv_def by blast+

lemma reg_invI:
  assumes "\<And>i a. map_of (w_agent_map w) i = Some a \<longleftrightarrow> (\<exists>obj. view a w = Some (i, obj, AgentRunning))"
    and "\<And>obj a. map_of (w_object_map w) obj = Some a \<longleftrightarrow> (\<exists>i. view a w = Some (i, obj, AgentRunning))"
    and "\<And>a. a \<in> set (dying (w_dying w)) \<longleftrightarrow> (\<exists>i obj. view a w = Some (i, obj, AgentDestroying))"
    and "distinct (dying (w_dying w))"
    and "\<And>a i obj s. view a w = Some (i, obj, s) \<Longrightarrow> a < w_next_agent w \<and> i \<le> w_id_count w"
    and "\<And>a b i obj obj' s s'. view a w = Some (i, obj, s) \<Longrightarrow> view b w = Some (i, obj', s') \<Longrightarrow> a = b"
    and "distinct (map fst (w_agent_map w))"
  shows "reg_inv w"
  using assms unfolding reg_inv_def by blast

definition reg_same :: "'e world \<Rightarrow> 'e world \<Rightarrow> bool" where
  "reg_same w w' \<longleftrightarrow> w_agent_map w' = w_agent_map w \<and> w_object_map w' = w_object_map w
     \<and> w_dying w' = w_dying w \<and> w_next_agent w' = w_next_agent w \<and> w_id_count w' = w_id_count w
     \<and> (\<forall>a. view a w' = view a w)"

definition reg_rel :: "'e world \<Rightarrow> 'e world \<Rightarrow> bool" where
  "reg_rel w w' \<longleftrightarrow> (reg_inv w \<longrightarrow> reg_inv w')"

lemma reg_same_rel: "reg_same w w' \<Longrightarrow> reg_rel w w'"
  by (simp add: reg_same_def reg_rel_def reg_inv_def)

lemma reg_same_fields:
  "w_agent_map w' = w_agent_map w \<Longrightarrow> w_object_map w' = w_object_map w \<Longrightarrow> w_dying w' = w_dying w
    \<Longrightarrow> w_next_agent w' = w_next_agent w \<Longrightarrow> w_id_count w' = w_id_count w \<Longrightarrow> w_agents w' = w_agents w
    \<Longrightarrow> reg_same w w'"
  by (simp add: reg_same_def view_def)

lemma quiet_reg: "quiet w w' \<Longrightarrow> reg_same w w'"
  by (simp add: reg_same_def quiet_sel)

lemma reg_rel_trans: "reg_rel u v \<Longrightarrow> reg_rel v w \<Longrightarrow> reg_rel u w"
  by (simp add: reg_rel_def)

lemma reg_inv_upd [simp]:
  "reg_inv (w\<lparr>w_cs := cs\<rparr>) = reg_inv w" "reg_inv (w\<lparr>w_event := ev\<rparr>) = reg_inv w"
  "reg_inv (w\<lparr>w_event_frame := f\<rparr>) = reg_inv w" "reg_inv (w\<lparr>w_index := i\<rparr>) = reg_inv w"
  "reg_inv (w\<lparr>w_queue := q\<rparr>) = reg_inv w" "reg_inv (w\<lparr>w_wheel := wh\<rparr>) = reg_inv w"
  "reg_inv (w\<lparr>w_env := e\<rparr>) = reg_inv w" "reg_inv (w\<lparr>w_cur_node := cn\<rparr>) = reg_inv w"
  "reg_inv (w\<lparr>w_cur_agent := ca\<rparr>) = reg_inv w" "reg_inv (w\<lparr>w_in_step := b\<rparr>) = reg_inv w"
  "reg_inv (w\<lparr>w_frame := k\<rparr>) = reg_inv w"
  by (simp_all add: reg_inv_def view_def)

lemma Register_reg: "Register obj w = Some (a, w') \<Longrightarrow> reg_rel w w'"
proof (erule Register_cases)
  fix wh
  assume obj: "GetAgent obj w = None" and a: "a = w_next_agent w"
    and w': "w' = w\<lparr>w_agents := (w_agents w)(a \<mapsto> \<lparr>agent_id = w_id_count w + 1,
            tick_interval = DEFAULT_AGENT_TICK, agent_status = AgentRunning, chart_dict = [],
            game_object = obj\<rparr>), w_next_agent := a + 1, w_wheel := wh,
          w_object_map := AList.update obj a (w_object_map w), w_id_count := w_id_count w + 1,
          w_agent_map := AList.update (w_id_count w + 1) a (w_agent_map w)\<rparr>"
  have view: "view b w' = (if b = a then Some (w_id_count w + 1, obj, AgentRunning) else view b w)" for b
    by (simp add: view_def w' agent_view_def)
  show "reg_rel w w'"
    unfolding reg_rel_def
  proof
    assume "reg_inv w"
    note inv = reg_invD [OF this]
    have maps: "map_of (w_agent_map w') = (map_of (w_agent_map w))(w_id_count w + 1 \<mapsto> a)"
      "map_of (w_object_map w') = (map_of (w_object_map w))(obj \<mapsto> a)"
      "w_dying w' = w_dying w" "w_next_agent w' = a + 1" "w_id_count w' = w_id_count w + 1"
      by (simp_all add: w' update_conv')
    have bound: "b < a" "i \<le> w_id_count w" if "view b w = Some (i, ob, s)" for b i ob s
      using inv(5) [OF that] a by simp_all
    then have none: "view a w = None" by (cases "view a w") fastforce+
    have new: "view b w \<noteq> Some (i, obj, AgentRunning)" for b i
      using inv(2) [of obj b] obj by (auto simp: GetAgent_def)
    show "reg_inv w'"
    proof (rule reg_invI)
      show "map_of (w_agent_map w') i = Some b \<longleftrightarrow> (\<exists>ob. view b w' = Some (i, ob, AgentRunning))" for i b
        using inv(1) [of i b] none bound(2) [of b i] by (cases "b = a") (auto simp: view maps)
      show "map_of (w_object_map w') ob = Some b \<longleftrightarrow> (\<exists>i. view b w' = Some (i, ob, AgentRunning))" for ob b
        using inv(2) [of ob b] none new by (cases "b = a") (auto simp: view maps)
      show "b \<in> set (dying (w_dying w')) \<longleftrightarrow> (\<exists>i ob. view b w' = Some (i, ob, AgentDestroying))" for b
        using inv(3) [of b] none by (auto simp: view maps)
      show "b < w_next_agent w' \<and> i \<le> w_id_count w'" if "view b w' = Some (i, ob, s)" for b i ob s
        using that bound [of b i ob s] by (auto simp: view maps split: if_splits)
      show "b = c" if "view b w' = Some (i, ob, s)" "view c w' = Some (i, ob', s')" for b c i ob ob' s s'
        using that bound inv(6) by (fastforce simp: view split: if_splits)
      show "distinct (map fst (w_agent_map w'))" using inv(7) by (simp add: w' distinct_update)
    qed (simp add: maps inv(4))
  qed
qed (simp add: reg_rel_def)

lemma Unregister_reg:
  assumes "Manager_UnregisterGameObject ao w = Some (b, w')"
  shows "reg_rel w w'"
  using assms
proof (cases rule: Unregister_cases)
  case (2 a ag w1 ag1)
  have va: "view a w = Some (agent_id ag, game_object ag, AgentRunning)"
    using 2 by (simp add: view_def agent_view_def)
  have view: "view c w' = (if c = a then Some (agent_id ag, game_object ag, AgentDestroying) else view c w)" for c
    using quiet_sel(19) [OF 2(4), of c] by (simp add: view_def 2(8) agent_view_def)
  have sel: "w_agent_map w1 = w_agent_map w" "w_object_map w1 = w_object_map w" "w_dying w1 = w_dying w"
    "w_next_agent w1 = w_next_agent w" "w_id_count w1 = w_id_count w" "w_in_step w1 = w_in_step w"
    using quiet_sel [OF 2(4)] by simp_all
  have dying: "set (dying (w_dying w')) = insert a (set (dying (w_dying w)))"
    "distinct (dying (w_dying w')) = (distinct (dying (w_dying w)) \<and> a \<notin> set (dying (w_dying w)))"
    by (auto simp: 2(8) sel dying_def AddDyingAgent_def)
  show ?thesis
    unfolding reg_rel_def
  proof
    assume "reg_inv w"
    note inv = reg_invD [OF this]
    have maps: "map_of (w_agent_map w') = (map_of (w_agent_map w))(agent_id ag := None)"
      "map_of (w_object_map w') = (map_of (w_object_map w))(game_object ag := None)"
      "w_next_agent w' = w_next_agent w" "w_id_count w' = w_id_count w"
      by (simp_all add: 2(8) sel delete_conv')
    have notin: "a \<notin> set (dying (w_dying w))" using inv(3) [of a] va by simp
    have id: "view c w \<noteq> Some (agent_id ag, ob, s)" if "c \<noteq> a" for c ob s
      using inv(6) [OF _ va] that by blast
    have obj: "view c w \<noteq> Some (i, game_object ag, AgentRunning)" if "c \<noteq> a" for c i
      using inv(2) that va by (metis option.inject)
    show "reg_inv w'"
    proof (rule reg_invI)
      show "map_of (w_agent_map w') i = Some b \<longleftrightarrow> (\<exists>ob. view b w' = Some (i, ob, AgentRunning))" for i b
        using inv(1) [of i b] id va by (cases "b = a"; cases "i = agent_id ag") (auto simp: view maps)
      show "map_of (w_object_map w') ob = Some b \<longleftrightarrow> (\<exists>i. view b w' = Some (i, ob, AgentRunning))" for ob b
        using inv(2) [of ob b] obj va by (cases "b = a"; cases "ob = game_object ag") (auto simp: view maps)
      show "b \<in> set (dying (w_dying w')) \<longleftrightarrow> (\<exists>i ob. view b w' = Some (i, ob, AgentDestroying))" for b
        using inv(3) [of b] by (auto simp: view dying(1))
      show "b < w_next_agent w' \<and> i \<le> w_id_count w'" if "view b w' = Some (i, ob, s)" for b i ob s
        using that inv(5) [OF va] inv(5) [of b] by (auto simp: view maps split: if_splits)
      show "b = c" if "view b w' = Some (i, ob, s)" "view c w' = Some (i, ob', s')" for b c i ob ob' s s'
        using that inv(6) id by (auto simp: view split: if_splits)
      show "distinct (map fst (w_agent_map w'))" using inv(7) by (simp add: 2(8) sel distinct_delete)
    qed (simp add: dying(2) inv(4) notin)
  qed
qed (simp add: reg_rel_def)

lemma setter_reg:
  "SetStatus s n w = Some w' \<Longrightarrow> reg_same w w'" "SetResult r n w = Some w' \<Longrightarrow> reg_same w w'"
  "SetSkip b n w = Some w' \<Longrightarrow> reg_same w w'"
  unfolding SetStatus_def SetResult_def SetSkip_def by (blast intro: quiet_reg quiet.node_law)+

lemma reg_same_trans: "reg_same u v \<Longrightarrow> reg_same v w \<Longrightarrow> reg_same u w"
  by (simp add: reg_same_def)

lemma on_cs_reg: "on_cs f w = Some w' \<Longrightarrow> reg_same w w'"
  by (auto simp: on_cs_Some intro: reg_same_fields)

lemma async_ops_reg:
  "AddNode n w = Some w' \<Longrightarrow> reg_same w w'" "RemoveNode n w = Some w' \<Longrightarrow> reg_same w w'"
  "ActivateNode n b w = Some w' \<Longrightarrow> reg_same w w'"
proof -
  show "AddNode n w = Some w' \<Longrightarrow> reg_same w w'" "RemoveNode n w = Some w' \<Longrightarrow> reg_same w w'"
    by (auto simp: AddNode_def RemoveNode_def on_cs_Some reg_same_def view_def elim!: bind_SomeE)
  assume "ActivateNode n b w = Some w'"
  then have "w' = w \<or> (\<exists>w1. on_cs (Aact_Push n) w = Some w1 \<and> SetSkip b n w1 = Some w')"
    by (auto simp: ActivateNode_def elim!: bind_SomeE split: if_splits)
  then show "reg_same w w'"
    using reg_same_fields reg_same_trans on_cs_reg setter_reg(3) by blast
qed

lemma async_reg:
  "CreateAsyncContext w = Some (x, w') \<Longrightarrow> reg_same w w'"
  "ContinueAsyncNode ctx w = Some (b, w') \<Longrightarrow> reg_same w w'"
  "CancelAsyncNode ctx stop w = Some (b, w') \<Longrightarrow> reg_same w w'"
  unfolding CreateAsyncContext_def ContinueAsyncNode_def CancelAsyncNode_def
  by (auto elim!: bind_SomeE split: option.splits if_splits intro: reg_same_fields
      dest!: setter_reg async_ops_reg) (blast intro: reg_same_trans)+

lemma prim_reg:
  "wait_Push k n w = Some w' \<Longrightarrow> reg_same w w'" "exec_Push i n w = Some w' \<Longrightarrow> reg_same w w'"
  "exec_Pop i w = Some (n, w') \<Longrightarrow> reg_same w w'" "add_timer t ms w = Some w' \<Longrightarrow> reg_same w w'"
  "CreateChart d owner w = Some (c, w') \<Longrightarrow> reg_same w w'"
  by (auto dest!: prim_Some intro: reg_same_fields)

lemma misc_reg:
  "reg_rel w (w\<lparr>w_cur_node := cn\<rparr>)" "reg_rel w (w\<lparr>w_cur_agent := ca\<rparr>)" "reg_rel w w"
  "reg_rel w (w\<lparr>w_env := e\<rparr>)" "reg_rel w (w\<lparr>w_event := ev\<rparr>)" "reg_rel w (post_event evt imm w)"
  "reg_rel w (w\<lparr>w_cs := cs\<rparr>)" "reg_rel w (w\<lparr>w_wheel := wh\<rparr>)" "reg_rel w (w\<lparr>w_queue := q\<rparr>)"
  by (simp_all add: post_event_def reg_rel_def)

lemma bracket_reg:
  "reg_rel (w\<lparr>w_index := w_index w + 1\<rparr>) w' \<Longrightarrow> reg_rel w (w'\<lparr>w_index := w_index w\<rparr>)"
  "on_cs (wait_swap k) w = Some w1 \<Longrightarrow> reg_rel w1 w2 \<Longrightarrow> on_cs local_delete w2 = Some w3 \<Longrightarrow> reg_rel w w3"
  "on_cs (wait_swap k) (w\<lparr>w_event_frame := w_event_frame w + 1\<rparr>) = Some w1 \<Longrightarrow> reg_rel w1 w2 \<Longrightarrow>
    on_cs local_delete (w2\<lparr>w_event_frame := w_event_frame w2 - 1, w_event := ev\<rparr>) = Some w3 \<Longrightarrow> reg_rel w w3"
  by (auto simp: on_cs_Some reg_rel_def)

interpretation reg: step_rel reg_rel "\<lambda>_. True"
proof unfold_locales
  show "upd_agent a h w = Some w' \<Longrightarrow> (\<And>ag. agent_id (h ag) = agent_id ag
      \<and> game_object (h ag) = game_object ag \<and> agent_status (h ag) = agent_status ag)
      \<Longrightarrow> reg_rel w w'" for a h and w w' :: "'e world"
    by (rule reg_same_rel, rule quiet_reg, rule quiet.agent_law) blast+
  show "upd_chart c g w = Some w' \<Longrightarrow> (\<And>ch. nodes (g ch) = nodes ch
      \<and> owner_node (g ch) = owner_node ch \<and> chart_data_ptr (g ch) = chart_data_ptr ch)
      \<Longrightarrow> reg_rel w w'" for c g and w w' :: "'e world"
    by (rule reg_same_rel, rule quiet_reg, rule quiet.chart_law) blast+
  show "reg_rel u v \<Longrightarrow> reg_rel v w \<Longrightarrow> reg_rel u w" for u v w :: "'e world"
    by (rule reg_rel_trans)
qed (erule Register_reg Unregister_reg bracket_reg(1) | rule misc_reg
    | rule bracket_reg(2,3), assumption, assumption, assumption
    | rule reg_same_rel, erule prim_reg async_reg on_cs_reg
    | rule reg_same_rel, rule quiet_reg, rule quiet.cancel_timer_law quiet.free_law
    | rule reg_same_rel, rule quiet_reg, erule quiet.node_law)+

section \<open>Properties\<close>

text \<open>C13. A call of the module, with all the flows it runs, keeps the registration consistent: the
  map of identifiers and the map of objects hold exactly the running agents, the list of dying
  agents holds the others once each, and no two agents share an identifier.\<close>

theorem module_call_registry:
  assumes "reg_inv w" "exec_api H (top_knot H) a w = Some (r, w')"
  shows "reg_inv w'"
  using reg.api_respects [OF host_calls_True TrueI assms(2)] assms(1) by (simp add: reg_rel_def)

end
