(* ===== verification/Container_Safety.thy ===== *)
theory Container_Safety
  imports Engine_Frame
begin

text \<open>
  No container ever holds a node of a chart that was destroyed: the containers keep bare pointers,
  so this is what makes popping from them safe. It holds as long as no node suspends itself with an
  asynchronous context: the set of suspended nodes keeps nodes that were stopped since, see
  \<open>stale_async_context\<close> in theory \<open>Example_Worlds\<close>.
\<close>

section \<open>What the operations add to the containers\<close>

lemma contained_purged: "contained m (purge n cs) \<Longrightarrow> contained m cs"
  by (simp add: purge_contained)

lemma contained_Exec_Push:
  assumes "cs_inv cs" "Exec_Push k n cs = Some cs'" "contained m cs'"
  shows "m = n \<or> contained m cs"
proof -
  have "cs' = set_of n (Some (CExec k)) ((purge n cs)
      \<lparr>cs_exec := (cs_exec (purge n cs))(k := cs_exec (purge n cs) k @ [n])\<rparr>)"
    using assms by (simp add: Exec_Push_def leave_purge)
  with assms(3) have "m = n \<or> contained m (purge n cs)"
    by (auto simp: contained_def simp del: purge_sel split: if_splits)
  then show ?thesis using contained_purged by blast
qed

lemma contained_Wait_Push:
  assumes "cs_inv cs" "Wait_Push k n cs = Some cs'" "contained m cs'"
  shows "m = n \<or> contained m cs"
proof -
  let ?p = "purge n cs"
  obtain xs where xs: "map_of (cs_wait ?p) k = Some xs"
    and cs': "cs' = set_of n (Some (CWait (fst k) (snd k)))
      (?p\<lparr>cs_wait := AList.update k (xs @ [n]) (cs_wait ?p)\<rparr>)"
    using assms by (auto simp: Wait_Push_def leave_purge simp del: purge_sel elim!: bind_SomeE
        split: if_splits)
  have "distinct (map fst (cs_wait ?p))" using purge_inv [OF assms(1)] by (simp add: cs_inv_def)
  then obtain us vs where "rings ?p = us @ xs @ vs @ concat (cs_local ?p)"
    "rings cs' = us @ (xs @ [n]) @ vs @ concat (cs_local ?p)"
    using rings_update [OF xs, of "xs @ [n]"] by (auto simp: rings_def cs' simp del: purge_sel set_concat)
  then have "set (rings cs') \<subseteq> insert n (set (rings ?p))" by auto
  with assms(3) have "m = n \<or> contained m ?p"
    unfolding contained_def by (auto simp: cs' simp del: purge_sel)
  then show ?thesis using contained_purged by blast
qed

lemma rings_wait_create: "rings (wait_create k cs) = rings cs"
  by (simp add: wait_create_def rings_def)

lemma contained_wait_create: "contained m (wait_create k cs) = contained m cs"
proof -
  have "cs_exec (wait_create k cs) = cs_exec cs" "cs_await (wait_create k cs) = cs_await cs"
    "cs_aact (wait_create k cs) = cs_aact cs" by (simp_all add: wait_create_def)
  then show ?thesis by (simp add: contained_def rings_wait_create)
qed

lemma contained_wait_swap:
  assumes "cs_inv cs" "wait_swap k cs = Some cs'" "contained m cs'"
  shows "contained m cs"
proof -
  obtain xs where xs: "map_of (cs_wait cs) k = Some xs"
    and cs': "cs' = cs\<lparr>cs_wait := AList.update k [] (cs_wait cs), cs_local := xs # cs_local cs\<rparr>"
    using assms(2) by (auto simp: wait_swap_def elim!: bind_SomeE)
  have "distinct (map fst (cs_wait cs))" using assms(1) by (simp add: cs_inv_def)
  then obtain us vs where "rings cs = us @ xs @ vs @ concat (cs_local cs)"
    "rings cs' = us @ vs @ xs @ concat (cs_local cs)"
    using rings_update [OF xs, of "[]"] by (auto simp: rings_def cs')
  then have "set (rings cs') \<subseteq> set (rings cs)" by auto
  with assms(3) show ?thesis unfolding contained_def by (auto simp: cs')
qed

lemma contained_pops:
  "Exec_Pop k cs = Some (n, cs') \<Longrightarrow> contained m cs' \<Longrightarrow> contained m cs"
  "local_Pop cs = Some (n, cs') \<Longrightarrow> contained m cs' \<Longrightarrow> contained m cs"
  "local_delete cs = Some cs' \<Longrightarrow> contained m cs' \<Longrightarrow> contained m cs"
  "Aact_Pop cs = Some (r, cs') \<Longrightarrow> contained m cs' \<Longrightarrow> contained m cs"
  "contained m (Exec_clear k cs) \<Longrightarrow> contained m cs" "contained m (hist_clear k cs) \<Longrightarrow> contained m cs"
  "contained m (wait_delete a cs) \<Longrightarrow> contained m cs"
proof -
  show "Exec_Pop k cs = Some (n, cs') \<Longrightarrow> contained m cs' \<Longrightarrow> contained m cs"
    by (auto simp: Exec_Pop_def contained_def Let_def split: if_splits) (metis in_set_butlastD)+
  show "local_Pop cs = Some (n, cs') \<Longrightarrow> contained m cs' \<Longrightarrow> contained m cs"
    by (auto simp: local_Pop_def contained_def rings_def set_of_def split: list.splits)
  show "local_delete cs = Some cs' \<Longrightarrow> contained m cs' \<Longrightarrow> contained m cs"
    by (auto simp: local_delete_def contained_def rings_def clear_of_def split: list.splits)
  show "Aact_Pop cs = Some (r, cs') \<Longrightarrow> contained m cs' \<Longrightarrow> contained m cs"
    by (auto simp: Aact_Pop_def contained_def split: list.splits)
  show "contained m (Exec_clear k cs) \<Longrightarrow> contained m cs" "contained m (hist_clear k cs) \<Longrightarrow> contained m cs"
    by (auto simp: Exec_clear_def hist_clear_def contained_def split: if_splits)
  show "contained m (wait_delete a cs) \<Longrightarrow> contained m cs"
    by (auto simp: wait_delete_def contained_def rings_def clear_of_def) force
qed

section \<open>Safe worlds\<close>

definition safe :: "'e world \<Rightarrow> bool" where
  "safe w \<longleftrightarrow> cs_inv (w_cs w) \<and> w_async w = {}
     \<and> (\<forall>n. contained n (w_cs w) \<longrightarrow> get_node n w \<noteq> None)
     \<and> (\<forall>c. w_charts w c \<noteq> None \<longrightarrow> c < w_next_chart w)"

definition safe_rel :: "'e world \<Rightarrow> 'e world \<Rightarrow> bool" where
  "safe_rel w w' \<longleftrightarrow> (safe w \<longrightarrow> safe w')"

text \<open>Stopping and destroying only take nodes out of containers.\<close>

definition shrinks :: "'e world \<Rightarrow> 'e world \<Rightarrow> bool" where
  "shrinks w w' \<longleftrightarrow> (safe w \<longrightarrow> safe w' \<and> (\<forall>n. contained n (w_cs w') \<longrightarrow> contained n (w_cs w)))"

lemma shrinks_refl: "shrinks w w" and shrinks_trans: "shrinks u v \<Longrightarrow> shrinks v w \<Longrightarrow> shrinks u w"
  by (simp_all add: shrinks_def)

lemma shrinks_safe: "shrinks w w' \<Longrightarrow> safe_rel w w'"
  by (simp add: shrinks_def safe_rel_def)

text \<open>A step that leaves the containers alone and destroys no node.\<close>

lemma same_containers:
  assumes "w_cs w' = w_cs w" "w_async w' = w_async w" "w_next_chart w' = w_next_chart w"
    and "\<And>n. get_node n w \<noteq> None \<Longrightarrow> get_node n w' \<noteq> None"
    and "\<And>c. w_charts w' c \<noteq> None \<Longrightarrow> w_charts w c \<noteq> None"
  shows "shrinks w w'"
  using assms by (fastforce simp: shrinks_def safe_def)

lemma same_charts:
  "w_cs w' = w_cs w \<Longrightarrow> w_async w' = w_async w \<Longrightarrow> w_next_chart w' = w_next_chart w
    \<Longrightarrow> w_charts w' = w_charts w \<Longrightarrow> shrinks w w'"
  by (rule same_containers) (simp_all add: get_node_def)

lemma upd_node_shrinks: "upd_node n f w = Some w' \<Longrightarrow> shrinks w w'"
  by (rule same_containers) (auto simp: upd_node_Some get_node_def split: if_splits)

lemma upd_chart_shrinks:
  assumes "upd_chart c g w = Some w'" "\<And>ch. nodes (g ch) = nodes ch"
  shows "shrinks w w'"
proof -
  obtain ch where "w_charts w c = Some ch" "w' = w\<lparr>w_charts := (w_charts w)(c \<mapsto> g ch)\<rparr>"
    using assms(1) by (auto simp: upd_chart_Some)
  then show ?thesis by (intro same_containers) (auto simp: get_node_def assms(2) split: if_splits)
qed

lemma upd_agent_shrinks: "upd_agent a h w = Some w' \<Longrightarrow> shrinks w w'"
  by (rule same_charts) (auto simp: upd_agent_Some)

lemma stop_rel_shrinks:
  assumes "stop_rel w w'"
  shows "shrinks w w'"
proof -
  have s: "shape w' = shape w" using assms by (simp add: stop_rel_def)
  have charts: "w_charts w' c \<noteq> None \<longleftrightarrow> w_charts w c \<noteq> None" for c
    using arg_cong [OF s, of "\<lambda>w. w_charts w c"] by (metis map_option_is_None shape_sel(3))
  have nodes: "get_node n w' \<noteq> None \<longleftrightarrow> get_node n w \<noteq> None" for n
    using arg_cong [OF s, of "get_node n"] by (metis get_node_shape map_option_is_None)
  have "w_async w' = w_async w" "w_next_chart w' = w_next_chart w"
    using arg_cong [OF s, of w_async] arg_cong [OF s, of w_next_chart] by (simp_all add: shape_def)
  with charts nodes assms show ?thesis by (auto simp: shrinks_def safe_def stop_rel_def)
qed

section \<open>Destroying a chart\<close>

lemma set_attacher_shrinks: "set_attacher x n w = Some w' \<Longrightarrow> shrinks w w'"
  unfolding set_attacher_def by (rule upd_node_shrinks)

lemma SetAttacher_with_shrinks:
  assumes "\<And>c w w'. del c w = Some w' \<Longrightarrow> shrinks w w'" "SetAttacher_with del a n w = Some w'"
  shows "shrinks w w'"
proof -
  from assms(2) obtain nd :: node and w1 where
    w1: "(case attacher nd of None \<Rightarrow> Some w | Some old \<Rightarrow> delete_attacher del old n w) = Some w1"
    and w': "set_attacher a n w1 = Some w'"
    unfolding SetAttacher_with_def by (elim bind_SomeE) (rule that)
  have "shrinks w (cancel_timer t w)" for t by (rule same_charts) (simp_all add: cancel_timer_def)
  then have "shrinks w w1" using w1 shrinks_refl assms(1)
    by (auto simp: delete_attacher_def split: option.splits attacher.splits)
  with set_attacher_shrinks [OF w'] show ?thesis using shrinks_trans by blast
qed

lemma EraseChart_shrinks: "EraseChart a c w = Some (b, w') \<Longrightarrow> shrinks w w'"
proof -
  assume "EraseChart a c w = Some (b, w')"
  then have "w' = w \<or> (\<exists>w1 d. set_agent None c w = Some w1
      \<and> upd_agent a (\<lambda>ag. ag\<lparr>chart_dict := d ag\<rparr>) w1 = Some w')"
    by (fastforce simp: EraseChart_def elim!: bind_SomeE split: option.splits if_splits)
  moreover have "set_agent None c w = Some w1 \<Longrightarrow> shrinks w w1" for w1
    unfolding set_agent_def by (erule upd_chart_shrinks) simp
  ultimately show ?thesis using shrinks_refl shrinks_trans upd_agent_shrinks by blast
qed

lemma Node_Stop_fuel_stopped:
  "Node_Stop_with (Chart_Stop_fuel f) n w = Some w' \<Longrightarrow>
    stop_rel w w' \<and> (cs_inv (w_cs w) \<longrightarrow> node_stopped n w')"
  by (rule Node_Stop_with_rel [OF Chart_Stop_fuel_stop_rel])

text \<open>Every node is taken out of its container before the chart is freed.\<close>

lemma delete_nodes_shrinks:
  assumes del: "\<And>c w w'. del c w = Some w' \<Longrightarrow> shrinks w w'"
  shows "foldM (\<lambda>i. delete_node f del (NP c i)) is w = Some w' \<Longrightarrow>
    shrinks w w' \<and> (safe w \<longrightarrow> (\<forall>i \<in> set is. \<not> contained (NP c i) (w_cs w')))"
proof (induction "is" arbitrary: w)
  case (Cons i "is")
  from Cons.prems obtain v where d: "delete_node f del (NP c i) w = Some v"
    and w': "foldM (\<lambda>i. delete_node f del (NP c i)) is v = Some w'"
    by (auto elim!: bind_SomeE)
  from d obtain u where u: "Node_Stop_with (Chart_Stop_fuel f) (NP c i) w = Some u"
    and v: "SetAttacher_with del None (NP c i) u = Some v"
    by (auto simp: delete_node_def elim!: bind_SomeE)
  have 1: "shrinks w u" using Node_Stop_fuel_stopped [OF u] stop_rel_shrinks by blast
  have 2: "shrinks u v" by (rule SetAttacher_with_shrinks [OF del v])
  have 3: "shrinks v w'" using Cons.IH [OF w'] by blast
  have "\<not> contained (NP c i) (w_cs w')" if "safe w"
  proof -
    have "\<not> contained (NP c i) (w_cs u)"
      using Node_Stop_fuel_stopped [OF u] that by (simp add: safe_def node_stopped_def)
    with 1 2 3 that show ?thesis by (auto simp: shrinks_def)
  qed
  with 1 2 3 Cons.IH [OF w'] shrinks_trans show ?case by (auto simp: shrinks_def)
qed (simp add: shrinks_refl)

lemma ClearVariables_shrinks: "ClearVariables c w = Some w' \<Longrightarrow> shrinks w w'"
  by (rule stop_rel_shrinks [OF clear_variables_rel])

lemma delete_chart_fuel_shrinks: "delete_chart_fuel f c w = Some w' \<Longrightarrow> shrinks w w'"
proof (induction f arbitrary: c w w')
  case (Suc f)
  then obtain w1 w2 w3 w4 and ch ch2 :: chart where w1: "ClearVariables c w = Some w1"
    and ch: "w_charts w1 c = Some ch"
    and w2: "foldM (\<lambda>i. delete_node f (delete_chart_fuel f) (NP c i)) [0..<length (nodes ch)] w1 = Some w2"
    and w3: "(case chart_agent ch2 of None \<Rightarrow> Some w2 | Some a \<Rightarrow> map_option snd (EraseChart a c w2)) = Some w3"
    and w4: "(case owner_node ch2 of None \<Rightarrow> Some w3 | Some n \<Rightarrow> set_attacher None n w3) = Some w4"
    and w': "w' = w4\<lparr>w_charts := (w_charts w4)(c := None)\<rparr>"
    unfolding delete_chart_fuel.simps by (elim bind_SomeE) (erule (4) that [OF _ _ _ _ _ sym], simp)
  note fold = delete_nodes_shrinks [OF Suc.IH w2]
  have s1: "shrinks w w1" by (rule ClearVariables_shrinks [OF w1])
  have s3: "shrinks w2 w3" using w3 shrinks_refl EraseChart_shrinks by (auto split: option.splits)
  have s4: "shrinks w3 w4" using w4 shrinks_refl set_attacher_shrinks by (auto split: option.splits)
  have s: "shrinks w w4" 
    by (rule shrinks_trans [OF s1 shrinks_trans [OF conjunct1 [OF fold] shrinks_trans [OF s3 s4]]])
  have "np_chart n \<noteq> c" if "safe w" "contained n (w_cs w4)" for n
  proof
    assume n: "np_chart n = c"
    have "safe w1" "contained n (w_cs w1)" using that s1 fold s3 s4 by (auto simp: shrinks_def)
    then have "np_index n < length (nodes ch)" using ch n by (auto simp: safe_def get_node_def)
    then have "\<not> contained (NP c (np_index n)) (w_cs w2)" using fold \<open>safe w1\<close> by simp
    moreover have "contained n (w_cs w2)" using that s1 fold s3 s4 by (auto simp: shrinks_def)
    ultimately show False using n by (metis nptr.collapse)
  qed
  with s show ?case by (auto simp: w' shrinks_def safe_def get_node_def)
qed simp

section \<open>Every operation of the engine\<close>

lemma safe_rel_refl: "safe_rel w w" and safe_rel_trans: "safe_rel u v \<Longrightarrow> safe_rel v w \<Longrightarrow> safe_rel u w"
  by (simp_all add: safe_rel_def)

text \<open>An operation on the containers alone, which may only add nodes that exist.\<close>

lemma cs_safe:
  assumes "cs_inv (w_cs w) \<Longrightarrow> cs_inv cs"
    and "\<And>n. cs_inv (w_cs w) \<Longrightarrow> contained n cs \<Longrightarrow> contained n (w_cs w) \<or> get_node n w \<noteq> None"
  shows "safe_rel w (w\<lparr>w_cs := cs\<rparr>)"
  using assms by (fastforce simp: safe_rel_def safe_def get_node_def)

lemma on_cs_safe:
  assumes "on_cs f w = Some w'" "\<And>cs cs'. cs_inv cs \<Longrightarrow> f cs = Some cs' \<Longrightarrow> cs_inv cs'"
    and "\<And>cs cs' n. cs_inv cs \<Longrightarrow> f cs = Some cs' \<Longrightarrow> contained n cs' \<Longrightarrow> contained n cs"
  shows "safe_rel w w'"
proof -
  obtain cs where "f (w_cs w) = Some cs" "w' = w\<lparr>w_cs := cs\<rparr>" using assms(1) by (auto simp: on_cs_Some)
  then show ?thesis using assms(2,3) by (auto intro: cs_safe)
qed

lemma push_safe:
  "wait_Push k n w = Some w' \<Longrightarrow> safe_rel w w'" "exec_Push i n w = Some w' \<Longrightarrow> safe_rel w w'"
proof -
  assume "wait_Push k n w = Some w'"
  then obtain nd cs where n: "get_node n w = Some nd" and cs: "Wait_Push k n (wait_create k (w_cs w)) = Some cs"
    and w': "w' = w\<lparr>w_cs := cs\<rparr>" by (auto simp: wait_Push_def on_cs_Some elim!: bind_SomeE)
  show "safe_rel w w'" unfolding w'
    using n cs Wait_Push_inv wait_create_inv contained_Wait_Push contained_wait_create
    by (intro cs_safe) (blast, metis option.distinct(1))
next
  assume "exec_Push i n w = Some w'"
  then obtain nd cs where n: "get_node n w = Some nd" and cs: "Exec_Push i n (w_cs w) = Some cs"
    and w': "w' = w\<lparr>w_cs := cs\<rparr>" by (auto simp: exec_Push_def on_cs_Some elim!: bind_SomeE)
  show "safe_rel w w'" unfolding w'
    using n cs Exec_Push_inv contained_Exec_Push by (intro cs_safe) (blast, metis option.distinct(1))
qed

lemma pop_safe:
  "exec_Pop i w = Some (n, w') \<Longrightarrow> safe_rel w w'"
  "local_Pop (w_cs w) = Some (n, cs) \<Longrightarrow> safe_rel w (w\<lparr>w_cs := cs\<rparr>)"
  "on_cs (\<lambda>cs. Some (Exec_clear i cs)) w = Some w' \<Longrightarrow> safe_rel w w'"
  "on_cs (\<lambda>cs. Some (hist_clear i cs)) w = Some w' \<Longrightarrow> safe_rel w w'"
  "on_cs (wait_swap k) w = Some w' \<Longrightarrow> safe_rel w w'"
  "on_cs local_delete w = Some w' \<Longrightarrow> safe_rel w w'"
proof -
  show "exec_Pop i w = Some (n, w') \<Longrightarrow> safe_rel w w'"
    by (auto dest!: prim_Some(3) intro!: cs_safe dest: Exec_Pop_inv contained_pops(1))
  show "local_Pop (w_cs w) = Some (n, cs) \<Longrightarrow> safe_rel w (w\<lparr>w_cs := cs\<rparr>)"
    by (auto intro!: cs_safe dest: local_Pop_inv contained_pops(2))
  show "on_cs (\<lambda>cs. Some (Exec_clear i cs)) w = Some w' \<Longrightarrow> safe_rel w w'"
    "on_cs (\<lambda>cs. Some (hist_clear i cs)) w = Some w' \<Longrightarrow> safe_rel w w'"
    by (erule on_cs_safe; auto intro: Exec_clear_inv hist_clear_inv contained_pops(5,6))+
  show "on_cs (wait_swap k) w = Some w' \<Longrightarrow> safe_rel w w'"
    by (erule on_cs_safe) (auto dest: wait_swap_inv contained_wait_swap)
  show "on_cs local_delete w = Some w' \<Longrightarrow> safe_rel w w'"
    by (erule on_cs_safe) (auto dest: local_delete_inv contained_pops(3))
qed

lemma CreateChart_safe: "CreateChart d owner w = Some (c, w') \<Longrightarrow> safe_rel w w'"
proof -
  assume "CreateChart d owner w = Some (c, w')"
  then obtain ch where c: "c = w_next_chart w"
    and w': "w' = w\<lparr>w_charts := (w_charts w)(c \<mapsto> ch), w_next_chart := c + 1\<rparr>"
    by (auto simp: CreateChart_def Let_def elim!: bind_SomeE)
  show ?thesis unfolding safe_rel_def
  proof
    assume s: "safe w"
    then have "w_charts w c = None" using c by (auto simp: safe_def)
    then have "get_node n w \<noteq> None \<Longrightarrow> get_node n w' \<noteq> None" for n
      by (auto simp: get_node_def w')
    with s c show "safe w'" by (fastforce simp: safe_def w')
  qed
qed

lemma stop_and_remove_safe: "stop_and_remove n w = Some w' \<Longrightarrow> safe_rel w w'"
proof -
  assume "stop_and_remove n w = Some w'"
  then obtain w1 where w1: "Node_Stop n w = Some w1"
    and w': "on_cs (\<lambda>cs. Some (Exec_Remove (w_index w1) n cs)) w1 = Some w'"
    by (auto simp: stop_and_remove_def executor_Remove_def elim!: bind_SomeE)
  show ?thesis unfolding safe_rel_def
  proof
    assume s: "safe w"
    then have s1: "safe w1" "\<not> contained n (w_cs w1)"
      using Node_Stop_rel [OF w1] stop_rel_shrinks by (auto simp: shrinks_def safe_def node_stopped_def)
    obtain w0 where "on_cs (leave n) w0 = Some w1"
      using w1 by (auto simp: Node_Stop_def Node_Stop_with_def elim!: bind_SomeE)
    then have "cs_of (w_cs w1) n = None" by (auto simp: on_cs_Some intro: leave_of)
    then have "Exec_Remove (w_index w1) n (w_cs w1) = w_cs w1"
      using s1(2) by (cases "w_cs w1") (auto simp: Exec_Remove_def set_of_def contained_def)
    with w' s1 show "safe w'" by (simp add: on_cs_Some)
  qed
qed

lemma Register_safe: "Register obj w = Some (a, w') \<Longrightarrow> safe_rel w w'"
  by (erule Register_cases) (auto intro!: shrinks_safe same_charts safe_rel_refl)

lemma Unregister_safe: "Manager_UnregisterGameObject ao w = Some (b, w') \<Longrightarrow> safe_rel w w'"
proof -
  assume "Manager_UnregisterGameObject ao w = Some (b, w')"
  then have "w' = w \<or> (\<exists>a h w1 w2 w3. upd_agent a h w = Some w1 \<and> Agent_Stop a w1 = Some w2
      \<and> UnRegister a w2 = Some w3 \<and> w' = w3\<lparr>w_dying := AddDyingAgent a (w_in_step w3) (w_dying w3)\<rparr>)"
    by (auto simp: Manager_UnregisterGameObject_def elim!: bind_SomeE split: option.splits if_splits) blast
  moreover {
    fix a h and w1 w2 w3 :: "'a world"
    assume "upd_agent a h w = Some w1" "Agent_Stop a w1 = Some w2" "UnRegister a w2 = Some w3"
      and w': "w' = w3\<lparr>w_dying := AddDyingAgent a (w_in_step w3) (w_dying w3)\<rparr>"
    then have "shrinks w w1" "shrinks w2 w3" "shrinks w3 w'"
      by (auto simp: upd_agent_shrinks UnRegister_def elim!: bind_SomeE intro!: same_charts)
    moreover obtain cs where "foldM Chart_Stop cs w1 = Some w2"
      using \<open>Agent_Stop a w1 = Some w2\<close> by (auto simp: Agent_Stop_def elim!: bind_SomeE)
    then have "shrinks w1 w2"
      by (rule foldM_rel [OF shrinks_refl shrinks_trans, rotated 3]) (auto dest: Chart_Stop_rel intro: stop_rel_shrinks)
    ultimately have "shrinks w w'" using shrinks_trans by blast
  }
  ultimately show ?thesis using shrinks_safe safe_rel_refl by blast
qed

lemma async_safe:
  "ContinueAsyncNode ctx w = Some (b, w') \<Longrightarrow> safe_rel w w'"
  "CancelAsyncNode ctx stop w = Some (b, w') \<Longrightarrow> safe_rel w w'"
  by (auto simp: safe_rel_def safe_def ContinueAsyncNode_def CancelAsyncNode_def IsNodeWaiting_def
      split: option.splits)

lemma safe_upd [simp]:
  "safe (w\<lparr>w_event := ev\<rparr>) = safe w" "safe (w\<lparr>w_event_frame := f\<rparr>) = safe w"
  "safe (w\<lparr>w_index := i\<rparr>) = safe w" "safe (w\<lparr>w_queue := q\<rparr>) = safe w"
  "safe (w\<lparr>w_wheel := wh\<rparr>) = safe w" "safe (w\<lparr>w_env := e\<rparr>) = safe w"
  "safe (w\<lparr>w_cur_node := cn\<rparr>) = safe w" "safe (w\<lparr>w_cur_agent := ca\<rparr>) = safe w"
  "safe (w\<lparr>w_in_step := b\<rparr>) = safe w" "safe (w\<lparr>w_frame := k\<rparr>) = safe w"
  by (simp_all add: safe_def get_node_def)

interpretation safe: engine_rel safe_rel "\<lambda>a. a \<noteq> Py_suspend_node"
proof unfold_locales
  show "upd_chart c g w = Some w' \<Longrightarrow> (\<And>ch. nodes (g ch) = nodes ch
      \<and> owner_node (g ch) = owner_node ch \<and> chart_data_ptr (g ch) = chart_data_ptr ch)
      \<Longrightarrow> safe_rel w w'" for c g and w w' :: "'e world"
    by (rule shrinks_safe, erule upd_chart_shrinks, simp)
  show "safe_rel u v \<Longrightarrow> safe_rel v w \<Longrightarrow> safe_rel u w" for u v w :: "'e world"
    by (rule safe_rel_trans)
  show "on_cs (wait_swap k) w = Some w1 \<Longrightarrow> safe_rel w1 w2 \<Longrightarrow> on_cs local_delete w2 = Some w3
      \<Longrightarrow> safe_rel w w3" for k and w w1 w2 w3 :: "'e world"
    using pop_safe(5,6) safe_rel_trans by blast
  fix k ev and w w1 w2 w3 :: "'e world"
  assume "on_cs (wait_swap k) (w\<lparr>w_event_frame := w_event_frame w + 1\<rparr>) = Some w1" "safe_rel w1 w2"
    "on_cs local_delete (w2\<lparr>w_event_frame := w_event_frame w2 - 1, w_event := ev\<rparr>) = Some w3"
  then show "safe_rel w w3"
    using pop_safe(5) [of k "w\<lparr>w_event_frame := w_event_frame w + 1\<rparr>" w1] pop_safe(6) [of _ w3]
    by (fastforce simp: safe_rel_def)
qed (erule push_safe pop_safe CreateChart_safe stop_and_remove_safe Register_safe Unregister_safe async_safe
    | rule shrinks_safe, erule upd_node_shrinks upd_agent_shrinks
    | rule shrinks_safe, rule stop_rel_shrinks, drule Node_Stop_rel Chart_Stop_rel, erule conjunct1
    | rule shrinks_safe, unfold SetAttacher_def, erule SetAttacher_with_shrinks [rotated], erule delete_chart_fuel_shrinks
    | rule shrinks_safe, unfold delete_chart_def, erule delete_chart_fuel_shrinks
    | rule safe_rel_refl
    | simp add: safe_rel_def post_event_def cancel_timer_def; fail
    | auto simp: safe_rel_def add_timer_def elim!: bind_SomeE; fail)+

section \<open>Properties\<close>

text \<open>C11. As long as no script suspends its node, running a flow keeps the containers consistent and
  free of dangling pointers: every node in a container points back to it, is in no other container
  and belongs to a chart that exists.\<close>

theorem run_flow_containers:
  assumes "host_calls_only (\<lambda>a. a \<noteq> Py_suspend_node) H" "safe w" "RunFlow H n w = Some (b, w')"
  shows "safe w'"
  using safe.RunFlow_respects [OF assms(1,3)] assms(2) by (simp add: safe_rel_def)

end
