(* ===== verification/Manager_Inv.thy ===== *)
theory Manager_Inv
  imports Manager_Rel Registry Container_Safety
begin

text \<open>
  The invariants of a whole step of the manager: registration and containers.
\<close>

section \<open>Destroying the dying agents\<close>

lemma delete_agent_quiet:
  assumes "delete_agent a w = Some w'"
  obtains w1 where "quiet w w1" "w' = w1\<lparr>w_agents := (w_agents w1)(a := None)\<rparr>"
proof -
  let ?w = "cancel_timer (TAgent a) w"
  from assms obtain w1 w2 and ag :: agent where w1: "on_cs (\<lambda>cs. Some (wait_delete a cs)) ?w = Some w1"
    and w2: "foldM (\<lambda>(name, cs). delete_chart_list a name (length cs)) (chart_dict ag) w1 = Some w2"
    and w': "w' = w2\<lparr>w_agents := (w_agents w2)(a := None)\<rparr>"
    by (auto simp: delete_agent_def Let_def elim!: bind_SomeE)
  have "quiet ?w w1" using w1 by (auto simp: on_cs_Some quiet_def view_def wait_delete_def clear_of_def)
  moreover have "quiet w1 w2"
    by (rule foldM_rel [OF quiet.refl quiet.trans _ w2]) (auto intro: quiet.delete_chart_list_step)
  ultimately have "quiet w w2" using quiet.cancel_timer_law quiet.trans by blast
  then show ?thesis using w' by (rule that)
qed

lemma delete_agents_reg:
  assumes "foldM delete_agent as w = Some w'"
  shows "w_agent_map w' = w_agent_map w \<and> w_object_map w' = w_object_map w \<and> w_dying w' = w_dying w
    \<and> w_next_agent w' = w_next_agent w \<and> w_id_count w' = w_id_count w
    \<and> (\<forall>b. view b w' = (if b \<in> set as then None else view b w))"
  using assms
proof (induction as arbitrary: w)
  case (Cons a as)
  then obtain w1 where w1: "delete_agent a w = Some w1" and rest: "foldM delete_agent as w1 = Some w'"
    by (auto elim!: bind_SomeE)
  from w1 obtain v where v: "quiet w v" "w1 = v\<lparr>w_agents := (w_agents v)(a := None)\<rparr>"
    by (rule delete_agent_quiet)
  have "view b w1 = (if b = a then None else view b w)" for b
    using quiet_reg [OF v(1)] by (auto simp: v(2) view_def reg_same_def)
  with Cons.IH [OF rest] quiet_reg [OF v(1)] show ?case by (auto simp: v(2) reg_same_def)
qed simp

lemma destroy_reg: "destroy_agents w = Some w' \<Longrightarrow> reg_rel w w'"
proof -
  assume "destroy_agents w = Some w'"
  then obtain w1 where w1: "foldM delete_agent (destroying_agents (w_dying w)) w = Some w1"
    and w': "w' = w1\<lparr>w_dying := \<lparr>destroying_agents = next_destroying_agents (w_dying w),
        next_destroying_agents = []\<rparr>\<rparr>"
    by (auto simp: destroy_agents_def dying_step_def elim!: bind_SomeE)
  note d = delete_agents_reg [OF w1]
  have view: "view b w' = (if b \<in> set (destroying_agents (w_dying w)) then None else view b w)" for b
    using d by (simp add: w' view_def)
  have maps: "w_agent_map w' = w_agent_map w" "w_object_map w' = w_object_map w"
    "dying (w_dying w') = next_destroying_agents (w_dying w)" "w_next_agent w' = w_next_agent w"
    "w_id_count w' = w_id_count w"
    using d by (simp_all add: w' dying_def)
  show "reg_rel w w'" unfolding reg_rel_def
  proof
    assume "reg_inv w"
    note inv = reg_invD [OF this]
    have gone: "view b w \<noteq> Some (i, ob, AgentRunning)" if "b \<in> set (destroying_agents (w_dying w))" for b i ob
      using inv(3) [of b] that by (auto simp: dying_def)
    have dist: "distinct (next_destroying_agents (w_dying w))"
      "set (next_destroying_agents (w_dying w)) \<inter> set (destroying_agents (w_dying w)) = {}"
      using inv(4) by (auto simp: dying_def)
    show "reg_inv w'"
    proof (rule reg_invI)
      show "map_of (w_agent_map w') i = Some b \<longleftrightarrow> (\<exists>ob. view b w' = Some (i, ob, AgentRunning))" for i b
        using inv(1) [of i b] gone by (auto simp: view maps)
      show "map_of (w_object_map w') ob = Some b \<longleftrightarrow> (\<exists>i. view b w' = Some (i, ob, AgentRunning))" for ob b
        using inv(2) [of ob b] gone by (auto simp: view maps)
      show "b \<in> set (dying (w_dying w')) \<longleftrightarrow> (\<exists>i ob. view b w' = Some (i, ob, AgentDestroying))" for b
        using inv(3) [of b, unfolded dying_def] dist(2) by (auto simp: view maps(3))
      show "distinct (dying (w_dying w'))" using dist(1) by (simp add: maps)
      show "b < w_next_agent w' \<and> i \<le> w_id_count w'" if "view b w' = Some (i, ob, s)" for b i ob s
        using that inv(5) [of b] by (auto simp: view maps split: if_splits)
      show "b = c" if "view b w' = Some (i, ob, s)" "view c w' = Some (i, ob', s')" for b c i ob ob' s s'
        using that inv(6) by (auto simp: view split: if_splits)
      show "distinct (map fst (w_agent_map w'))" using inv(7) by (simp add: maps)
    qed
  qed
qed

section \<open>Interpretations\<close>

interpretation reg: manager_rel reg_rel "\<lambda>_. True"
proof unfold_locales
  show "Aact_Pop (w_cs w) = Some (Some n, cs) \<Longrightarrow> reg_rel w (w\<lparr>w_cs := cs\<rparr>)" for n cs and w :: "'e world"
    by (rule misc_reg)
  show "reg_rel (w\<lparr>w_in_step := True\<rparr>) w' \<Longrightarrow> reg_rel w (w'\<lparr>w_frame := w_frame w' + 1, w_in_step := False\<rparr>)"
    for w w' :: "'e world" by (simp add: reg_rel_def)
qed (rule misc_reg | erule destroy_reg | rule reg_same_rel, erule async_ops_reg)+

lemma delete_list_shrinks: "delete_chart_list a name k w = Some w' \<Longrightarrow> shrinks w w'"
proof (induction k arbitrary: w)
  case 0
  then show ?case using shrinks_refl by (auto elim!: bind_SomeE)
next
  case (Suc k)
  then obtain ag :: agent and cs where cs: "(if cs = [] then Some w
      else do { ch \<leftarrow> w_charts w (last cs);
                w \<leftarrow> (case owner_node ch of Some n \<Rightarrow> SetAttacher None n w | None \<Rightarrow> delete_chart (last cs) w);
                delete_chart_list a name k w }) = Some w'"
    unfolding delete_chart_list.simps by (elim bind_SomeE) (rule that)
  show ?case
  proof (cases "cs = []")
    case False
    with cs obtain ch :: chart and w1 where w1: "(case owner_node ch of Some n \<Rightarrow> SetAttacher None n w
        | None \<Rightarrow> delete_chart (last cs) w) = Some w1" and w': "delete_chart_list a name k w1 = Some w'"
      by (simp only: if_False) (elim bind_SomeE, rule that)
    have "shrinks w w1"
      using w1 SetAttacher_with_shrinks [OF delete_chart_fuel_shrinks] delete_chart_fuel_shrinks
      by (auto simp: SetAttacher_def delete_chart_def split: option.splits)
    with Suc.IH [OF w'] show ?thesis using shrinks_trans by blast
  qed (use cs shrinks_refl in simp)
qed

lemma delete_agent_shrinks: "delete_agent a w = Some w' \<Longrightarrow> safe_rel w w'"
proof -
  assume "delete_agent a w = Some w'"
  then obtain w1 w2 and ag :: agent where
    w1: "on_cs (\<lambda>cs. Some (wait_delete a cs)) (cancel_timer (TAgent a) w) = Some w1"
    and w2: "foldM (\<lambda>(name, cs). delete_chart_list a name (length cs)) (chart_dict ag) w1 = Some w2"
    and w': "w' = w2\<lparr>w_agents := (w_agents w2)(a := None)\<rparr>"
    by (auto simp: delete_agent_def Let_def elim!: bind_SomeE)
  have "safe_rel w (cancel_timer (TAgent a) w)"
    by (rule shrinks_safe, rule same_charts) (simp_all add: cancel_timer_def)
  moreover have "safe_rel (cancel_timer (TAgent a) w) w1"
    using w1 by (rule on_cs_safe) (auto intro: wait_delete_inv contained_pops(7))
  moreover have "shrinks w1 w2"
    by (rule foldM_rel [OF shrinks_refl shrinks_trans _ w2]) (auto intro: delete_list_shrinks)
  moreover have "shrinks w2 w'" by (rule same_charts) (simp_all add: w')
  ultimately show ?thesis using shrinks_safe safe_rel_trans by blast
qed

lemma destroy_safe: "destroy_agents w = Some w' \<Longrightarrow> safe_rel w w'"
proof -
  assume "destroy_agents w = Some w'"
  then obtain w1 as d where w1: "foldM delete_agent as w = Some w1" and w': "w' = w1\<lparr>w_dying := d\<rparr>"
    by (auto simp: destroy_agents_def elim!: bind_SomeE split: prod.splits)
  have "safe_rel w w1"
    by (rule foldM_rel [OF safe_rel_refl _ _ w1]) (erule (1) safe_rel_trans, erule delete_agent_shrinks)
  moreover have "shrinks w1 w'" by (rule same_charts) (simp_all add: w')
  ultimately show ?thesis using shrinks_safe safe_rel_trans by blast
qed

lemma RemoveNode_safe:
  assumes "cs_of (w_cs w) n = None" "RemoveNode n w = Some w'"
  shows "safe_rel w w'"
  unfolding safe_rel_def
proof
  assume s: "safe w"
  have "n \<notin> set (cs_await (w_cs w))" using s assms(1) by (auto simp: safe_def cs_inv_def)
  then have "Await_Remove n (w_cs w) = w_cs w"
    using assms(1) by (cases "w_cs w") (auto simp: Await_Remove_def set_of_def)
  with assms(2) s show "safe w'"
    by (auto simp: RemoveNode_def on_cs_Some safe_def get_node_def elim!: bind_SomeE)
qed

interpretation safe: manager_rel safe_rel "\<lambda>a. a \<noteq> Py_suspend_node"
proof unfold_locales
  show "Aact_Pop (w_cs w) = Some (Some n, cs) \<Longrightarrow> safe_rel w (w\<lparr>w_cs := cs\<rparr>)" for n cs and w :: "'e world"
    by (auto intro!: cs_safe dest: Aact_Pop_inv contained_pops(4))
  show "cs_of (w_cs w) n = None \<Longrightarrow> RemoveNode n w = Some w' \<Longrightarrow> safe_rel w w'" for n and w w' :: "'e world"
    by (rule RemoveNode_safe)
  show "safe_rel (w\<lparr>w_in_step := True\<rparr>) w' \<Longrightarrow> safe_rel w (w'\<lparr>w_frame := w_frame w' + 1, w_in_step := False\<rparr>)"
    for w w' :: "'e world" by (simp add: safe_rel_def)
qed (erule destroy_safe | simp add: safe_rel_def)+

section \<open>A step\<close>

text \<open>A step of the manager, with the timers, the resumed nodes, the events and the scripts they
  run, keeps the registration consistent and deletes the agents that were waiting for it.\<close>

lemma step_registry:
  assumes "reg_inv w" "Manager_Step H ms w = Some w'"
  shows "reg_inv w'"
  using reg.Manager_Step_rel [OF host_calls_True assms(2)] assms(1) by (simp add: reg_rel_def)

text \<open>A step of the manager leaves no dangling pointer in a container, as long as no script
  suspends its node.\<close>

lemma step_containers:
  assumes "host_calls_only (\<lambda>a. a \<noteq> Py_suspend_node) H" "safe w" "Manager_Step H ms w = Some w'"
  shows "safe w'"
  using safe.Manager_Step_rel [OF assms(1,3)] assms(2) by (simp add: safe_rel_def)

end
