(* ===== verification/Documents.thy ===== *)
theory Documents
  imports AF_Prelude
begin

text \<open>
  The documents charts and events are loaded from. The parsers (\<open>rapidjson\<close>, \<open>rapidyaml\<close>) are
  third-party code: a loader takes them as parameters and works on the trees they return. An access
  the libraries leave undefined (a member that is not there, a value of another type) is \<open>None\<close>.
  The report of a JSON error is \<open>src/util/json.cpp\<close>.
\<close>

section \<open>JSON\<close>

datatype json = JNull | JBool bool | JInt int | JStr string | JArr "json list" | JObj "(string \<times> json) list"

fun FindMember :: "string \<Rightarrow> json \<Rightarrow> json option option" where
  "FindMember k (JObj kvs) = Some (map_of kvs k)"
| "FindMember k _ = None"

text \<open>\<open>FindMember(k)->value\<close>.\<close>

definition member_value :: "string \<Rightarrow> json \<Rightarrow> json option" where
  "member_value k j = do { m \<leftarrow> FindMember k j; m }"

fun GetString :: "json \<Rightarrow> string option" where
  "GetString (JStr s) = Some s"
| "GetString _ = None"

fun GetInt :: "json \<Rightarrow> int option" where
  "GetInt (JInt i) = (if - (2 ^ 31) \<le> i \<and> i < 2 ^ 31 then Some i else None)"
| "GetInt _ = None"

fun GetBool :: "json \<Rightarrow> bool option" where
  "GetBool (JBool b) = Some b"
| "GetBool _ = None"

fun GetArray :: "json \<Rightarrow> json list option" where
  "GetArray (JArr xs) = Some xs"
| "GetArray _ = None"

section \<open>YAML\<close>

datatype yaml = YVal string | YSeq "yaml list" | YMap "(string \<times> yaml) list"

text \<open>A child that is not there is an invalid reference, here \<open>Some None\<close>.\<close>

fun find_child :: "string \<Rightarrow> yaml \<Rightarrow> yaml option option" where
  "find_child k (YMap kvs) = Some (map_of kvs k)"
| "find_child k _ = None"

fun yval :: "yaml \<Rightarrow> string option" where
  "yval (YVal s) = Some s"
| "yval _ = None"

fun ychildren :: "yaml \<Rightarrow> yaml list" where
  "ychildren (YVal _) = []"
| "ychildren (YSeq xs) = xs"
| "ychildren (YMap kvs) = map snd kvs"

text \<open>\<open>node[k].val()\<close>.\<close>

definition child_val :: "string \<Rightarrow> yaml \<Rightarrow> string option" where
  "child_val k y = do { c \<leftarrow> find_child k y; c \<leftarrow> c; yval c }"

text \<open>The outcome of parsing a text as a YAML stream of documents.\<close>

datatype yaml_root = YError | YNotStream | YStream "yaml list"

section \<open>\<open>std::stoi\<close>\<close>

text \<open>The exceptions the loaders let through.\<close>

datatype exn = invalid_argument | out_of_range | length_error

definition is_space :: "char \<Rightarrow> bool" where
  "is_space c \<longleftrightarrow> c \<in> {CHR '' '', CHR 0x09, CHR 0x0A, CHR 0x0B, CHR 0x0C, CHR 0x0D}"

definition digit_value :: "char \<Rightarrow> nat option" where
  "digit_value c = (let n = of_char c :: nat in if 48 \<le> n \<and> n \<le> 57 then Some (n - 48) else None)"

fun digits_value :: "nat \<Rightarrow> string \<Rightarrow> nat" where
  "digits_value acc [] = acc"
| "digits_value acc (c # cs) =
     (case digit_value c of None \<Rightarrow> acc | Some d \<Rightarrow> digits_value (10 * acc + d) cs)"

definition signed_value :: "string \<Rightarrow> int option" where
  "signed_value s =
     (let (neg, ds) = (case s of [] \<Rightarrow> (False, [])
                       | c # cs \<Rightarrow> if c = CHR ''-'' then (True, cs) else if c = CHR ''+'' then (False, cs)
                                  else (False, s))
      in case ds of [] \<Rightarrow> None
         | c # _ \<Rightarrow> if digit_value c = None then None
                    else Some ((if neg then - 1 else 1) * int (digits_value 0 ds)))"

definition stoi :: "string \<Rightarrow> exn + int" where
  "stoi s =
     (case signed_value (dropWhile is_space s) of
        None \<Rightarrow> Inl invalid_argument
      | Some i \<Rightarrow> if - (2 ^ 31) \<le> i \<and> i < 2 ^ 31 then Inr i else Inl out_of_range)"

section \<open>The report of a JSON error\<close>

definition newline :: char where "newline = CHR 0x0A"

primrec get_line_number_from :: "int \<Rightarrow> int \<Rightarrow> int \<Rightarrow> string \<Rightarrow> int" where
  "get_line_number_from pos ln i [] = - 1"
| "get_line_number_from pos ln i (c # cs) =
     (if c = newline then (if i > pos then ln else get_line_number_from pos (ln + 1) (i + 1) cs)
      else get_line_number_from pos ln (i + 1) cs)"

definition get_line_number :: "string \<Rightarrow> int \<Rightarrow> int" where
  "get_line_number str pos = get_line_number_from pos 1 0 str"

primrec last_newline_before :: "string \<Rightarrow> nat \<Rightarrow> int" where
  "last_newline_before str 0 = - 1"
| "last_newline_before str (Suc k) =
     (if k = 0 then - 1 else if k < length str \<and> str ! k = newline then int k
      else last_newline_before str k)"

definition find_last_newline :: "string \<Rightarrow> int \<Rightarrow> int" where
  "find_last_newline str end_pos = last_newline_before str (nat end_pos)"

definition find_next_newline :: "string \<Rightarrow> nat \<Rightarrow> int" where
  "find_next_newline str end_pos =
     (case List.find (\<lambda>i. str ! i = newline) [end_pos + 1..<length str] of
        Some i \<Rightarrow> int i
      | None \<Rightarrow> int (length str) - 1)"

text \<open>The lines logged for an error at offset \<open>pos\<close>: the line of the error and, below it, a caret. The
  caret and the terminating zero are written into an array with one cell more than the line has
  characters.\<close>

definition report_error :: "string \<Rightarrow> nat \<Rightarrow> (exn + string \<times> nat) option" where
  "report_error str pos =
     (let startPos = find_last_newline str (int pos) + 1;
          endPos = find_next_newline str pos
      in if endPos < startPos then Some (Inl length_error)
         else if int pos - startPos + 1 < endPos - startPos + 1
              then Some (Inr (take (nat (endPos - startPos)) (drop (nat startPos) str), nat (int pos - startPos)))
              else None)"

text \<open>\<open>JsonUtil::ParseJson\<close>: \<open>parse\<close> gives the tree or the offset of the error.\<close>

definition ParseJson :: "(string \<Rightarrow> nat + json) \<Rightarrow> string \<Rightarrow> (exn + json option) option" where
  "ParseJson parse str =
     (if str = [] then Some (Inr None)
      else case parse str of
        Inr doc \<Rightarrow> Some (Inr (Some doc))
      | Inl pos \<Rightarrow> do { r \<leftarrow> report_error str pos;
                       case r of Inl e \<Rightarrow> Some (Inl e) | Inr _ \<Rightarrow> Some (Inr None) })"

lemma find_next_bounds: "find_next_newline str pos \<le> int (length str) - 1"
proof (cases "List.find (\<lambda>i. str ! i = newline) [pos + 1..<length str]")
  case (Some i)
  then have "i \<in> set [pos + 1..<length str]" by (auto simp: find_Some_iff in_set_conv_nth)
  with Some show ?thesis by (simp add: find_next_newline_def)
qed (simp add: find_next_newline_def)


end
