(* ===== verification/Uuid.thy ===== *)
theory Uuid
  imports AF_Prelude "HOL-Library.Word"
begin

unbundle bit_operations_syntax

text \<open>
  Identifiers: the conversion of a UUID between its forms with and without dashes
  (\<open>UuidUtil\<close> in \<open>src/util/file.cpp\<close>) and the generator \<open>Manager::uuid4_str\<close>. A
  \<open>char*\<close> buffer is the map from offsets to characters it points to; the callers provide
  buffers of 36 and 32 characters.
\<close>

type_synonym buffer = "nat \<Rightarrow> char"

definition NtoD :: "buffer \<Rightarrow> buffer \<Rightarrow> buffer" where
  "NtoD n d =
     (let d = d(18 := CHR ''-'', 23 := CHR ''-'', 13 := CHR ''-'', 8 := CHR ''-'');
          d = fold (\<lambda>x d. d(x := n x, 24 + x := n (20 + x))) [0..<8] d
      in fold (\<lambda>x d. d(9 + x := n (8 + x), 14 + x := n (12 + x),
           19 + x := n (16 + x), 32 + x := n (28 + x))) [0..<4] d)"

definition DtoN :: "buffer \<Rightarrow> buffer \<Rightarrow> buffer" where
  "DtoN d n =
     (let n = fold (\<lambda>x n. n(x := d x, 20 + x := d (24 + x))) [0..<8] n
      in fold (\<lambda>x n. n(8 + x := d (9 + x), 12 + x := d (14 + x),
           16 + x := d (19 + x), 28 + x := d (32 + x))) [0..<4] n)"

text \<open>
  The successive draws \<open>dist(rd)\<close> are \<open>draw 0, draw 1, \<dots>\<close>. The second loop of the code
  draws afresh for every digit; the value it prepared in \<open>tmp\<close> (draw 1, with the variant bits
  set) is not read.
\<close>

definition hex_encode :: string where
  "hex_encode = ''0123456789abcdef''"

definition hex_digit :: "64 word \<Rightarrow> nat \<Rightarrow> char" where
  "hex_digit w bit_pos = hex_encode ! unat (drop_bit (4 * bit_pos) w AND 0x0f)"

definition uuid4_str :: "(nat \<Rightarrow> 64 word) \<Rightarrow> string" where
  "uuid4_str draw =
     (let tmp = (draw 0 AND 0xFFFFFFFFFFFF0FFF) OR 0x0000000000004000
      in map (\<lambda>i. hex_digit tmp (15 - i)) [0..<16]
       @ map (\<lambda>i. hex_digit (draw (2 + i)) (15 - i)) [0..<16])"

section \<open>Lemmas\<close>

lemma two: "Suc (Suc 0) = 2"
  by simp

lemma hex_index: "unat (w AND 0x0f :: 64 word) < 16"
proof -
  have "w AND 0x0f \<le> 0x0f" by (rule word_and_le1)
  then have "unat (w AND 0x0f) \<le> unat (0x0f :: 64 word)" by (simp only: word_le_nat_alt)
  then show ?thesis by simp
qed

lemma hex_digit_in: "hex_digit w k \<in> set hex_encode"
proof -
  have "length hex_encode = 16" by (simp add: hex_encode_def)
  with hex_index show ?thesis unfolding hex_digit_def by (intro nth_mem) (simp only:)
qed

lemma version_digit:
  "hex_digit ((w AND 0xFFFFFFFFFFFF0FFF) OR 0x0000000000004000) 3 = CHR ''4''"
proof -
  have "drop_bit 12 ((w AND 0xFFFFFFFFFFFF0FFF) OR 0x0000000000004000) AND 0x0f = (4 :: 64 word)"
    by (simp add: drop_bit_and drop_bit_or and.assoc bit.conj_disj_distrib2)
  then show ?thesis by (simp add: hex_digit_def hex_encode_def)
qed

lemma loop2:
  assumes "a + k \<le> b"
  shows "fold (\<lambda>x m. m(a + x := f x, b + x := g x)) [0..<k] m i =
    (if a \<le> i \<and> i < a + k then f (i - a) else if b \<le> i \<and> i < b + k then g (i - b) else m i)"
  using assms by (induction k) (auto simp: less_Suc_eq)

lemma loop4:
  assumes "a + k \<le> b" "b + k \<le> c" "c + k \<le> e"
  shows "fold (\<lambda>x m. m(a + x := f x, b + x := g x, c + x := h x, e + x := u x)) [0..<k] m i =
    (if a \<le> i \<and> i < a + k then f (i - a) else if b \<le> i \<and> i < b + k then g (i - b)
     else if c \<le> i \<and> i < c + k then h (i - c) else if e \<le> i \<and> i < e + k then u (i - e) else m i)"
  using assms by (induction k) (auto simp: less_Suc_eq)

lemma NtoD_at:
  "NtoD n d i =
     (if i < 8 then n i else if i = 8 then CHR ''-'' else if i < 13 then n (i - 1)
      else if i = 13 then CHR ''-'' else if i < 18 then n (i - 2) else if i = 18 then CHR ''-''
      else if i < 23 then n (i - 3) else if i = 23 then CHR ''-'' else if i < 36 then n (i - 4)
      else d i)"
  using loop2 [of 0 8 24 n "\<lambda>x. n (20 + x)"]
    loop4 [of 9 4 14 19 32 "\<lambda>x. n (8 + x)" "\<lambda>x. n (12 + x)" "\<lambda>x. n (16 + x)" "\<lambda>x. n (28 + x)"]
  by (auto simp: NtoD_def Let_def intro!: arg_cong [of _ _ n])

lemma DtoN_at:
  "DtoN d n i =
     (if i < 8 then d i else if i < 12 then d (i + 1) else if i < 16 then d (i + 2)
      else if i < 20 then d (i + 3) else if i < 32 then d (i + 4) else n i)"
  using loop2 [of 0 8 20 d "\<lambda>x. d (24 + x)"]
    loop4 [of 8 4 12 16 28 "\<lambda>x. d (9 + x)" "\<lambda>x. d (14 + x)" "\<lambda>x. d (19 + x)" "\<lambda>x. d (32 + x)"]
  by (auto simp: DtoN_def Let_def intro!: arg_cong [of _ _ d])

section \<open>Properties\<close>

text \<open>Writing a 32-character identifier with dashes puts the dashes at the four positions
  of the canonical form, and reading it back gives the identifier.\<close>

theorem uuid_dashes_round_trip:
  "map (DtoN (NtoD n d) m) [0..<32] = map n [0..<32]
   \<and> map (NtoD n d) [8, 13, 18, 23] = replicate 4 CHR ''-''"
proof
  have "\<And>i. i < 32 \<Longrightarrow> DtoN (NtoD n d) m i = n i"
    by (auto simp: DtoN_at NtoD_at)
  then show "map (DtoN (NtoD n d) m) [0..<32] = map n [0..<32]" by simp
  show "map (NtoD n d) [8, 13, 18, 23] = replicate 4 CHR ''-''"
    by (simp add: NtoD_at numeral_eq_Suc)
qed

text \<open>A generated identifier has 32 lower-case hexadecimal digits, its version digit is 4,
  and its digit 16 comes from a fresh draw: no bit of it is forced.\<close>

theorem uuid4_digits:
  "length (uuid4_str draw) = 32 \<and> set (uuid4_str draw) \<subseteq> set hex_encode
   \<and> uuid4_str draw ! 12 = CHR ''4'' \<and> uuid4_str draw ! 16 = hex_digit (draw 2) 15"
proof -
  have "uuid4_str draw ! 12 = CHR ''4''"
    using version_digit by (simp add: uuid4_str_def Let_def nth_append)
  then show ?thesis
    by (auto simp: uuid4_str_def Let_def nth_append hex_digit_in two)
qed

text \<open>The variant digit the standard wants (8, 9, a or b) is therefore not guaranteed.\<close>

lemma uuid4_variant_not_set: "uuid4_str (\<lambda>_. 0) ! 16 = CHR ''0''"
  by (simp add: uuid4_str_def Let_def nth_append hex_digit_def hex_encode_def)

end
