(* ===== verification/Loaders.thy ===== *)
theory Loaders
  imports Chart_Data Documents Uuid
begin

text \<open>
  Loading charts: \<open>ChartData::FromJson\<close>, \<open>FromYaml\<close>, \<open>PatchFromYaml\<close>
  (\<open>src/core/chart_data.cpp\<close>), \<open>NodeData::InitFromJson\<close>, \<open>InitFromYaml\<close>
  (\<open>src/core/node_data.cpp\<close>) and the loops over the documents of a file
  (\<open>src/core/manager.cpp\<close>). \<open>create\<close> is the virtual function \<open>CreateNodeFunc\<close> of the binding. A
  loader that fails returns the data it has built so far; its caller deletes them.
\<close>

type_synonym creator = "string \<Rightarrow> string \<Rightarrow> node_func option"
type_synonym id_map = "string \<rightharpoonup> nat"

section \<open>JSON\<close>

definition parameter_of_json :: "json \<Rightarrow> parameter option" where
  "parameter_of_json j =
     do { n \<leftarrow> member_value ''name'' j; n \<leftarrow> GetString n;
          t \<leftarrow> member_value ''type'' j; t \<leftarrow> GetString t;
          p \<leftarrow> member_value ''is_param'' j; p \<leftarrow> GetBool p;
          Some \<lparr>param_name = n, param_type = t, is_params = p\<rparr> }"

definition InitParamsFromJson :: "json \<Rightarrow> chart_data \<Rightarrow> chart_data option" where
  "InitParamsFromJson paramsObj d =
     do { varArray \<leftarrow> GetArray paramsObj;
          ps \<leftarrow> mapM parameter_of_json varArray;
          Some (d\<lparr>variables := ps, params_count := length (filter is_params ps)\<rparr>) }"

text \<open>The identifiers known to \<open>id_map\<close> among an array of uids; the others are logged.\<close>

definition known_ids :: "id_map \<Rightarrow> json \<Rightarrow> nat list option" where
  "known_ids ids arr =
     do { xs \<leftarrow> GetArray arr; us \<leftarrow> mapM GetString xs; Some (List.map_filter ids us) }"

definition json_control :: "id_map \<Rightarrow> string \<Rightarrow> json \<Rightarrow> node_data \<Rightarrow> node_data option" where
  "json_control ids func_name j nd =
     do { params \<leftarrow> FindMember ''param'' j;
          case params of
            None \<Rightarrow> Some nd
          | Some arr \<Rightarrow>
              do { ps \<leftarrow> known_ids ids arr;
                   let ps = map int ps;
                   Some (if func_name = ''wait_all'' then nd\<lparr>node_func := Some (Control WaitAll ps)\<rparr>
                         else if func_name = ''stop_node'' then nd\<lparr>node_func := Some (Control StopNode ps)\<rparr>
                         else if func_name = ''stop_flow'' then nd\<lparr>node_func := Some (Control StopFlow ps)\<rparr>
                         else nd) } }"

definition optional_string :: "string \<Rightarrow> json \<Rightarrow> string \<Rightarrow> string option" where
  "optional_string k j dflt = do { m \<leftarrow> FindMember k j; case m of None \<Rightarrow> Some dflt | Some v \<Rightarrow> GetString v }"

definition json_func :: "creator \<Rightarrow> id_map \<Rightarrow> json \<Rightarrow> node_data \<Rightarrow> node_data option" where
  "json_func create ids j nd =
     do { func_name \<leftarrow> optional_string ''funcName'' j [];
          ty \<leftarrow> FindMember ''type'' j;
          case ty of
            None \<Rightarrow> Some nd
          | Some t \<Rightarrow>
              do { funcType \<leftarrow> GetString t;
                   if funcType = ''function'' then Some (nd\<lparr>node_func := create [] func_name\<rparr>)
                   else if funcType = ''event''
                   then Some (nd\<lparr>node_func := create [] func_name, is_event := True\<rparr>)
                   else if funcType = ''control'' then json_control ids func_name j nd
                   else Some nd } }"

definition json_children :: "id_map \<Rightarrow> string \<Rightarrow> json \<Rightarrow> nat list option" where
  "json_children ids k j =
     do { m \<leftarrow> FindMember k j; case m of None \<Rightarrow> Some [] | Some arr \<Rightarrow> known_ids ids arr }"

text \<open>\<open>InitFromJson\<close> always returns true.\<close>

definition InitFromJson :: "creator \<Rightarrow> id_map \<Rightarrow> json \<Rightarrow> node_data \<Rightarrow> node_data option" where
  "InitFromJson create ids j nd =
     do { uid \<leftarrow> optional_string ''uid'' j (node_uid nd);
          text \<leftarrow> optional_string ''text'' j (node_text nd);
          nd \<leftarrow> json_func create ids j (nd\<lparr>node_uid := uid, node_text := text\<rparr>);
          sub \<leftarrow> FindMember ''subChartVar'' j;
          v \<leftarrow> (case sub of None \<Rightarrow> Some (var_id nd) | Some x \<Rightarrow> GetInt x);
          s \<leftarrow> json_children ids ''success'' j;
          f \<leftarrow> json_children ids ''fail'' j;
          Some (nd\<lparr>var_id := v, children_true := children_true nd @ s,
                    children_false := children_false nd @ f\<rparr>) }"

text \<open>\<open>id_map[uid]\<close> inserts 0 for a uid that is not there.\<close>

definition index_or_insert :: "string \<Rightarrow> id_map \<Rightarrow> nat \<times> id_map" where
  "index_or_insert uid ids = (case ids uid of Some i \<Rightarrow> (i, ids) | None \<Rightarrow> (0, ids(uid \<mapsto> 0)))"

primrec json_starts :: "json list \<Rightarrow> id_map \<Rightarrow> (nat list \<times> id_map) option" where
  "json_starts [] ids = Some ([], ids)"
| "json_starts (x # xs) ids =
     do { uid \<leftarrow> GetString x;
          let (i, ids) = index_or_insert uid ids;
          (is, ids) \<leftarrow> json_starts xs ids;
          Some (i # is, ids) }"

definition json_ids :: "json list \<Rightarrow> id_map option" where
  "json_ids ns =
     do { us \<leftarrow> mapM (\<lambda>n. do { u \<leftarrow> member_value ''uid'' n; GetString u }) ns;
          Some (fold (\<lambda>(i, uid) m. m(uid \<mapsto> i)) (enumerate 1 us) (\<lambda>_. None)) }"

definition json_nodes :: "creator \<Rightarrow> id_map \<Rightarrow> json list \<Rightarrow> node_data list option" where
  "json_nodes create ids ns =
     mapM (\<lambda>(i, n). InitFromJson create ids n (new_node_data i)) (enumerate 1 ns)"

text \<open>A negative \<open>varCount\<close> is left out. The dictionary of variable names is not filled.\<close>

definition FromJson :: "creator \<Rightarrow> json \<Rightarrow> (bool \<times> chart_data) option" where
  "FromJson create jobj =
     do { let d = new_chart_data;
          path \<leftarrow> FindMember ''path'' jobj;
          case path of
            None \<Rightarrow> Some (False, d)
          | Some p \<Rightarrow> do {
              fullPath \<leftarrow> GetString p;
              varCountObj \<leftarrow> FindMember ''varCount'' jobj;
              varCount \<leftarrow> (case varCountObj of None \<Rightarrow> Some 0 | Some v \<Rightarrow> GetInt v);
              varObj \<leftarrow> FindMember ''variables'' jobj;
              d \<leftarrow> (case varObj of None \<Rightarrow> Some d | Some v \<Rightarrow> InitParamsFromJson v d);
              nodesObj \<leftarrow> FindMember ''nodes'' jobj;
              startObj \<leftarrow> FindMember ''start'' jobj;
              case (nodesObj, startObj) of
                (Some nodesVal, Some startVal) \<Rightarrow> do {
                  nodesArray \<leftarrow> GetArray nodesVal;
                  ids \<leftarrow> json_ids nodesArray;
                  startArray \<leftarrow> GetArray startVal;
                  (starts, ids) \<leftarrow> json_starts startArray ids;
                  let start = (new_node_data 0)\<lparr>children_false := starts, children_true := starts\<rparr>;
                  startFunc \<leftarrow> optional_string ''start_func'' jobj [];
                  init \<leftarrow> FindMember ''start_func'' jobj;
                  let start = (if init = None then start else start\<lparr>node_func := create [] startFunc\<rparr>);
                  ns \<leftarrow> json_nodes create ids nodesArray;
                  if varCount < 0 then None
                  else Some (True, d\<lparr>chart_name := fullPath, variable_count := nat varCount,
                         start_func_name := startFunc, node_list := start # ns\<rparr>) }
              | _ \<Rightarrow> Some (False, d) } }"

text \<open>\<open>Manager::ParseChartsFromJson\<close> on the parsed text.\<close>

primrec parse_json_charts :: "creator \<Rightarrow> json list \<Rightarrow> chart_data list option" where
  "parse_json_charts create [] = Some []"
| "parse_json_charts create (j # js) =
     do { (ok, d) \<leftarrow> FromJson create j;
          ds \<leftarrow> parse_json_charts create js;
          Some (if ok then d # ds else ds) }"

definition ParseChartsFromJson ::
  "creator \<Rightarrow> (string \<Rightarrow> nat + json) \<Rightarrow> string \<Rightarrow> (exn + chart_data list) option" where
  "ParseChartsFromJson create parse str =
     do { r \<leftarrow> ParseJson parse str;
          case r of
            Inl e \<Rightarrow> Some (Inl e)
          | Inr (Some (JArr js)) \<Rightarrow> map_option Inr (parse_json_charts create js)
          | Inr _ \<Rightarrow> Some (Inr []) }"

section \<open>YAML\<close>

definition parameter_of_yaml :: "yaml \<Rightarrow> parameter option" where
  "parameter_of_yaml v =
     do { n \<leftarrow> child_val ''name'' v;
          t \<leftarrow> child_val ''type'' v;
          p \<leftarrow> find_child ''is_param'' v;
          b \<leftarrow> (case p of None \<Rightarrow> Some False | Some x \<Rightarrow> do { s \<leftarrow> yval x; Some (s = ''true'') });
          Some \<lparr>param_name = n, param_type = t, is_params = b\<rparr> }"

definition yaml_variables :: "yaml \<Rightarrow> chart_data \<Rightarrow> chart_data option" where
  "yaml_variables y d =
     (case y of
        YSeq vs \<Rightarrow>
          do { ps \<leftarrow> mapM parameter_of_yaml vs;
               Some (d\<lparr>variables := ps, variable_count := length ps,
                       params_count := length (filter is_params ps),
                       variable_dict := fold (\<lambda>(i, p) m. m(param_name p \<mapsto> i)) (enumerate 0 ps) (variable_dict d)\<rparr>) }
      | _ \<Rightarrow> None)"

text \<open>The two conversions of a uid; \<open>c_str\<close> can be read up to its terminating zero.\<close>

definition c_str :: "string \<Rightarrow> buffer" where
  "c_str s i = (if i < length s then s ! i else CHR 0x00)"

definition uid_without_dashes :: "string \<Rightarrow> string option" where
  "uid_without_dashes uid =
     (if length uid < 35 then None
      else Some (map (DtoN (c_str uid) (\<lambda>_. CHR 0x00)) [0..<32]))"

definition uid_with_dashes :: "string \<Rightarrow> string" where
  "uid_with_dashes s =
     (if length s = 32 then map (NtoD (c_str s) (\<lambda>_. CHR 0x00)) [0..<36] else s)"

definition yaml_function :: "creator \<Rightarrow> chart_data \<Rightarrow> yaml \<Rightarrow> node_data \<Rightarrow> node_data option" where
  "yaml_function create d code nd =
     do { ret_name \<leftarrow> find_child ''return_var_name'' code;
          nd \<leftarrow> (case ret_name of None \<Rightarrow> Some nd
                 | Some r \<Rightarrow> do { s \<leftarrow> yval r; Some (nd\<lparr>var_id := GetVarIndex s d\<rparr>) });
          func_name \<leftarrow> find_child ''func_name'' code;
          content \<leftarrow> find_child ''content'' code;
          case func_name of
            Some f \<Rightarrow> do { s \<leftarrow> yval f; Some (nd\<lparr>node_func := create [] s\<rparr>) }
          | None \<Rightarrow>
              (case content of
                 Some c \<Rightarrow>
                   do { s \<leftarrow> yval c;
                        Some (nd\<lparr>node_func := create (''return function(self) '' @ [CHR 0x0A] @ s @ [CHR 0x0A] @ '' end'') []\<rparr>) }
               | None \<Rightarrow>
                   do { n \<leftarrow> uid_without_dashes (node_uid nd);
                        Some (nd\<lparr>node_func := create [] (chart_name d @ ''.'' @ n)\<rparr>) }) }"

text \<open>The list of a control node: its function, then the uids of its arguments.\<close>

primrec yaml_params :: "id_map \<Rightarrow> yaml list \<Rightarrow> int list option option" where
  "yaml_params ids [] = Some (Some [])"
| "yaml_params ids (y # ys) =
     do { s \<leftarrow> yval y;
          case ids (uid_with_dashes s) of
            None \<Rightarrow> Some None
          | Some i \<Rightarrow> do { r \<leftarrow> yaml_params ids ys; Some (map_option (\<lambda>ps. int i # ps) r) } }"

definition control_of_name :: "string \<Rightarrow> control option" where
  "control_of_name s =
     (if s = ''stopflow'' then Some StopFlow else if s = ''stopnode'' then Some StopNode
      else if s = ''waitall'' then Some WaitAll else None)"

definition yaml_control :: "id_map \<Rightarrow> yaml \<Rightarrow> node_data \<Rightarrow> (bool \<times> node_data) option" where
  "yaml_control ids code nd =
     do { contents \<leftarrow> find_child ''content'' code;
          case contents of
            None \<Rightarrow> Some (True, nd)
          | Some c \<Rightarrow>
              (case ychildren c of
                 [] \<Rightarrow> Some (True, nd)
               | f # ys \<Rightarrow>
                   do { func_name \<leftarrow> yval f;
                        r \<leftarrow> yaml_params ids ys;
                        case r of
                          None \<Rightarrow> Some (False, nd)
                        | Some ps \<Rightarrow>
                            Some (True, case control_of_name func_name of
                                          None \<Rightarrow> nd
                                        | Some k \<Rightarrow> nd\<lparr>node_func := Some (Control k ps)\<rparr>) }) }"

definition yaml_code :: "creator \<Rightarrow> id_map \<Rightarrow> chart_data \<Rightarrow> yaml \<Rightarrow> node_data \<Rightarrow> (bool \<times> node_data) option" where
  "yaml_code create ids d code nd =
     do { type_str \<leftarrow> child_val ''type'' code;
          if type_str = ''FUNC'' \<or> type_str = ''EVENT''
          then do { nd \<leftarrow> yaml_function create d code nd;
                    Some (True, nd\<lparr>is_event := (type_str = ''EVENT'')\<rparr>) }
          else if type_str = ''CONTROL'' then yaml_control ids code nd
          else if type_str = ''ERROR'' then Some (False, nd)
          else Some (True, nd) }"

definition InitFromYaml ::
  "creator \<Rightarrow> chart_data \<Rightarrow> yaml \<Rightarrow> id_map \<times> node_data \<Rightarrow> (bool \<times> id_map \<times> node_data) option" where
  "InitFromYaml create d n s =
     do { let (ids, nd) = s;
          uid \<leftarrow> child_val ''uid'' n;
          let nd = nd\<lparr>node_uid := uid\<rparr>;
          let ids = ids(uid \<mapsto> data_id nd);
          if data_id nd = 0 then Some (True, ids, nd)
          else do {
            t \<leftarrow> find_child ''text'' n;
            nd \<leftarrow> (case t of None \<Rightarrow> Some nd | Some x \<Rightarrow> do { s \<leftarrow> yval x; Some (nd\<lparr>node_text := s\<rparr>) });
            l \<leftarrow> find_child ''no_loop_check'' n;
            nd \<leftarrow> (case l of None \<Rightarrow> Some nd
                   | Some x \<Rightarrow> do { s \<leftarrow> yval x; Some (nd\<lparr>is_no_loop_check := (s = ''true'')\<rparr>) });
            c \<leftarrow> find_child ''code'' n;
            case c of
              None \<Rightarrow> Some (True, ids, nd)
            | Some code \<Rightarrow> do { (ok, nd) \<leftarrow> yaml_code create ids d code nd; Some (ok, ids, nd) } } }"

text \<open>The first loop over the nodes: a node per entry, under its uid when it has one.\<close>

definition yaml_new_node :: "nat \<times> yaml \<Rightarrow> id_map \<times> node_data list \<Rightarrow> (id_map \<times> node_data list) option" where
  "yaml_new_node e s =
     do { let (i, n) = e;
          let (ids, ns) = s;
          u \<leftarrow> find_child ''uid'' n;
          case u of
            None \<Rightarrow> Some (ids, ns @ [new_node_data i])
          | Some x \<Rightarrow> do { uid \<leftarrow> yval x;
                          Some (ids(uid \<mapsto> i), ns @ [(new_node_data i)\<lparr>node_uid := uid\<rparr>]) } }"

text \<open>The second loop, which stops at the first node that fails.\<close>

primrec yaml_init_nodes ::
  "creator \<Rightarrow> nat \<Rightarrow> yaml list \<Rightarrow> id_map \<times> chart_data \<Rightarrow> (bool \<times> id_map \<times> chart_data) option" where
  "yaml_init_nodes create i [] s = Some (True, s)"
| "yaml_init_nodes create i (n # ns) s =
     do { let (ids, d) = s;
          nd \<leftarrow> GetNodeData i d;
          (ok, ids, nd) \<leftarrow> InitFromYaml create d n (ids, nd);
          let d = d\<lparr>node_list := (node_list d)[i := nd]\<rparr>;
          if ok then yaml_init_nodes create (i + 1) ns (ids, d) else Some (False, ids, d) }"

text \<open>The loop over the connectors. An unknown uid is logged, and then the iterator that found
  nothing is dereferenced: the flag the code sets first is never read.\<close>

primrec connect :: "id_map \<Rightarrow> yaml list \<Rightarrow> node_data list \<Rightarrow> (exn + node_data list) option" where
  "connect ids [] ns = Some (Inr ns)"
| "connect ids (c # cs) ns =
     do { start_str \<leftarrow> child_val ''start'' c;
          end_str \<leftarrow> child_val ''end'' c;
          type_str \<leftarrow> child_val ''type'' c;
          case stoi type_str of
            Inl e \<Rightarrow> Some (Inl e)
          | Inr type \<Rightarrow>
              do { i \<leftarrow> ids start_str;
                   _ \<leftarrow> (if i < length ns then Some () else None);
                   j \<leftarrow> ids end_str;
                   connect ids cs (ns[i := AddSubsequence j type (ns ! i)]) } }"

definition yaml_connectors :: "id_map \<Rightarrow> yaml \<Rightarrow> chart_data \<Rightarrow> (exn + chart_data) option" where
  "yaml_connectors ids doc d =
     do { c \<leftarrow> find_child ''connectors'' doc;
          case c of
            None \<Rightarrow> Some (Inr d)
          | Some cs \<Rightarrow>
              do { r \<leftarrow> connect ids (ychildren cs) (node_list d);
                   Some (map_sum id (\<lambda>ns. d\<lparr>node_list := ns\<rparr>) r) } }"

definition FromYaml :: "creator \<Rightarrow> yaml \<Rightarrow> (exn + bool \<times> chart_data) option" where
  "FromYaml create doc =
     do { let d = new_chart_data;
          path \<leftarrow> find_child ''path'' doc;
          case path of
            None \<Rightarrow> Some (Inr (False, d))
          | Some p \<Rightarrow> do {
              fullPath \<leftarrow> yval p;
              let d = d\<lparr>chart_name := fullPath\<rparr>;
              vars \<leftarrow> find_child ''variables'' doc;
              d \<leftarrow> (case vars of None \<Rightarrow> Some d | Some v \<Rightarrow> yaml_variables v d);
              nodesNode \<leftarrow> find_child ''nodes'' doc;
              let ns = (case nodesNode of None \<Rightarrow> [] | Some v \<Rightarrow> ychildren v);
              (ids, nds) \<leftarrow> foldM yaml_new_node (enumerate 0 ns) (\<lambda>_. None, []);
              (ok, ids, d) \<leftarrow> yaml_init_nodes create 0 ns (ids, d\<lparr>node_list := nds\<rparr>);
              if \<not> ok then Some (Inr (False, d))
              else do { r \<leftarrow> yaml_connectors ids doc d; Some (map_sum id (Pair True) r) } } }"

section \<open>Patching\<close>

text \<open>\<open>id_map.insert\<close> keeps the entry that is there.\<close>

definition ids_of_nodes :: "node_data list \<Rightarrow> id_map" where
  "ids_of_nodes ns = fold (\<lambda>nd m. if m (node_uid nd) = None then m(node_uid nd \<mapsto> data_id nd) else m) ns (\<lambda>_. None)"

definition patch_add :: "yaml \<Rightarrow> id_map \<times> chart_data \<Rightarrow> (id_map \<times> chart_data) option" where
  "patch_add n s =
     do { let (ids, d) = s;
          u \<leftarrow> find_child ''uid'' n;
          case u of
            None \<Rightarrow> Some (ids, d)
          | Some x \<Rightarrow>
              do { uid \<leftarrow> yval x;
                   if GetNodeData_uid uid d \<noteq> None then Some (ids, d)
                   else let i = GetNodeCount d
                        in Some (ids(uid \<mapsto> i),
                             d\<lparr>node_list := node_list d @ [(new_node_data i)\<lparr>node_uid := uid\<rparr>]\<rparr>) } }"

definition patch_init :: "creator \<Rightarrow> yaml \<Rightarrow> bool \<times> id_map \<times> chart_data \<Rightarrow> (bool \<times> id_map \<times> chart_data) option" where
  "patch_init create n s =
     do { let (hasError, ids, d) = s;
          u \<leftarrow> find_child ''uid'' n;
          case u of
            None \<Rightarrow> Some s
          | Some x \<Rightarrow>
              do { uid \<leftarrow> yval x;
                   case GetNodeData_uid uid d of
                     None \<Rightarrow> Some s
                   | Some i \<Rightarrow>
                       do { nd \<leftarrow> GetNodeData i d;
                            (ok, ids, nd) \<leftarrow> InitFromYaml create d n
                              (ids, nd\<lparr>children_true := [], children_false := []\<rparr>);
                            Some (hasError \<or> \<not> ok, ids, d\<lparr>node_list := (node_list d)[i := nd]\<rparr>) } } }"

definition ChartData_PatchFromYaml :: "creator \<Rightarrow> yaml \<Rightarrow> chart_data \<Rightarrow> (exn + bool \<times> chart_data) option" where
  "ChartData_PatchFromYaml create doc d =
     do { let ids = ids_of_nodes (node_list d);
          nodesNode \<leftarrow> find_child ''nodes'' doc;
          let ns = (case nodesNode of None \<Rightarrow> [] | Some v \<Rightarrow> ychildren v);
          (ids, d) \<leftarrow> foldM patch_add ns (ids, d);
          (hasError, ids, d) \<leftarrow> foldM (patch_init create) ns (False, ids, d);
          r \<leftarrow> yaml_connectors ids doc d;
          Some (map_sum id (Pair (\<not> hasError)) r) }"

section \<open>The documents of a file\<close>

text \<open>\<open>_ParseChartsYaml\<close> with the handler of \<open>ParseChartsFromYaml\<close>.\<close>

primrec parse_yaml_charts :: "creator \<Rightarrow> yaml list \<Rightarrow> (exn + chart_data list) option" where
  "parse_yaml_charts create [] = Some (Inr [])"
| "parse_yaml_charts create (doc # docs) =
     do { _ \<leftarrow> child_val ''path'' doc;
          r \<leftarrow> FromYaml create doc;
          case r of
            Inl e \<Rightarrow> Some (Inl e)
          | Inr (ok, d) \<Rightarrow>
              do { ds \<leftarrow> parse_yaml_charts create docs;
                   Some (map_sum id (\<lambda>ds. if ok then d # ds else ds) ds) } }"

definition ParseChartsFromYaml ::
  "creator \<Rightarrow> (string \<Rightarrow> yaml_root) \<Rightarrow> string \<Rightarrow> (exn + chart_data list) option" where
  "ParseChartsFromYaml create parse str =
     (case parse str of YStream docs \<Rightarrow> parse_yaml_charts create docs | _ \<Rightarrow> Some (Inr []))"

text \<open>\<open>Manager::PatchFromYaml\<close>: every document comes with the address the allocator gives when a
  new chart is made for it. The result counts the charts, patched well or not.\<close>

primrec patch_charts ::
  "creator \<Rightarrow> bool \<Rightarrow> (nat \<times> yaml) list \<Rightarrow> (string \<rightharpoonup> nat) \<times> data_heap
     \<Rightarrow> (exn + nat \<times> (string \<rightharpoonup> nat) \<times> data_heap) option"
where
  "patch_charts create in_place [] s = Some (Inr (0, s))"
| "patch_charts create in_place (e # es) s =
     do { let (p, doc) = e;
          let (dict, h) = s;
          fullPath \<leftarrow> child_val ''path'' doc;
          case (if in_place then dict fullPath else None) of
            Some q \<Rightarrow>
              do { d \<leftarrow> h q;
                   r \<leftarrow> ChartData_PatchFromYaml create doc d;
                   case r of
                     Inl e \<Rightarrow> Some (Inl e)
                   | Inr (ok, d) \<Rightarrow>
                       do { t \<leftarrow> patch_charts create in_place es (dict, h(q \<mapsto> d));
                            Some (map_sum id (\<lambda>(k, s). (k + 1, s)) t) } }
          | None \<Rightarrow>
              do { r \<leftarrow> FromYaml create doc;
                   case r of
                     Inl e \<Rightarrow> Some (Inl e)
                   | Inr (ok, d) \<Rightarrow>
                       if ok
                       then do { (_, s) \<leftarrow> ReloadChartData (Some p) (dict, h(p \<mapsto> d));
                                 t \<leftarrow> patch_charts create in_place es s;
                                 Some (map_sum id (\<lambda>(k, s). (k + 1, s)) t) }
                       else patch_charts create in_place es (dict, h) } }"

definition Manager_PatchFromYaml ::
  "creator \<Rightarrow> (string \<Rightarrow> yaml_root) \<Rightarrow> bool \<Rightarrow> nat list \<Rightarrow> string \<Rightarrow> (string \<rightharpoonup> nat) \<times> data_heap
     \<Rightarrow> (exn + nat \<times> (string \<rightharpoonup> nat) \<times> data_heap) option" where
  "Manager_PatchFromYaml create parse in_place addresses str s =
     (case parse str of
        YStream docs \<Rightarrow> patch_charts create in_place (zip addresses docs) s
      | _ \<Rightarrow> Some (Inr (0, s)))"

text \<open>\<open>ImportJson\<close>, \<open>ImportYaml\<close> and \<open>ImportFile\<close>; \<open>addresses\<close> are those of the new charts, in
  the order in which they are made, and \<open>read\<close> gives the contents of a file that exists.\<close>

definition import_data ::
  "nat list \<Rightarrow> exn + chart_data list \<Rightarrow> (string \<rightharpoonup> nat) \<times> data_heap
     \<Rightarrow> (exn + nat \<times> (string \<rightharpoonup> nat) \<times> data_heap) option" where
  "import_data addresses r s =
     (case r of
        Inl e \<Rightarrow> Some (Inl e)
      | Inr ds \<Rightarrow>
          let (dict, h) = s; ps = take (length ds) addresses
          in map_option Inr (ImportChartData ps (dict, h(ps [\<mapsto>] ds))))"

definition ImportJson ::
  "creator \<Rightarrow> (string \<Rightarrow> nat + json) \<Rightarrow> nat list \<Rightarrow> string \<Rightarrow> (string \<rightharpoonup> nat) \<times> data_heap
     \<Rightarrow> (exn + nat \<times> (string \<rightharpoonup> nat) \<times> data_heap) option" where
  "ImportJson create parse_json addresses str s =
     do { r \<leftarrow> ParseChartsFromJson create parse_json str; import_data addresses r s }"

definition ImportYaml ::
  "creator \<Rightarrow> (string \<Rightarrow> yaml_root) \<Rightarrow> nat list \<Rightarrow> string \<Rightarrow> (string \<rightharpoonup> nat) \<times> data_heap
     \<Rightarrow> (exn + nat \<times> (string \<rightharpoonup> nat) \<times> data_heap) option" where
  "ImportYaml create parse_yaml addresses str s =
     do { r \<leftarrow> ParseChartsFromYaml create parse_yaml str; import_data addresses r s }"

definition ImportFile ::
  "creator \<Rightarrow> (string \<Rightarrow> nat + json) \<Rightarrow> (string \<Rightarrow> yaml_root) \<Rightarrow> (string \<Rightarrow> string option) \<Rightarrow> nat list
     \<Rightarrow> string \<Rightarrow> (string \<rightharpoonup> nat) \<times> data_heap \<Rightarrow> (exn + nat \<times> (string \<rightharpoonup> nat) \<times> data_heap) option" where
  "ImportFile create parse_json parse_yaml read addresses file_name s =
     (let str = (case read file_name of Some t \<Rightarrow> t | None \<Rightarrow> file_name)
      in case parse_json str of
           Inr _ \<Rightarrow> ImportJson create parse_json addresses str s
         | Inl _ \<Rightarrow> ImportYaml create parse_yaml addresses str s)"

end
