(* ===== verification/Event_Loader.thy ===== *)
theory Event_Loader
  imports Event_Info Documents
begin

text \<open>
  Loading the table of events: \<open>EventManager::InitFromJson\<close> and \<open>InitFromYaml\<close>
  (\<open>src/core/event_manager.cpp\<close>) and \<open>Manager::ImportEvent\<close> (\<open>src/core/manager.cpp\<close>).
\<close>

section \<open>JSON\<close>

definition none_event :: event_info where
  "none_event = \<lparr>info_id = 0, info_arg_count = 0, info_name = ''None''\<rparr>"

definition add_event :: "int \<Rightarrow> int \<Rightarrow> string \<Rightarrow> event_manager \<Rightarrow> event_manager" where
  "add_event i argc name em = em\<lparr>event_info_list := event_info_list em
     @ [\<lparr>info_id = i, info_arg_count = argc, info_name = name\<rparr>]\<rparr>"

definition json_event :: "json \<Rightarrow> event_manager \<Rightarrow> event_manager option" where
  "json_event j em =
     do { i \<leftarrow> member_value ''id'' j; i \<leftarrow> GetInt i;
          n \<leftarrow> member_value ''name'' j; name \<leftarrow> GetString n;
          let em = (if name = ''Start'' then em\<lparr>START_EVENT := i\<rparr>
                    else if name = ''Tick'' then em\<lparr>TICK_EVENT := i\<rparr> else em);
          it_argc \<leftarrow> FindMember ''arg_count'' j;
          argc \<leftarrow> (case it_argc of None \<Rightarrow> Some 0 | Some v \<Rightarrow> GetInt v);
          Some (add_event i argc name em) }"

definition EventManager_InitFromJson ::
  "(string \<Rightarrow> nat + json) \<Rightarrow> string \<Rightarrow> event_manager \<Rightarrow> (exn + int \<times> event_manager) option" where
  "EventManager_InitFromJson parse json_str em =
     do { r \<leftarrow> ParseJson parse json_str;
          case r of
            Inl e \<Rightarrow> Some (Inl e)
          | Inr None \<Rightarrow> Some (Inr (0, em))
          | Inr (Some doc) \<Rightarrow>
              do { es \<leftarrow> GetArray doc;
                   em \<leftarrow> foldM json_event es (em\<lparr>event_info_list := [none_event]\<rparr>);
                   Some (Inr (int (length es), em)) } }"

section \<open>YAML\<close>

text \<open>The conversion of the identifier may throw; the exception leaves the loops.\<close>

primrec yaml_events :: "yaml list \<Rightarrow> event_manager \<Rightarrow> (exn + event_manager) option" where
  "yaml_events [] em = Some (Inr em)"
| "yaml_events (y # ys) em =
     do { id_val \<leftarrow> child_val ''id'' y;
          case stoi id_val of
            Inl e \<Rightarrow> Some (Inl e)
          | Inr i \<Rightarrow>
              do { name \<leftarrow> child_val ''name'' y;
                   params_node \<leftarrow> find_child ''parameters'' y;
                   let argc = (case params_node of None \<Rightarrow> 0 | Some p \<Rightarrow> int (length (ychildren p)));
                   yaml_events ys (add_event i argc name em) } }"

primrec yaml_event_docs :: "yaml list \<Rightarrow> event_manager \<Rightarrow> (exn + event_manager) option" where
  "yaml_event_docs [] em = Some (Inr em)"
| "yaml_event_docs (d # ds) em =
     do { r \<leftarrow> yaml_events (ychildren d) (em\<lparr>event_info_list := [none_event]\<rparr>);
          case r of Inl e \<Rightarrow> Some (Inl e) | Inr em \<Rightarrow> yaml_event_docs ds em }"

text \<open>A text that is no YAML makes the parser call its error handler; none is set here, and the
  default one ends the program.\<close>

definition EventManager_InitFromYaml ::
  "(string \<Rightarrow> yaml_root) \<Rightarrow> string \<Rightarrow> event_manager \<Rightarrow> (exn + int \<times> event_manager) option" where
  "EventManager_InitFromYaml parse yaml_str em =
     (case parse yaml_str of
        YError \<Rightarrow> None
      | YNotStream \<Rightarrow> Some (Inr (- 1, em))
      | YStream docs \<Rightarrow>
          do { r \<leftarrow> yaml_event_docs docs em;
               Some (map_sum id (\<lambda>em. (int (length (event_info_list em)) - 1, em)) r) })"

text \<open>\<open>Manager::ImportEvent\<close> decides for JSON by parsing the name of the file, not its contents.\<close>

definition ImportEvent ::
  "(string \<Rightarrow> nat + json) \<Rightarrow> (string \<Rightarrow> yaml_root) \<Rightarrow> (string \<Rightarrow> string option) \<Rightarrow> string
     \<Rightarrow> event_manager \<Rightarrow> (exn + int \<times> event_manager) option" where
  "ImportEvent parse_json parse_yaml read file_name em =
     (let str = (case read file_name of Some t \<Rightarrow> t | None \<Rightarrow> file_name)
      in if read file_name \<noteq> None \<and> str = [] then Some (Inr (0, em))
         else case parse_json file_name of
           Inr _ \<Rightarrow> EventManager_InitFromJson parse_json str em
         | Inl _ \<Rightarrow> EventManager_InitFromYaml parse_yaml str em)"

section \<open>Decimal numbers\<close>

text \<open>The decimal notation that \<open>std::stoi\<close> reads back.\<close>

definition digit_char :: "nat \<Rightarrow> char" where
  "digit_char d = char_of (48 + d)"

fun show_nat :: "nat \<Rightarrow> string" where
  "show_nat n = (if n < 10 then [digit_char n] else show_nat (n div 10) @ [digit_char (n mod 10)])"

declare show_nat.simps [simp del]

definition show_int :: "int \<Rightarrow> string" where
  "show_int i = (if i < 0 then CHR ''-'' # show_nat (nat (- i)) else show_nat (nat i))"

lemma digit_value_char [simp]: "d < 10 \<Longrightarrow> digit_value (digit_char d) = Some d"
  by (simp add: digit_value_def digit_char_def Let_def)

lemma digits_value_append:
  "\<forall>c \<in> set xs. digit_value c \<noteq> None \<Longrightarrow> digits_value acc (xs @ ys) = digits_value (digits_value acc xs) ys"
  by (induction xs arbitrary: acc) (auto split: option.splits)

lemma show_nat_digits: "\<forall>c \<in> set (show_nat n). digit_value c \<noteq> None"
proof (induction n rule: show_nat.induct)
  case (1 n)
  then show ?case by (subst show_nat.simps) auto
qed

lemma digits_value_show: "digits_value 0 (show_nat n) = n"
proof (induction n rule: show_nat.induct)
  case (1 n)
  then show ?case by (subst show_nat.simps) (simp add: digits_value_append show_nat_digits)
qed

lemma show_nat_Cons: obtains c cs d where "show_nat n = c # cs" "digit_value c = Some d"
proof (cases "show_nat n")
  case Nil
  then show ?thesis by (subst (asm) show_nat.simps) (auto split: if_splits)
next
  case (Cons c cs)
  with show_nat_digits [of n] show ?thesis by (auto intro: that)
qed

lemma stoi_show:
  assumes "- (2 ^ 31) \<le> i" "i < 2 ^ 31"
  shows "stoi (show_int i) = Inr i"
proof -
  obtain c cs d where c: "show_nat (nat \<bar>i\<bar>) = c # cs" "digit_value c = Some d" by (rule show_nat_Cons)
  have "c \<noteq> CHR ''-'' \<and> c \<noteq> CHR ''+'' \<and> \<not> is_space c"
    using c(2) by (auto simp: is_space_def digit_value_def)
  moreover have "digits_value 0 (c # cs) = nat \<bar>i\<bar>" using digits_value_show [of "nat \<bar>i\<bar>"] c(1) by simp
  ultimately show ?thesis
    using assms c by (auto simp: stoi_def show_int_def signed_value_def is_space_def)
qed

section \<open>Files of events\<close>

text \<open>A table of events as it is written in the two formats.\<close>

definition event_json :: "event_info \<Rightarrow> json" where
  "event_json e = JObj [(''id'', JInt (info_id e)), (''name'', JStr (info_name e)),
     (''arg_count'', JInt (info_arg_count e))]"

definition event_yaml :: "event_info \<Rightarrow> yaml" where
  "event_yaml e = YMap [(''id'', YVal (show_int (info_id e))), (''name'', YVal (info_name e)),
     (''parameters'', YSeq (replicate (nat (info_arg_count e)) (YVal [])))]"

definition event_ok :: "event_info \<Rightarrow> bool" where
  "event_ok e \<longleftrightarrow> - (2 ^ 31) \<le> info_id e \<and> info_id e < 2 ^ 31
     \<and> 0 \<le> info_arg_count e \<and> info_arg_count e < 2 ^ 31"

text \<open>The last event of a name gives the identifier of the event of that name.\<close>

definition last_id :: "string \<Rightarrow> int \<Rightarrow> event_info list \<Rightarrow> int" where
  "last_id name i es = foldl (\<lambda>i e. if info_name e = name then info_id e else i) i es"

lemma json_event_step:
  "event_ok e \<Longrightarrow> json_event (event_json e) em = Some (em\<lparr>event_info_list := event_info_list em @ [e],
     START_EVENT := if info_name e = ''Start'' then info_id e else START_EVENT em,
     TICK_EVENT := if info_name e = ''Tick'' then info_id e else TICK_EVENT em\<rparr>)"
  by (simp add: json_event_def event_json_def event_ok_def member_value_def add_event_def Let_def)

lemma json_events_load:
  "\<forall>e \<in> set es. event_ok e \<Longrightarrow> foldM json_event (map event_json es) em
     = Some \<lparr>event_info_list = event_info_list em @ es, START_EVENT = last_id ''Start'' (START_EVENT em) es,
         TICK_EVENT = last_id ''Tick'' (TICK_EVENT em) es\<rparr>"
  by (induction es arbitrary: em) (simp_all add: json_event_step last_id_def)

lemma yaml_events_load:
  "\<forall>e \<in> set es. event_ok e \<Longrightarrow> yaml_events (map event_yaml es) em
     = Some (Inr (em\<lparr>event_info_list := event_info_list em @ es\<rparr>))"
  by (induction es arbitrary: em)
    (simp_all add: event_yaml_def child_val_def stoi_show event_ok_def add_event_def)

section \<open>Properties\<close>

text \<open>C38. Loading a table of events gives the same table from both formats, behind the entry of no
  event; the entries named \<open>Start\<close> and \<open>Tick\<close> set the two identifiers of the engine when they come
  from JSON and are ignored when they come from YAML.\<close>

theorem load_events:
  assumes es: "\<forall>e \<in> set es. event_ok e"
    and json: "parse_json str = Inr (JArr (map event_json es))" "str \<noteq> []"
    and yaml: "parse_yaml text = YStream [YSeq (map event_yaml es)]"
  shows "EventManager_InitFromJson parse_json str em = Some (Inr (int (length es),
           \<lparr>event_info_list = none_event # es, START_EVENT = last_id ''Start'' (START_EVENT em) es,
             TICK_EVENT = last_id ''Tick'' (TICK_EVENT em) es\<rparr>))
    \<and> EventManager_InitFromYaml parse_yaml text em = Some (Inr (int (length es),
           em\<lparr>event_info_list := none_event # es\<rparr>))"
  using assms by (simp_all add: EventManager_InitFromJson_def EventManager_InitFromYaml_def ParseJson_def
      json_events_load yaml_events_load)

text \<open>The loaded events are found by their identifiers when these count from 1 in the order of the
  file; a lookup goes by position.\<close>

theorem loaded_event_lookup:
  assumes "event_info_list em = none_event # es" "\<forall>k < length es. info_id (es ! k) = int k + 1" "e \<in> set es"
  shows "GetEventName (info_id e) em = Some (info_name e) \<and> GetEventArgsCount (info_id e) em = info_arg_count e"
proof -
  from assms(3) obtain k where "k < length es" "e = es ! k" by (auto simp: in_set_conv_nth)
  with assms(1,2) show ?thesis
    by (simp add: GetEventName_def GetEventArgsCount_def in_table_def GetEventCount_def Let_def nat_add_distrib)
qed

definition ex_events :: "event_info list" where
  "ex_events = [\<lparr>info_id = 1, info_arg_count = 0, info_name = ''Start''\<rparr>,
     \<lparr>info_id = 2, info_arg_count = 0, info_name = ''Tick''\<rparr>,
     \<lparr>info_id = 3, info_arg_count = 2, info_name = ''Hit''\<rparr>]"

lemma ex_events_ok: "\<forall>e \<in> set ex_events. event_ok e"
  by (simp add: ex_events_def event_ok_def)

theorem load_events_witness:
  "EventManager_InitFromJson (\<lambda>_. Inr (JArr (map event_json ex_events))) ''[]'' EventManager
     = Some (Inr (3, \<lparr>event_info_list = none_event # ex_events, START_EVENT = 1, TICK_EVENT = 2\<rparr>))"
  using load_events [OF ex_events_ok, of "\<lambda>_. Inr (JArr (map event_json ex_events))" "''[]''"
      "\<lambda>_. YStream [YSeq (map event_yaml ex_events)]" "[]" EventManager]
  by (simp add: ex_events_def last_id_def)

theorem loaded_event_lookup_witness:
  "GetEventName 3 (EventManager\<lparr>event_info_list := none_event # ex_events\<rparr>) = Some ''Hit''"
  using loaded_event_lookup [of "EventManager\<lparr>event_info_list := none_event # ex_events\<rparr>" ex_events
      "\<lparr>info_id = 3, info_arg_count = 2, info_name = ''Hit''\<rparr>"]
  by (simp add: ex_events_def less_Suc_eq numeral_3_eq_3)

end
