(* ===== verification/Reachable.thy ===== *)
theory Reachable
  imports Manager_Inv Loaders Event_Loader
begin

text \<open>
  The worlds a host program can reach: it makes a manager, changes its settings, loads charts and
  events, calls the functions of the module, advances the manager and restarts charts, in any order.
  \<open>P\<close> are the calls it makes from outside the engine. The charts and events a former manager loaded
  are there from the start.
\<close>

section \<open>The host program\<close>

text \<open>Loading a file that is not refused by an exception; the operations that are undefined
  (\<open>None\<close>) lead nowhere.\<close>

inductive host_step :: "(api \<Rightarrow> bool) \<Rightarrow> 'e host \<Rightarrow> 'e world \<Rightarrow> 'e world \<Rightarrow> bool" for P H where
  call: "P a \<Longrightarrow> module_call H a w = Some (r, w') \<Longrightarrow> host_step P H w w'"
| step: "Manager_Step H ms w = Some w' \<Longrightarrow> host_step P H w w'"
| restart: "RestartChart H name w = Some w' \<Longrightarrow> host_step P H w w'"
| load: "ImportFile create parse_json parse_yaml read addresses file (w_chart_dict w, w_datas w)
    = Some (Inr (k, dict, h)) \<Longrightarrow> host_step P H w (w\<lparr>w_chart_dict := dict, w_datas := h\<rparr>)"
| patch: "Manager_PatchFromYaml create parse_yaml in_place addresses str (w_chart_dict w, w_datas w)
    = Some (Inr (k, dict, h)) \<Longrightarrow> host_step P H w (w\<lparr>w_chart_dict := dict, w_datas := h\<rparr>)"
| events: "ImportEvent parse_json parse_yaml read file (w_events w) = Some (Inr (n, em))
    \<Longrightarrow> host_step P H w (w\<lparr>w_events := em\<rparr>)"
| defer_mode: "host_step P H w (SetDeferMode b w)"
| stop_when_error: "host_step P H w (SetNodeStopWhenError b w)"
| interval: "host_step P H w (SetDefaulTimeInterval ms w)"

inductive reachable :: "(api \<Rightarrow> bool) \<Rightarrow> 'e host \<Rightarrow> 'e world \<Rightarrow> bool" for P H where
  start: "reachable P H ((new_manager e)\<lparr>w_chart_dict := dict, w_datas := h, w_events := em\<rparr>)"
| step: "reachable P H w \<Longrightarrow> host_step P H w w' \<Longrightarrow> reachable P H w'"

lemma reachable_new: "reachable P H (new_manager e)"
  using reachable.start [where e = e and dict = "\<lambda>_. None" and h = "\<lambda>_. None" and em = EventManager]
  by (simp add: new_manager_def)

section \<open>Invariants of all reachable worlds\<close>

text \<open>What loading and configuring change.\<close>

definition resources :: "(string \<rightharpoonup> nat) \<Rightarrow> data_heap \<Rightarrow> event_manager \<Rightarrow> bool \<Rightarrow> bool \<Rightarrow> int \<Rightarrow> 'e world \<Rightarrow> 'e world" where
  "resources dict h em d s i w = w\<lparr>w_chart_dict := dict, w_datas := h, w_events := em, w_defer := d,
     w_stop_when_error := s, w_interval := i\<rparr>"

lemma resources_ops:
  "w\<lparr>w_chart_dict := dict, w_datas := h\<rparr> = resources dict h (w_events w) (w_defer w) (w_stop_when_error w) (w_interval w) w"
  "w\<lparr>w_events := em\<rparr> = resources (w_chart_dict w) (w_datas w) em (w_defer w) (w_stop_when_error w) (w_interval w) w"
  "SetDeferMode d w = resources (w_chart_dict w) (w_datas w) (w_events w) d (w_stop_when_error w) (w_interval w) w"
  "SetNodeStopWhenError s w = resources (w_chart_dict w) (w_datas w) (w_events w) (w_defer w) s (w_interval w) w"
  "SetDefaulTimeInterval ms w = resources (w_chart_dict w) (w_datas w) (w_events w) (w_defer w)
     (w_stop_when_error w) (if ms \<le> 0 then DEFAULT_STEP_INTERVAL else ms) w"
  by (simp_all add: resources_def SetDeferMode_def SetNodeStopWhenError_def SetDefaulTimeInterval_def)

context manager_rel
begin

lemma host_step_rel:
  assumes "host_calls_only P H" "\<And>a. Q a \<Longrightarrow> P a" "host_step Q H w w'"
    and "\<And>w dict h em d s i. R w (resources dict h em d s i w)"
  shows "R w w'"
  using assms(3)
proof (cases rule: host_step.cases)
  case (call a r)
  then show ?thesis using api_respects [OF assms(1,2)] by (simp add: module_call_def)
next
  case (step ms)
  then show ?thesis using Manager_Step_rel [OF assms(1)] by blast
next
  case (restart name)
  then show ?thesis using RestartChart_rel [OF assms(1)] by blast
qed (simp_all only: resources_ops assms(4))

end

text \<open>Between two calls of the host no flow is running.\<close>

definition calm :: "'e world \<Rightarrow> 'e world \<Rightarrow> bool" where
  "calm w w' \<longleftrightarrow> w_index w' = w_index w \<and> w_event_frame w' = w_event_frame w
     \<and> length (cs_local (w_cs w')) = length (cs_local (w_cs w))"

lemma calm_frame: "engine_frame w w' \<Longrightarrow> calm w w'"
  by (simp add: calm_def engine_frame_def)

lemma calm_trans: "calm u v \<Longrightarrow> calm v w \<Longrightarrow> calm u w"
  by (simp add: calm_def)

lemma calm_brackets:
  assumes "calm w1 w2"
  shows "on_cs (wait_swap k) w = Some w1 \<Longrightarrow> on_cs local_delete w2 = Some w3 \<Longrightarrow> calm w w3"
    and "on_cs (wait_swap k) (w\<lparr>w_event_frame := w_event_frame w + 1\<rparr>) = Some w1 \<Longrightarrow>
      on_cs local_delete (w2\<lparr>w_event_frame := w_event_frame w2 - 1, w_event := ev\<rparr>) = Some w3
      \<Longrightarrow> calm w w3"
  using assms by (auto simp: calm_def on_cs_Some dest!: cs_local_ops(8,9))

lemma destroy_calm: "destroy_agents w = Some w' \<Longrightarrow> calm w w'"
proof -
  assume "destroy_agents w = Some w'"
  then obtain w1 as d where w1: "foldM delete_agent as w = Some w1" and w': "w' = w1\<lparr>w_dying := d\<rparr>"
    by (auto simp: destroy_agents_def elim!: bind_SomeE split: prod.splits)
  have del: "delete_agent a v = Some v' \<Longrightarrow> calm v v'" for a v v'
    by (erule delete_agent_quiet) (simp add: calm_def quiet_sel)
  have "calm w w1"
    by (rule foldM_rel [OF _ _ _ w1]) (simp add: calm_def, erule (1) calm_trans, erule del)
  then show "calm w w'" by (simp add: calm_def w')
qed

interpretation calm: manager_rel calm "\<lambda>_. True"
proof unfold_locales
  show "upd_agent a h w = Some w' \<Longrightarrow> (\<And>ag. agent_id (h ag) = agent_id ag
      \<and> game_object (h ag) = game_object ag \<and> agent_status (h ag) = agent_status ag)
      \<Longrightarrow> calm w w'" for a h and w w' :: "'e world"
    by (rule calm_frame, rule frame.agent_law) blast+
  show "upd_chart c g w = Some w' \<Longrightarrow> (\<And>ch. nodes (g ch) = nodes ch
      \<and> owner_node (g ch) = owner_node ch \<and> chart_data_ptr (g ch) = chart_data_ptr ch)
      \<Longrightarrow> calm w w'" for c g and w w' :: "'e world"
    by (rule calm_frame, rule frame.chart_law) blast+
  show "calm u v \<Longrightarrow> calm v w \<Longrightarrow> calm u w" for u v w :: "'e world"
    by (rule calm_trans)
  show "calm (w\<lparr>w_index := w_index w + 1\<rparr>) w' \<Longrightarrow> calm w (w'\<lparr>w_index := w_index w\<rparr>)"
    for w w' :: "'e world" by (simp add: calm_def)
  show "Aact_Pop (w_cs w) = Some (Some n, cs) \<Longrightarrow> calm w (w\<lparr>w_cs := cs\<rparr>)" for n cs and w :: "'e world"
    by (auto simp: calm_def Aact_Pop_def split: list.splits)
  show "calm (w\<lparr>w_in_step := True\<rparr>) w' \<Longrightarrow> calm w (w'\<lparr>w_frame := w_frame w' + 1, w_in_step := False\<rparr>)"
    for w w' :: "'e world" by (simp add: calm_def)
qed (erule destroy_calm
    | rule calm_brackets, assumption, assumption, assumption
    | rule calm_frame, erule frame.node_law frame.create_law frame.add_timer_law frame.wait_push_law
        frame.exec_push_law frame.exec_pop_law frame.exec_clear_law frame.hist_clear_law frame.local_pop_law
        frame.register_law frame.unregister_law frame.node_stop_law frame.chart_stop_law frame.attacher_law
        frame.delete_law frame.stop_remove_law async_frame async_ops_frame
    | rule calm_frame, rule frame.cancel_timer_law misc_frame(1-5) engine_frame_refl
    | simp add: calm_def)+

section \<open>Properties\<close>

lemma new_manager_invs:
  "reg_inv ((new_manager e)\<lparr>w_chart_dict := dict, w_datas := h, w_events := em\<rparr>)"
  "safe ((new_manager e)\<lparr>w_chart_dict := dict, w_datas := h, w_events := em\<rparr>)"
  by (auto simp: reg_inv_def safe_def new_manager_def view_def empty_dying_def dying_def cs_inv_def
      empty_cstore_def contained_def rings_def)

lemma host_step_not_in_step:
  assumes "host_step Q H w w'" "\<not> w_in_step w"
  shows "\<not> w_in_step w'"
  using assms(1)
proof (cases rule: host_step.cases)
  case (call a r)
  then have "engine_frame w w'"
    using frame.api_respects [OF host_calls_True TrueI] by (simp add: module_call_def)
  with assms(2) show ?thesis by (simp add: engine_frame_def)
next
  case (restart name)
  then have "engine_frame w w'" using frame.RestartChart_rel [OF host_calls_True] by blast
  with assms(2) show ?thesis by (simp add: engine_frame_def)
qed (use assms(2) in \<open>auto simp: Manager_Step_def Let_def SetDeferMode_def SetNodeStopWhenError_def
    SetDefaulTimeInterval_def elim!: bind_SomeE\<close>)

lemma reachable_reg:
  assumes "reachable Q H w"
  shows "reg_inv w"
  using assms
proof (induction rule: reachable.induct)
  case (step w w')
  moreover have "reg_rel w (resources dict h em d s i w)" for w :: "'a world" and dict h em d s i
    unfolding resources_def by (rule reg_same_rel, rule reg_same_fields) simp_all
  ultimately show ?case
    using reg.host_step_rel [OF host_calls_True TrueI, of Q H w w'] by (simp add: reg_rel_def)
qed (rule new_manager_invs)

lemma reachable_rest:
  assumes "reachable Q H w"
  shows "w_index w = 0 \<and> w_event_frame w = 0 \<and> cs_local (w_cs w) = [] \<and> \<not> w_in_step w"
proof -
  have "calm (new_manager e) w \<and> \<not> w_in_step w" for e
    using assms
  proof (induction rule: reachable.induct)
    case (step w w')
    moreover have "calm w (resources dict h em d s i w)" for w :: "'a world" and dict h em d s i
      by (simp add: calm_def resources_def)
    ultimately show ?case
      using calm.host_step_rel [OF host_calls_True TrueI, of Q H w w'] calm_trans
        host_step_not_in_step by blast
  qed (simp add: calm_def new_manager_def)
  then show ?thesis by (simp add: calm_def new_manager_def empty_cstore_def)
qed

text \<open>C4. In every world the host program can reach, the registration is consistent: the maps of
  identifiers and objects hold exactly the running agents, once each, the agents that wait for their
  destruction are on one of the two lists, once, and no two agents share an identifier.\<close>

theorem reachable_registry:
  assumes "reachable Q H w"
  shows "reg_inv w"
  using assms by (rule reachable_reg)

lemma reachable_safe:
  assumes "host_calls_only (\<lambda>a. a \<noteq> Py_suspend_node) H" "reachable (\<lambda>a. a \<noteq> Py_suspend_node) H w"
  shows "safe w"
  using assms(2)
proof (induction rule: reachable.induct)
  case (step w w')
  moreover have "safe_rel w (resources dict h em d s i w)" for w :: "'a world" and dict h em d s i
    unfolding resources_def by (rule shrinks_safe, rule same_charts) simp_all
  ultimately show ?case
    using safe.host_step_rel [OF assms(1), of _ w w'] by (simp add: safe_rel_def)
qed (rule new_manager_invs)

text \<open>C3. In every world the host program can reach without suspending nodes, every node in a
  container points back to it, is in no other container, and belongs to a chart that exists.\<close>

theorem reachable_containers:
  assumes "host_calls_only (\<lambda>a. a \<noteq> Py_suspend_node) H" "reachable (\<lambda>a. a \<noteq> Py_suspend_node) H w"
  shows "safe w"
  using assms by (rule reachable_safe)

text \<open>C5. Whenever the host program has the control, the engine is at rest: the first executor is
  current, no event is being handled, no waiting list is being emptied and no step is under way.\<close>

theorem reachable_at_rest:
  assumes "reachable Q H w"
  shows "w_index w = 0 \<and> w_event_frame w = 0 \<and> cs_local (w_cs w) = [] \<and> \<not> w_in_step w"
  using assms by (rule reachable_rest)

end
