(* ===== verification/Timer_World.thy ===== *)
theory Timer_World
  imports Timer_Exact Reachable
begin

text \<open>
  The timer wheel inside the engine: in every world a host program can reach, the timers of nodes
  and agents that are scheduled lie in the future, and \<open>Manager::Step\<close> executes each of them at the
  millisecond it is scheduled at.
\<close>

section \<open>The engine keeps the invariant of the wheel\<close>

definition wheel_rel :: "'e world \<Rightarrow> 'e world \<Rightarrow> bool" where
  "wheel_rel w w' \<longleftrightarrow> (\<forall>t m. winv t 8 m (w_wheel w) \<longrightarrow> winv t 8 m (w_wheel w'))"

lemma wheel_rel_refl: "wheel_rel w w"
  by (simp add: wheel_rel_def)

lemma wheel_rel_same: "w_wheel w' = w_wheel w \<Longrightarrow> wheel_rel w w'"
  by (simp add: wheel_rel_def)

lemma wheel_rel_trans: "wheel_rel u v \<Longrightarrow> wheel_rel v w \<Longrightarrow> wheel_rel u w"
  by (simp add: wheel_rel_def)

lemma cancel_timer_wheel: "wheel_rel w (cancel_timer t w)"
  by (simp add: wheel_rel_def cancel_timer_def cancel_winv)

lemma add_timer_wheel:
  assumes "add_timer t ms w = Some w'"
  shows "wheel_rel w w'"
proof -
  obtain wh where "schedule t (nat (ms mod 2 ^ 64)) (w_wheel w) = Some wh" "w' = w\<lparr>w_wheel := wh\<rparr>"
    using assms by (auto simp: add_timer_def AddTimer_def elim!: bind_SomeE)
  then show ?thesis unfolding wheel_rel_def by (auto dest: schedule_winv)
qed

interpretation wheel: quiet_rel wheel_rel
  by unfold_locales
    (auto simp: upd_node_Some upd_chart_Some upd_agent_Some on_cs_Some
      intro: wheel_rel_same wheel_rel_refl wheel_rel_trans cancel_timer_wheel)

lemma Register_wheel:
  assumes "Register obj w = Some (a, w')"
  shows "wheel_rel w w'"
proof (cases "GetAgent obj w")
  case None
  let ?w = "w\<lparr>w_agents := (w_agents w)(w_next_agent w \<mapsto> \<lparr>agent_id = 1, tick_interval = DEFAULT_AGENT_TICK,
      agent_status = AgentRunning, chart_dict = [], game_object = obj\<rparr>), w_next_agent := w_next_agent w + 1\<rparr>"
  from assms None obtain w1 where "AgentTimer_Start (w_next_agent w) ?w = Some w1" "w_wheel w' = w_wheel w1"
    by (auto simp: Register_def Let_def upd_agent_Some elim!: bind_SomeE)
  then have "wheel_rel ?w w1" "wheel_rel w1 w'"
    by (auto simp: AgentTimer_Start_def intro: add_timer_wheel wheel_rel_same)
  then show ?thesis by (simp add: wheel_rel_def)
qed (use assms wheel_rel_refl in \<open>simp add: Register_def\<close>)

lemma Unregister_wheel:
  assumes "Manager_UnregisterGameObject ao w = Some (b, w')"
  shows "wheel_rel w w'"
proof (cases "w' = w")
  case False
  with assms obtain a w1 w2 w3 where "upd_agent a (\<lambda>ag. ag\<lparr>agent_status := AgentDestroying\<rparr>) w = Some w1"
    and w2: "Agent_Stop a w1 = Some w2" and "UnRegister a w2 = Some w3" "w_wheel w' = w_wheel w3"
    by (auto simp: Manager_UnregisterGameObject_def split: option.splits if_splits elim!: bind_SomeE)
  then have "wheel_rel w w1" "wheel_rel w2 w'"
    by (auto simp: upd_agent_Some UnRegister_def intro!: wheel_rel_same elim!: bind_SomeE)
  moreover have "wheel_rel w1 w2"
    using w2 by (auto simp: Agent_Stop_def intro: wheel.foldM_Chart_Stop_step elim!: bind_SomeE)
  ultimately show ?thesis using wheel_rel_trans by blast
qed (simp add: wheel_rel_refl)

lemma async_wheel:
  "SetStatus s n w = Some w' \<Longrightarrow> w_wheel w' = w_wheel w" "SetResult r n w = Some w' \<Longrightarrow> w_wheel w' = w_wheel w"
  "SetSkip b n w = Some w' \<Longrightarrow> w_wheel w' = w_wheel w"
  "AddNode n w = Some w' \<Longrightarrow> w_wheel w' = w_wheel w" "RemoveNode n w = Some w' \<Longrightarrow> w_wheel w' = w_wheel w"
  "ActivateNode n b w = Some w' \<Longrightarrow> w_wheel w' = w_wheel w"
  by (auto simp: SetStatus_def SetResult_def SetSkip_def AddNode_def RemoveNode_def ActivateNode_def
      upd_node_Some on_cs_Some elim!: bind_SomeE split: if_splits)

lemma context_wheel:
  "CreateAsyncContext w = Some (x, w') \<Longrightarrow> w_wheel w' = w_wheel w"
  "ContinueAsyncNode ctx w = Some (b, w') \<Longrightarrow> w_wheel w' = w_wheel w"
  "CancelAsyncNode ctx stop w = Some (b, w') \<Longrightarrow> w_wheel w' = w_wheel w"
  unfolding CreateAsyncContext_def ContinueAsyncNode_def CancelAsyncNode_def
  by (auto elim!: bind_SomeE split: option.splits if_splits dest!: async_wheel)

lemma destroy_wheel:
  assumes "destroy_agents w = Some w'"
  shows "wheel_rel w w'"
proof -
  obtain w1 as d where w1: "foldM delete_agent as w = Some w1" and w': "w' = w1\<lparr>w_dying := d\<rparr>"
    using assms by (auto simp: destroy_agents_def elim!: bind_SomeE split: prod.splits)
  have step: "wheel_rel v v'" if del: "delete_agent a v = Some v'" for a v v'
  proof -
    from del obtain v1 v2 and ag :: agent where
      "on_cs (\<lambda>cs. Some (wait_delete a cs)) (cancel_timer (TAgent a) v) = Some v1"
      and v2: "foldM (\<lambda>(name, cs). delete_chart_list a name (length cs)) (chart_dict ag) v1 = Some v2"
      and "v' = v2\<lparr>w_agents := (w_agents v2)(a := None)\<rparr>"
      by (auto simp: delete_agent_def Let_def elim!: bind_SomeE)
    then have "wheel_rel (cancel_timer (TAgent a) v) v1" "wheel_rel v2 v'"
      by (auto simp: on_cs_Some intro: wheel_rel_same)
    moreover have "wheel_rel v1 v2"
      by (rule foldM_rel [OF wheel_rel_refl wheel_rel_trans _ v2]) (auto intro: wheel.delete_chart_list_step)
    ultimately show ?thesis using cancel_timer_wheel wheel_rel_trans by blast
  qed
  have "wheel_rel w w1"
    by (rule foldM_rel [OF wheel_rel_refl _ _ w1]) (erule (1) wheel_rel_trans, rule step)
  then show ?thesis by (simp add: w' wheel_rel_def)
qed

interpretation clock: step_rel wheel_rel "\<lambda>_. True"
proof unfold_locales
  show "wheel_rel u v \<Longrightarrow> wheel_rel v w \<Longrightarrow> wheel_rel u w" for u v w :: "'e world"
    by (rule wheel_rel_trans)
  show "wheel_rel (w\<lparr>w_index := w_index w + 1\<rparr>) w' \<Longrightarrow> wheel_rel w (w'\<lparr>w_index := w_index w\<rparr>)"
    for w w' :: "'e world" by (simp add: wheel_rel_def)
  show "on_cs (wait_swap k) w = Some w1 \<Longrightarrow> wheel_rel w1 w2 \<Longrightarrow> on_cs local_delete w2 = Some w3
      \<Longrightarrow> wheel_rel w w3" for k and w w1 w2 w3 :: "'e world"
    by (auto simp: wheel_rel_def on_cs_Some)
  show "on_cs (wait_swap k) (w\<lparr>w_event_frame := w_event_frame w + 1\<rparr>) = Some w1 \<Longrightarrow> wheel_rel w1 w2 \<Longrightarrow>
      on_cs local_delete (w2\<lparr>w_event_frame := w_event_frame w2 - 1, w_event := ev\<rparr>) = Some w3
      \<Longrightarrow> wheel_rel w w3" for k ev and w w1 w2 w3 :: "'e world"
    by (auto simp: wheel_rel_def on_cs_Some)
qed (erule Register_wheel Unregister_wheel add_timer_wheel
    | rule wheel_rel_refl cancel_timer_wheel
    | rule wheel_rel_same, erule context_wheel
    | rule wheel_rel_same, force simp: upd_node_Some upd_chart_Some upd_agent_Some on_cs_Some
        post_event_def dest: prim_Some)+

interpretation clock: handler_rel wheel_rel "\<lambda>_. True"
  by unfold_locales (auto intro: wheel_rel_same destroy_wheel async_wheel)

lemma wheel_rel_owner: "wheel_rel w w' \<Longrightarrow> winv t 8 m (w_wheel w) \<Longrightarrow> winv t 8 m (w_wheel w')"
  by (simp add: wheel_rel_def)

interpretation on_time: wheel_owner w_wheel set_wheel "timer_execute H" for H :: "'e host"
proof
  show "w_wheel (set_wheel wh w) = wh" for wh and w :: "'e world" by (simp add: set_wheel_def)
  show "winv t 8 m (w_wheel w) \<Longrightarrow> timer_execute H e w = Some w' \<Longrightarrow> winv t 8 m (w_wheel w')"
    for t m e and w w' :: "'e world"
    using wheel_rel_owner [OF clock.timer_execute_rel [OF host_calls_True]] .
qed

section \<open>Steps\<close>

lemma wheel_rel_ok:
  assumes "wheel_rel w w'" "wheel_ok (w_wheel w)"
  shows "wheel_ok (w_wheel w') \<and> nows (w_wheel w') 0 = nows (w_wheel w) 0"
proof -
  have "winv (nows (w_wheel w) 0) 8 0 (w_wheel w')"
    using assms by (simp add: wheel_rel_def wheel_ok_def)
  from winvD(3) [OF this, of 0] this show ?thesis by (simp add: wheel_ok_def)
qed

lemma Manager_Step_timers:
  assumes run: "Manager_Step H ms w = Some w'" and ok: "wheel_ok (w_wheel w)"
    and d: "d = (if ms \<ge> 0 then ms else w_interval w)"
  shows "wheel_ok (w_wheel w') \<and> nows (w_wheel w') 0 = nows (w_wheel w) 0 + nat d
    \<and> TimerManager_Step w_wheel set_wheel (timed w_wheel (timer_execute H)) d (w\<lparr>w_in_step := True\<rparr>)
        = TimerManager_Step w_wheel set_wheel (timer_execute H) d (w\<lparr>w_in_step := True\<rparr>)"
  using host_calls_True run
proof (rule clock.Manager_Step_parts)
  fix w1 w4
  assume w1: "TimerManager_Step w_wheel set_wheel (timer_execute H) (if ms \<ge> 0 then ms else w_interval w)
      (w\<lparr>w_in_step := True\<rparr>) = Some w1"
    and w4: "wheel_rel w1 w4" "w' = w4\<lparr>w_frame := w_frame w4 + 1, w_in_step := False\<rparr>"
  from on_time.Step_exact [OF w1 [folded d]] ok have "wheel_ok (w_wheel w1)"
    "nows (w_wheel w1) 0 = nows (w_wheel w) 0 + nat d"
    "TimerManager_Step w_wheel set_wheel (timed w_wheel (timer_execute H)) d (w\<lparr>w_in_step := True\<rparr>) = Some w1"
    by simp_all
  with wheel_rel_ok [OF w4(1)] w1 [folded d] show ?thesis by (simp add: w4(2))
qed

lemma reachable_wheel_ok: "reachable Q H w \<Longrightarrow> wheel_ok (w_wheel w)"
proof (induction rule: reachable.induct)
  case (start e)
  show ?case by (simp add: new_manager_def wheel_ok_new)
next
  case (step w w')
  from step(2) show ?case
  proof (cases rule: host_step.cases)
    case (call a r)
    then have "wheel_rel w w'" using clock.api_respects [OF host_calls_True TrueI] by (simp add: module_call_def)
    with wheel_rel_ok step show ?thesis by blast
  next
    case (step ms)
    with Manager_Step_timers \<open>wheel_ok (w_wheel w)\<close> show ?thesis by blast
  next
    case (restart name)
    then have "wheel_rel w w'" using clock.RestartChart_rel [OF host_calls_True] by blast
    with wheel_rel_ok step show ?thesis by blast
  qed (use step in \<open>simp_all add: SetDeferMode_def SetNodeStopWhenError_def SetDefaulTimeInterval_def\<close>)
qed

section \<open>Properties\<close>

text \<open>C7. In every world the host program can reach, every scheduled timer, of a node or of an agent,
  is due in the future: none has been passed over.\<close>

theorem reachable_timers_pending:
  assumes "reachable Q H w" "slot_of (w_wheel w) t \<noteq> None"
  shows "Now w < scheduled_at (w_wheel w) t"
  using wheel_ok_future [OF reachable_wheel_ok] assms by (simp add: Now_def)

text \<open>C6. A step moves the clock by the time it is given, or by the interval of the manager when that
  is negative, and executes every timer exactly at the millisecond the timer is scheduled at: with
  a callback that is undefined at any other time the step is the same.\<close>

theorem timers_on_time:
  assumes "reachable Q H w" "Manager_Step H ms w = Some w'" "d = (if ms \<ge> 0 then ms else w_interval w)"
  shows "Now w' = Now w + nat d
    \<and> TimerManager_Step w_wheel set_wheel (timed w_wheel (timer_execute H)) d (w\<lparr>w_in_step := True\<rparr>)
        = TimerManager_Step w_wheel set_wheel (timer_execute H) d (w\<lparr>w_in_step := True\<rparr>)"
  using Manager_Step_timers [OF assms(2) reachable_wheel_ok [OF assms(1)] assms(3)] by (simp add: Now_def)

end
