(* ===== verification/Python_Session.thy ===== *)
theory Python_Session
  imports Timer_World
begin

text \<open>
  The life of the Python module around one manager: \<open>setup\<close> and \<open>exit\<close>, loading, the clock and the
  methods of the manager object (\<open>src/py/export_python.cpp\<close>, \<open>export_manager.cpp\<close>,
  \<open>py_manager.cpp\<close>). The chart data and the table of events are static members of \<open>Manager\<close>: they
  outlive it, and the next manager finds them.
\<close>

section \<open>State\<close>

text \<open>\<open>s_charts\<close>, \<open>s_datas\<close> and \<open>s_events\<close> are the static members while there is no manager; a
  manager has them in its world. \<open>s_event_ids\<close> is the dictionary of the type \<open>EventId\<close>, and
  \<open>s_node_funcs\<close> the keys of the dictionary \<open>node_funcs\<close> of the module.\<close>

record 'e session =
  s_manager :: "'e world option"
  s_charts :: "string \<rightharpoonup> nat"
  s_datas :: data_heap
  s_events :: event_manager
  s_event_ids :: "(string \<times> int) list"
  s_node_funcs :: "string set"
  s_env :: 'e

definition new_session :: "'e \<Rightarrow> 'e session" where
  "new_session e = \<lparr>s_manager = None, s_charts = (\<lambda>_. None), s_datas = (\<lambda>_. None), s_events = EventManager,
     s_event_ids = [], s_node_funcs = {}, s_env = e\<rparr>"

section \<open>Setup and exit\<close>

text \<open>The entries of the dictionary given to \<open>setup\<close>.\<close>

record config =
  cfg_defer_event :: "val option"
  cfg_default_timestep :: "val option"
  cfg_node_stop_when_error :: "val option"

text \<open>\<open>_get_int_from_config_dict\<close> on the entry found; a truth value is an integer of Python.\<close>

fun config_int :: "val option \<Rightarrow> int option" where
  "config_int (Some (VInt i)) = Some (int_of_long i)"
| "config_int (Some (VBool b)) = Some (if b then 1 else 0)"
| "config_int _ = None"

definition configure :: "config \<Rightarrow> 'e world \<Rightarrow> 'e world" where
  "configure cfg w =
     (let w = (case cfg_defer_event cfg of None \<Rightarrow> w | Some v \<Rightarrow> SetDeferMode (ObjIsBool v) w);
          w = (case config_int (cfg_default_timestep cfg) of None \<Rightarrow> w | Some i \<Rightarrow> SetDefaulTimeInterval i w)
      in (case cfg_node_stop_when_error cfg of None \<Rightarrow> w | Some v \<Rightarrow> SetNodeStopWhenError (ObjIsBool v) w))"

text \<open>The result tells whether a manager was made.\<close>

definition module_setup :: "config option \<Rightarrow> 'e session \<Rightarrow> bool \<times> 'e session" where
  "module_setup cfg s =
     (case s_manager s of
        Some _ \<Rightarrow> (False, s)
      | None \<Rightarrow>
          (let w = (new_manager (s_env s))\<lparr>w_chart_dict := s_charts s, w_datas := s_datas s,
                     w_events := s_events s\<rparr>;
               w = (case cfg of None \<Rightarrow> w | Some c \<Rightarrow> configure c w)
           in (True, s\<lparr>s_manager := Some w\<rparr>)))"

text \<open>The destructors of \<open>PyManager\<close>, of its agent manager, which deletes the registered agents, and
  of \<open>Manager\<close>.\<close>

definition delete_manager :: "'e world \<Rightarrow> 'e world option" where
  "delete_manager w = foldM delete_agent (map snd (w_agent_map w)) w"

definition module_exit :: "'e session \<Rightarrow> 'e session option" where
  "module_exit s =
     (case s_manager s of
        None \<Rightarrow> Some s
      | Some w \<Rightarrow>
          do { w \<leftarrow> delete_manager w;
               Some (s\<lparr>s_manager := None, s_charts := w_chart_dict w, s_datas := w_datas w,
                       s_events := w_events w, s_env := w_env w\<rparr>) })"

section \<open>Functions of the module\<close>

text \<open>A function called without a manager raises an exception of Python: the session is unchanged and
  the value is \<open>None\<close>. An exception of the standard library that leaves the module ends the
  program.\<close>

definition with_manager ::
  "('e world \<Rightarrow> ('r \<times> 'e world) option) \<Rightarrow> 'e session \<Rightarrow> ('r option \<times> 'e session) option" where
  "with_manager f s =
     (case s_manager s of
        None \<Rightarrow> Some (None, s)
      | Some w \<Rightarrow> do { (r, w) \<leftarrow> f w; Some (Some r, s\<lparr>s_manager := Some w\<rparr>) })"

text \<open>The functions of the nodes are looked up in \<open>node_funcs\<close> by name.\<close>

definition CompileFunction :: "string set \<Rightarrow> creator" where
  "CompileFunction names code name = (if name \<in> names then Some (Script code name) else None)"

definition set_node_func :: "string \<Rightarrow> 'e session \<Rightarrow> 'e session" where
  "set_node_func name s = s\<lparr>s_node_funcs := insert name (s_node_funcs s)\<rparr>"

definition import_charts ::
  "(string \<Rightarrow> nat + json) \<Rightarrow> (string \<Rightarrow> yaml_root) \<Rightarrow> (string \<Rightarrow> string option) \<Rightarrow> nat list \<Rightarrow> string
     \<Rightarrow> 'e session \<Rightarrow> (nat option \<times> 'e session) option" where
  "import_charts parse_json parse_yaml read addresses path s =
     with_manager (\<lambda>w.
       case ImportFile (CompileFunction (s_node_funcs s)) parse_json parse_yaml read addresses path
              (w_chart_dict w, w_datas w) of
         Some (Inr (k, dict, h)) \<Rightarrow> Some (k, w\<lparr>w_chart_dict := dict, w_datas := h\<rparr>)
       | _ \<Rightarrow> None) s"

text \<open>The second argument counts only when it is the truth value \<open>True\<close>.\<close>

definition module_patch ::
  "(string \<Rightarrow> yaml_root) \<Rightarrow> nat list \<Rightarrow> string \<Rightarrow> val option \<Rightarrow> 'e session \<Rightarrow> (nat option \<times> 'e session) option" where
  "module_patch parse_yaml addresses str in_place_obj s =
     with_manager (\<lambda>w.
       case Manager_PatchFromYaml (CompileFunction (s_node_funcs s)) parse_yaml
              (in_place_obj = Some (VBool True)) addresses str (w_chart_dict w, w_datas w) of
         Some (Inr (k, dict, h)) \<Rightarrow> Some (k, w\<lparr>w_chart_dict := dict, w_datas := h\<rparr>)
       | _ \<Rightarrow> None) s"

text \<open>Importing events makes the dictionary of \<open>EventId\<close> anew when any were found.\<close>

definition event_ids :: "event_info list \<Rightarrow> (string \<times> int) list" where
  "event_ids es = foldl (\<lambda>d e. AList.update (info_name e) (info_id e) d) [] es"

definition import_event ::
  "(string \<Rightarrow> nat + json) \<Rightarrow> (string \<Rightarrow> yaml_root) \<Rightarrow> (string \<Rightarrow> string option) \<Rightarrow> string
     \<Rightarrow> 'e session \<Rightarrow> (int option \<times> 'e session) option" where
  "import_event parse_json parse_yaml read path s =
     (case s_manager s of
        None \<Rightarrow> Some (None, s)
      | Some w \<Rightarrow>
          (case ImportEvent parse_json parse_yaml read path (w_events w) of
             Some (Inr (n, em)) \<Rightarrow>
               Some (Some n, s\<lparr>s_manager := Some (w\<lparr>w_events := em\<rparr>),
                 s_event_ids := (if n \<noteq> 0 then event_ids (event_info_list em) else s_event_ids s)\<rparr>)
           | _ \<Rightarrow> None))"

definition module_step :: "'e host \<Rightarrow> int \<Rightarrow> 'e session \<Rightarrow> (unit option \<times> 'e session) option" where
  "module_step H i = with_manager (\<lambda>w. map_option (Pair ()) (Manager_Step H i w))"

text \<open>What the functions do without a manager: some raise an exception of Python (\<open>None\<close>), some return
  a value, and some follow the null pointer. The methods of the objects of a manager that is gone are
  not modelled.\<close>

fun no_manager_reply :: "api \<Rightarrow> reply option option" where
  "no_manager_reply (Py_wait _) = Some (Some (RVal (VBool False)))"
| "no_manager_reply (Py_set_var _ _) = Some (Some (RVal (VBool False)))"
| "no_manager_reply (Py_continue_node _ _) = Some (Some (RVal (VBool False)))"
| "no_manager_reply (Py_cancel _ _) = Some (Some (RVal (VBool False)))"
| "no_manager_reply (Py_wait_event _ _) = Some (Some (RVal VNone))"
| "no_manager_reply (Py_call_sub _ _ _) = Some (Some (RVal VNone))"
| "no_manager_reply (Py_ret _) = Some (Some (RVal VNone))"
| "no_manager_reply (Py_get_var _) = Some (Some (RVal VNone))"
| "no_manager_reply (Py_get_event_param _ _) = Some (Some (RVal VNone))"
| "no_manager_reply Py_time = Some (Some (RVal VNone))"
| "no_manager_reply Py_suspend_node = Some (Some (RVal VNone))"
| "no_manager_reply (Py_event _ _ _) = Some None"
| "no_manager_reply (Py_trigger _ _ _) = Some None"
| "no_manager_reply (Py_post _ _ _) = Some None"
| "no_manager_reply (Py_register _ _) = Some None"
| "no_manager_reply (Py_get_agent _) = Some None"
| "no_manager_reply (Py_deregister _) = Some None"
| "no_manager_reply (Py_attach _ _ _) = Some None"
| "no_manager_reply (Py_remove _ _) = Some None"
| "no_manager_reply (Py_start _ _) = Some None"
| "no_manager_reply (Py_stop _ _) = Some None"
| "no_manager_reply (Py_dump _) = Some None"
| "no_manager_reply _ = None"

definition session_call :: "'e host \<Rightarrow> api \<Rightarrow> 'e session \<Rightarrow> (reply option \<times> 'e session) option" where
  "session_call H a s =
     (if s_manager s = None then map_option (\<lambda>r. (r, s)) (no_manager_reply a)
      else with_manager (module_call H a) s)"

section \<open>The manager object\<close>

text \<open>The object returned by \<open>setup\<close> keeps a pointer to the manager, null after its end. Its methods
  are those of the module, except that most do not check the pointer.\<close>

definition manager_is_valid :: "'e session \<Rightarrow> bool" where
  "manager_is_valid s \<longleftrightarrow> s_manager s \<noteq> None"

definition manager_exit :: "'e session \<Rightarrow> (bool \<times> 'e session) option" where
  "manager_exit s =
     (if s_manager s \<noteq> None then map_option (Pair True) (module_exit s) else Some (False, s))"

definition checked_manager ::
  "('e session \<Rightarrow> ('r option \<times> 'e session) option) \<Rightarrow> 'e session \<Rightarrow> ('r option \<times> 'e session) option" where
  "checked_manager f s = (if s_manager s = None then None else f s)"

definition manager_register :: "'e host \<Rightarrow> nat \<Rightarrow> int \<Rightarrow> 'e session \<Rightarrow> (reply option \<times> 'e session) option" where
  "manager_register H obj interval s =
     (if s_manager s = None then Some (Some (RVal VNone), s)
      else session_call H (Py_register obj interval) s)"

definition manager_deregister :: "'e host \<Rightarrow> nat \<Rightarrow> 'e session \<Rightarrow> (reply option \<times> 'e session) option" where
  "manager_deregister H obj = checked_manager (session_call H (Py_deregister obj))"

definition manager_get_agent :: "'e host \<Rightarrow> nat \<Rightarrow> 'e session \<Rightarrow> (reply option \<times> 'e session) option" where
  "manager_get_agent H obj = checked_manager (session_call H (Py_get_agent obj))"

definition manager_import_charts ::
  "(string \<Rightarrow> nat + json) \<Rightarrow> (string \<Rightarrow> yaml_root) \<Rightarrow> (string \<Rightarrow> string option) \<Rightarrow> nat list \<Rightarrow> string
     \<Rightarrow> 'e session \<Rightarrow> (nat option \<times> 'e session) option" where
  "manager_import_charts parse_json parse_yaml read addresses path =
     checked_manager (import_charts parse_json parse_yaml read addresses path)"

definition manager_import_event ::
  "(string \<Rightarrow> nat + json) \<Rightarrow> (string \<Rightarrow> yaml_root) \<Rightarrow> (string \<Rightarrow> string option) \<Rightarrow> string
     \<Rightarrow> 'e session \<Rightarrow> (int option \<times> 'e session) option" where
  "manager_import_event parse_json parse_yaml read path =
     checked_manager (import_event parse_json parse_yaml read path)"

definition manager_step :: "'e host \<Rightarrow> int \<Rightarrow> 'e session \<Rightarrow> (unit option \<times> 'e session) option" where
  "manager_step H i = checked_manager (module_step H i)"

text \<open>\<open>mgr.event\<close> always puts the event into the queue.\<close>

definition manager_event :: "'e host \<Rightarrow> nat \<Rightarrow> int \<Rightarrow> val list \<Rightarrow> 'e session \<Rightarrow> (reply option \<times> 'e session) option" where
  "manager_event H obj ev args =
     checked_manager (with_manager (\<lambda>w. map_option (\<lambda>(_, w). (RVal (VBool True), w))
       (Manager_Event (top_knot H) ev (GetAgent obj w) args False False w)))"

section \<open>The worlds of a session\<close>

text \<open>The steps of a host program through the module; \<open>P\<close> are the calls it makes.\<close>

inductive session_step :: "(api \<Rightarrow> bool) \<Rightarrow> 'e host \<Rightarrow> 'e session \<Rightarrow> 'e session \<Rightarrow> bool" for P H where
  begin_manager: "module_setup cfg s = (b, s') \<Longrightarrow> session_step P H s s'"
| end_manager: "module_exit s = Some s' \<Longrightarrow> session_step P H s s'"
| node_func: "session_step P H s (set_node_func name s)"
| charts: "import_charts parse_json parse_yaml read addresses path s = Some (r, s') \<Longrightarrow> session_step P H s s'"
| patch: "module_patch parse_yaml addresses str in_place s = Some (r, s') \<Longrightarrow> session_step P H s s'"
| events: "import_event parse_json parse_yaml read path s = Some (n, s') \<Longrightarrow> session_step P H s s'"
| step: "module_step H i s = Some (u, s') \<Longrightarrow> session_step P H s s'"
| call: "P a \<Longrightarrow> session_call H a s = Some (rep, s') \<Longrightarrow> session_step P H s s'"

inductive session_reachable :: "(api \<Rightarrow> bool) \<Rightarrow> 'e host \<Rightarrow> 'e session \<Rightarrow> bool" for P H where
  start: "session_reachable P H (new_session e)"
| step: "session_reachable P H s \<Longrightarrow> session_step P H s s' \<Longrightarrow> session_reachable P H s'"

lemma with_manager_step:
  assumes "with_manager f s = Some (r, s')" "\<And>w r' w'. f w = Some (r', w') \<Longrightarrow> host_step P H w w'"
    and "\<forall>w. s_manager s = Some w \<longrightarrow> reachable P H w" "s_manager s' = Some w'"
  shows "reachable P H w'"
  using assms by (auto simp: with_manager_def split: option.splits elim!: bind_SomeE intro: reachable.step)

lemma configure_reachable:
  assumes w: "reachable P H w"
  shows "reachable P H (configure cfg w)"
  unfolding configure_def Let_def using w
  by (auto split: option.splits intro!: reachable.step [OF _ host_step.defer_mode]
      reachable.step [OF _ host_step.interval] reachable.step [OF _ host_step.stop_when_error])

lemma session_worlds:
  assumes "session_reachable P H s" "s_manager s = Some w"
  shows "reachable P H w"
proof -
  from assms(1) have "\<forall>w. s_manager s = Some w \<longrightarrow> reachable P H w"
  proof (induction rule: session_reachable.induct)
    case (step s s')
    note IH = step(3)
    show ?case
    proof (intro allI impI)
      fix w' assume w': "s_manager s' = Some w'"
      from step(2) show "reachable P H w'"
      proof (cases rule: session_step.cases)
        case (begin_manager cfg b)
        with IH w' show ?thesis
          by (auto simp: module_setup_def Let_def split: option.splits
              intro!: configure_reachable reachable.start)
      next
        case end_manager
        with IH w' show ?thesis by (auto simp: module_exit_def split: option.splits elim!: bind_SomeE)
      next
        case (charts parse_json parse_yaml read addresses path r)
        show ?thesis
          by (rule with_manager_step [OF charts [unfolded import_charts_def] _ IH w'])
            (auto split: option.splits sum.splits intro: host_step.load)
      next
        case (patch parse_yaml addresses str in_place r)
        show ?thesis
          by (rule with_manager_step [OF patch [unfolded module_patch_def] _ IH w'])
            (auto split: option.splits sum.splits intro: host_step.patch)
      next
        case (events parse_json parse_yaml read path n)
        with IH w' show ?thesis
          by (auto simp: import_event_def split: option.splits sum.splits
              intro!: reachable.step [OF _ host_step.events])
      next
        case (step i u)
        show ?thesis
          by (rule with_manager_step [OF step [unfolded module_step_def] _ IH w']) (auto intro: host_step.step)
      next
        case (call a rep)
        show ?thesis
        proof (cases "s_manager s")
          case (Some w)
          with call(2) have "with_manager (module_call H a) s = Some (rep, s')" by (simp add: session_call_def)
          then show ?thesis by (rule with_manager_step [OF _ _ IH w']) (rule host_step.call, rule call(1))
        qed (use call(2) w' in \<open>auto simp: session_call_def\<close>)
      qed (use IH w' in \<open>simp_all add: set_node_func_def\<close>)
    qed
  qed (simp add: new_session_def)
  with assms(2) show ?thesis by blast
qed

lemma delete_manager_keeps:
  assumes "delete_manager w = Some w'"
  shows "w_chart_dict w' = w_chart_dict w \<and> w_datas w' = w_datas w \<and> w_events w' = w_events w"
proof (rule foldM_rel [OF _ _ _ assms [unfolded delete_manager_def]])
  fix a and v v' :: "'a world"
  assume "delete_agent a v = Some v'"
  then show "w_chart_dict v' = w_chart_dict v \<and> w_datas v' = w_datas v \<and> w_events v' = w_events v"
    by (rule delete_agent_quiet) (simp add: quiet_sel)
qed simp_all

lemma event_ids_map: "map_of (event_ids es) = map_of (rev (map (\<lambda>e. (info_name e, info_id e)) es))"
proof -
  have "map_of (foldl (\<lambda>d e. AList.update (info_name e) (info_id e) d) d es)
      = map_of d ++ map_of (rev (map (\<lambda>e. (info_name e, info_id e)) es))" for d
    by (induction es arbitrary: d) (simp_all add: update_conv' map_add_def fun_eq_iff split: option.splits)
  from this [of "[]"] show ?thesis by (simp add: event_ids_def)
qed

lemma event_ids_distinct:
  assumes "distinct (map info_name es)"
  shows "map_of (event_ids es) name = Some i \<longleftrightarrow> (\<exists>e \<in> set es. info_name e = name \<and> info_id e = i)"
proof -
  have "distinct (map fst (rev (map (\<lambda>e. (info_name e, info_id e)) es)))"
    using assms by (simp add: comp_def rev_map [symmetric])
  then show ?thesis unfolding event_ids_map by (auto simp: map_of_eq_Some_iff)
qed

section \<open>Properties\<close>

text \<open>C10. Whatever a host program does through the module, with any number of managers one after the
  other, the manager it has is in a world that the engine's invariants cover: the registration is
  consistent, the engine is at rest, and no timer has been passed over.\<close>

theorem session_invariants:
  assumes "session_reachable P H s" "s_manager s = Some w"
  shows "reg_inv w \<and> wheel_ok (w_wheel w) \<and> w_index w = 0 \<and> \<not> w_in_step w"
proof -
  have r: "reachable P H w" using assms by (rule session_worlds)
  show ?thesis
    using reachable_reg [OF r] reachable_wheel_ok [OF r] reachable_rest [OF r] by simp
qed

text \<open>Leaving and setting up again gives a fresh manager, without agents, charts and timers and with
  its clock at 0, that still has the charts and events loaded before.\<close>

theorem exit_setup_keeps_resources:
  assumes "s_manager s = Some w" "module_exit s = Some s1" "module_setup None s1 = (b, s2)"
  shows "b \<and> (\<exists>w2. s_manager s2 = Some w2
    \<and> w_chart_dict w2 = w_chart_dict w \<and> w_datas w2 = w_datas w \<and> w_events w2 = w_events w
    \<and> w_agents w2 = (\<lambda>_. None) \<and> w_charts w2 = (\<lambda>_. None) \<and> w_wheel w2 = new_wheel
    \<and> Now w2 = 0 \<and> w_defer w2)"
proof -
  obtain w1 where w1: "delete_manager w = Some w1"
    and s1: "s1 = s\<lparr>s_manager := None, s_charts := w_chart_dict w1, s_datas := w_datas w1,
      s_events := w_events w1, s_env := w_env w1\<rparr>"
    using assms(1,2) by (auto simp: module_exit_def elim!: bind_SomeE)
  from delete_manager_keeps [OF w1] assms(3) show ?thesis
    by (auto simp: s1 module_setup_def Let_def new_manager_def Now_def new_wheel_def)
qed

text \<open>Ending the manager deletes exactly the registered agents: those that were unregistered and wait
  for the next step to be destroyed are never freed.\<close>

lemma exit_keeps_dying:
  assumes "session_reachable P H s" "s_manager s = Some w" "delete_manager w = Some w'"
  shows "w_agents w' a \<noteq> None \<longleftrightarrow> a \<in> set (dying (w_dying w))"
proof -
  have inv: "reg_inv w" using session_worlds [OF assms(1,2)] by (rule reachable_reg)
  have view: "w_agents v b = None \<longleftrightarrow> view b v = None" for v b by (simp add: view_def)
  have "view b w' = (if b \<in> set (map snd (w_agent_map w)) then None else view b w)" for b
    using delete_agents_reg [OF assms(3) [unfolded delete_manager_def]] by blast
  moreover have "b \<in> set (map snd (w_agent_map w)) \<longleftrightarrow> (\<exists>i obj. view b w = Some (i, obj, AgentRunning))" for b
  proof -
    have "(\<exists>i obj. view b w = Some (i, obj, AgentRunning)) \<longleftrightarrow> (\<exists>i. map_of (w_agent_map w) i = Some b)"
      using reg_invD(1) [OF inv] by blast
    also have "\<dots> \<longleftrightarrow> (\<exists>i. (i, b) \<in> set (w_agent_map w))"
      by (simp only: map_of_eq_Some_iff [OF reg_invD(7) [OF inv]])
    finally show ?thesis by force
  qed
  ultimately have eq: "w_agents w' a \<noteq> None \<longleftrightarrow> view a w \<noteq> None \<and> (\<nexists>i obj. view a w = Some (i, obj, AgentRunning))"
    by (auto simp: view)
  show ?thesis
  proof (cases "view a w")
    case (Some v)
    then obtain i obj st where "view a w = Some (i, obj, st)" by (cases v) auto
    then show ?thesis using eq reg_invD(3) [OF inv, of a] by (cases st) simp_all
  qed (use eq reg_invD(3) [OF inv, of a] in simp)
qed

text \<open>After importing events the type \<open>EventId\<close> knows each of them by name, when the names differ.\<close>

theorem event_ids_by_name:
  assumes "import_event parse_json parse_yaml read path s = Some (Some n, s')" "n \<noteq> 0"
    and "s_manager s' = Some w" "distinct (map info_name (event_info_list (w_events w)))"
  shows "map_of (s_event_ids s') name = Some i
    \<longleftrightarrow> (\<exists>e \<in> set (event_info_list (w_events w)). info_name e = name \<and> info_id e = i)"
proof -
  have "s_event_ids s' = event_ids (event_info_list (w_events w))"
    using assms(1-3) by (auto simp: import_event_def split: option.splits sum.splits)
  then show ?thesis by (simp only: event_ids_distinct [OF assms(4)])
qed

end
