(* ===== verification/Lua_Module.thy ===== *)
theory Lua_Module
  imports Lua_Chart Python_Session
begin

text \<open>
  The module of the Lua binding: its managers and the references each keeps in the registry
  (\<open>src/lua/lua_manager.cpp\<close>, \<open>lua_manager.h\<close>), \<open>setup\<close> and \<open>exit\<close>, and the functions that do not depend on
  how the binding runs charts (\<open>src/lua/export_global_funcs.cpp\<close>). A function takes its arguments as the
  list of values on the stack.
\<close>

section \<open>State\<close>

text \<open>The registry holds the functions and tables of the managers and the arguments of events.\<close>

datatype reg_entry = ErrorFunction | RegValue val | RegTable nat

text \<open>A manager keeps its world and the Lua part of its charts and agents. Several managers may live at
  once; the world of a manager that is not running a function has stale copies of the static members
  and of the state of the language, which are those of \<open>lua_process\<close>.\<close>

record 'e lua_manager =
  mgr_error :: int
  mgr_function :: int
  mgr_object :: int
  mgr_variable :: int
  mgr_lua :: lua_state
  mgr_world :: "'e world"

text \<open>\<open>lp_current\<close> is \<open>currentManager\<close>, \<open>lp_func_ref\<close> the field \<open>func_ref\<close> of the table \<open>asyncflow\<close>,
  \<open>lp_event_ids\<close> and \<open>lp_node_funcs\<close> its tables \<open>EventId\<close> and \<open>node_funcs\<close>. An address that was used for a
  manager is not used again.\<close>

record 'e lua_process =
  lp_registry :: "reg_entry ref_table"
  lp_func_ref :: val
  lp_next_table :: nat
  lp_managers :: "nat \<rightharpoonup> 'e lua_manager"
  lp_current :: "nat option"
  lp_next_manager :: nat
  lp_charts :: "string \<rightharpoonup> nat"
  lp_datas :: data_heap
  lp_events :: event_manager
  lp_event_ids :: "(string \<times> int) list"
  lp_node_funcs :: "string \<rightharpoonup> val"
  lp_env :: 'e

definition new_lua_process :: "'e \<Rightarrow> 'e lua_process" where
  "new_lua_process e = \<lparr>lp_registry = new_ref_table, lp_func_ref = VNone, lp_next_table = 0,
     lp_managers = (\<lambda>_. None), lp_current = None, lp_next_manager = 0, lp_charts = (\<lambda>_. None),
     lp_datas = (\<lambda>_. None), lp_events = EventManager, lp_event_ids = [], lp_node_funcs = (\<lambda>_. None), lp_env = e\<rparr>"

text \<open>What the code asks of the Lua library: the key a reference gets, the number a string stands for,
  the string of a number, the entries of an object that is a table, in the order of \<open>lua_next\<close>, and
  which objects are functions.\<close>

record 'e lua_lib =
  ll_pick :: picker
  ll_number :: "string \<Rightarrow> int option"
  ll_string :: "int \<Rightarrow> string"
  ll_table :: "nat \<Rightarrow> 'e \<Rightarrow> (val \<times> val) list option"
  ll_function :: "val \<Rightarrow> bool"

section \<open>Reading the stack\<close>

definition stack_at :: "val list \<Rightarrow> nat \<Rightarrow> val" where
  "stack_at args i = (if 0 < i \<and> i \<le> length args then args ! (i - 1) else VNone)"

fun lua_tonumber :: "'e lua_lib \<Rightarrow> val \<Rightarrow> int" where
  "lua_tonumber L (VInt i) = i"
| "lua_tonumber L (VStr s) = (case ll_number L s of None \<Rightarrow> 0 | Some i \<Rightarrow> i)"
| "lua_tonumber L _ = 0"

fun lua_isnumber :: "'e lua_lib \<Rightarrow> val \<Rightarrow> bool" where
  "lua_isnumber L (VInt i) = True"
| "lua_isnumber L (VStr s) = (ll_number L s \<noteq> None)"
| "lua_isnumber L _ = False"

fun lua_tostring :: "'e lua_lib \<Rightarrow> val \<Rightarrow> string option" where
  "lua_tostring L (VStr s) = Some s"
| "lua_tostring L (VInt i) = Some (ll_string L i)"
| "lua_tostring L _ = None"

text \<open>Game objects are tables or userdata; \<open>lua_topointer\<close> gives null for other values.\<close>

fun lua_topointer :: "val \<Rightarrow> nat option" where
  "lua_topointer (VObj a) = Some a"
| "lua_topointer _ = None"

definition lua_table_of :: "'e lua_lib \<Rightarrow> 'e \<Rightarrow> val \<Rightarrow> (val \<times> val) list option" where
  "lua_table_of L e v = (case lua_topointer v of None \<Rightarrow> None | Some a \<Rightarrow> ll_table L a e)"

text \<open>A field of a table, \<open>nil\<close> when it is absent.\<close>

definition lua_getfield :: "string \<Rightarrow> (val \<times> val) list \<Rightarrow> val" where
  "lua_getfield name t = (case map_of t (VStr name) of None \<Rightarrow> VNone | Some v \<Rightarrow> v)"

text \<open>A number of Lua is converted to \<open>int\<close> with an unchecked cast.\<close>

definition int_cast :: "int \<Rightarrow> int option" where
  "int_cast i = (if - (2 ^ 31) \<le> i \<and> i < 2 ^ 31 then Some i else None)"

definition lua_toint :: "'e lua_lib \<Rightarrow> val \<Rightarrow> int option" where
  "lua_toint L v = int_cast (lua_tonumber L v)"

text \<open>The results a function leaves: an error it raises, values, and objects of the module.\<close>

datatype lua_result =
    LuaError string
  | Results "val list"
  | AgentObject nat
  | ManagerObject nat
  | ChartObject nat
  | Closure "nptr option"

definition manager_null_msg :: string where
  "manager_null_msg = ''manager is null, any function shoud called after asyncflow.setup().''"

definition agr_err_msg :: string where
  "agr_err_msg = ''parse argument failed!''"

section \<open>Managers\<close>

text \<open>\<open>LuaManager::InitFuncRef\<close>: the table of functions is shared by all managers, through the number
  kept in \<open>func_ref\<close>.\<close>

definition InitFuncRef :: "picker \<Rightarrow> 'e lua_process \<Rightarrow> int \<times> 'e lua_process" where
  "InitFuncRef pick p =
     (case lp_func_ref p of
        VInt r \<Rightarrow> (r, p)
      | _ \<Rightarrow>
          (let (r, reg) = luaL_ref pick (RegTable (lp_next_table p)) (lp_registry p)
           in (r, p\<lparr>lp_registry := reg, lp_next_table := lp_next_table p + 1, lp_func_ref := VInt r\<rparr>)))"

definition new_table_ref :: "picker \<Rightarrow> 'e lua_process \<Rightarrow> int \<times> 'e lua_process" where
  "new_table_ref pick p =
     (let (r, reg) = luaL_ref pick (RegTable (lp_next_table p)) (lp_registry p)
      in (r, p\<lparr>lp_registry := reg, lp_next_table := lp_next_table p + 1\<rparr>))"

text \<open>The constructor and \<open>LuaManager::Init\<close>, which makes the manager the current one.\<close>

definition LuaManager_Init :: "picker \<Rightarrow> 'e lua_process \<Rightarrow> nat \<times> 'e lua_process" where
  "LuaManager_Init pick p =
     (let m = lp_next_manager p;
          (err, reg) = luaL_ref pick ErrorFunction (lp_registry p);
          (func, p) = InitFuncRef pick (p\<lparr>lp_registry := reg, lp_next_manager := m + 1, lp_current := Some m\<rparr>);
          (obj, p) = new_table_ref pick p;
          (var, p) = new_table_ref pick p
      in (m, p\<lparr>lp_managers := (lp_managers p)(m \<mapsto> \<lparr>mgr_error = err, mgr_function = func, mgr_object = obj,
           mgr_variable = var, mgr_lua = new_lua_state, mgr_world = new_manager (lp_env p)\<rparr>)\<rparr>))"

text \<open>The entries of the table given to \<open>setup\<close>; a number is true when it is not zero.\<close>

definition get_bool_from_config :: "'e lua_lib \<Rightarrow> string \<Rightarrow> (val \<times> val) list \<Rightarrow> bool option option" where
  "get_bool_from_config L key cfg =
     (let v = lua_getfield key cfg in
      if v = VNone then Some None
      else if lua_isnumber L v then map_option (\<lambda>i. Some (i \<noteq> 0)) (lua_toint L v)
      else Some (Some (lua_toboolean v)))"

definition lua_configure :: "'e lua_lib \<Rightarrow> (val \<times> val) list \<Rightarrow> 'e world \<Rightarrow> 'e world option" where
  "lua_configure L cfg w =
     do { b \<leftarrow> get_bool_from_config L ''defer_event'' cfg;
          let w = (case b of None \<Rightarrow> w | Some b \<Rightarrow> SetDeferMode b w);
          let v = lua_getfield ''default_timestep'' cfg;
          w \<leftarrow> (if lua_isnumber L v then do { i \<leftarrow> lua_toint L v; Some (SetDefaulTimeInterval i w) } else Some w);
          b \<leftarrow> get_bool_from_config L ''node_stop_when_error'' cfg;
          Some (case b of None \<Rightarrow> w | Some b \<Rightarrow> SetNodeStopWhenError b w) }"

definition put_manager :: "nat \<Rightarrow> 'e lua_manager \<Rightarrow> 'e lua_process \<Rightarrow> 'e lua_process" where
  "put_manager m mgr p = p\<lparr>lp_managers := (lp_managers p)(m \<mapsto> mgr)\<rparr>"

definition lua_setup :: "'e lua_lib \<Rightarrow> val list \<Rightarrow> 'e lua_process \<Rightarrow> (lua_result \<times> 'e lua_process) option" where
  "lua_setup L args p =
     (let (m, p) = LuaManager_Init (ll_pick L) p in
      do { mgr \<leftarrow> lp_managers p m;
           w \<leftarrow> (case lua_table_of L (lp_env p) (stack_at args 1) of
                   None \<Rightarrow> Some (mgr_world mgr)
                 | Some cfg \<Rightarrow> lua_configure L cfg (mgr_world mgr));
           Some (ManagerObject m, put_manager m (mgr\<lparr>mgr_world := w\<rparr>) p) })"

text \<open>Running a function on the world of a manager: the static members and the state of the language
  are the common ones.\<close>

definition on_world ::
  "nat \<Rightarrow> ('e world \<Rightarrow> ('r \<times> 'e world) option) \<Rightarrow> 'e lua_process \<Rightarrow> ('r \<times> 'e lua_process) option" where
  "on_world m f p =
     do { mgr \<leftarrow> lp_managers p m;
          (r, w) \<leftarrow> f ((mgr_world mgr)\<lparr>w_chart_dict := lp_charts p, w_datas := lp_datas p,
                         w_events := lp_events p, w_env := lp_env p\<rparr>);
          Some (r, p\<lparr>lp_managers := (lp_managers p)(m \<mapsto> mgr\<lparr>mgr_world := w\<rparr>), lp_charts := w_chart_dict w,
            lp_datas := w_datas w, lp_events := w_events w, lp_env := w_env w\<rparr>) }"

text \<open>The destructor gives back the four references, the one of the shared table of functions too;
  \<open>func_ref\<close> keeps the number.\<close>

definition delete_LuaManager :: "nat \<Rightarrow> 'e lua_process \<Rightarrow> 'e lua_process option" where
  "delete_LuaManager m p =
     do { mgr \<leftarrow> lp_managers p m;
          (_, p) \<leftarrow> on_world m (\<lambda>w. map_option (Pair ()) (delete_manager w)) p;
          Some (p\<lparr>lp_registry := luaL_unref (mgr_function mgr) (luaL_unref (mgr_variable mgr)
                    (luaL_unref (mgr_object mgr) (luaL_unref (mgr_error mgr) (lp_registry p)))),
                  lp_managers := (lp_managers p)(m := None)\<rparr>) }"

definition lua_exit :: "'e lua_process \<Rightarrow> (lua_result \<times> 'e lua_process) option" where
  "lua_exit p =
     (case lp_current p of
        None \<Rightarrow> Some (Results [], p)
      | Some m \<Rightarrow> do { p \<leftarrow> delete_LuaManager m p; Some (Results [], p\<lparr>lp_current := None\<rparr>) })"

text \<open>A method of a manager object makes its manager the current one and runs the function of the
  module (\<open>src/lua/export_manager_class.cpp\<close>). The object keeps the address of the manager when that is
  gone; a function then follows a dangling pointer.\<close>

definition manager_method ::
  "('e lua_process \<Rightarrow> (lua_result \<times> 'e lua_process) option) \<Rightarrow> nat \<Rightarrow> 'e lua_process
     \<Rightarrow> (lua_result \<times> 'e lua_process) option" where
  "manager_method f m p = f (p\<lparr>lp_current := Some m\<rparr>)"

definition lua_get_current_manager :: "'e lua_process \<Rightarrow> (lua_result \<times> 'e lua_process) option" where
  "lua_get_current_manager p =
     (case lp_current p of
        None \<Rightarrow> Some (LuaError manager_null_msg, p)
      | Some m \<Rightarrow> Some (ManagerObject m, p))"

definition lua_set_error_handler ::
  "'e lua_lib \<Rightarrow> val list \<Rightarrow> 'e lua_process \<Rightarrow> (lua_result \<times> 'e lua_process) option" where
  "lua_set_error_handler L args p =
     (case lp_current p of
        None \<Rightarrow> Some (LuaError manager_null_msg, p)
      | Some m \<Rightarrow>
          if \<not> ll_function L (stack_at args 1) then Some (LuaError agr_err_msg, p)
          else do { mgr \<leftarrow> lp_managers p m;
                    let reg = (if mgr_error mgr \<noteq> LUA_NOREF then luaL_unref (mgr_error mgr) (lp_registry p)
                               else lp_registry p);
                    let (r, reg) = luaL_ref (ll_pick L) (RegValue (stack_at args 1)) reg;
                    Some (Results [VBool True], put_manager m (mgr\<lparr>mgr_error := r\<rparr>) (p\<lparr>lp_registry := reg\<rparr>)) })"

end
