(* ===== verification/Js_Functions.thy ===== *)
theory Js_Functions
  imports Js_Chart Lua_Module
begin

text \<open>
  The functions the JavaScript binding exports (\<open>src/js/export_js.cpp\<close>, \<open>js_manager.cpp\<close>,
  \<open>js_manager.h\<close>). They take and return numbers; there is one manager. The operations of the core are those
  of the theories \<open>Node_Ops\<close> and \<open>Engine\<close>; what these do to the JavaScript part of charts and agents goes
  through virtual functions, constructors and destructors (theory \<open>Js_Chart\<close>). The functions that run
  nodes (\<open>start\<close>, \<open>start_chart\<close>, \<open>step\<close>, \<open>call_sub\<close>, \<open>ret\<close>) and \<open>debug_command\<close> are not modelled.
\<close>

section \<open>State\<close>

text \<open>\<open>jm_manager\<close> is the variable \<open>mgr\<close>, with the JavaScript part of its charts and agents; the other
  fields are the static members while there is no manager.\<close>

record ('e, 'm) js_module =
  jm_manager :: "('e world \<times> 'm js_state) option"
  jm_charts :: "string \<rightharpoonup> nat"
  jm_datas :: data_heap
  jm_events :: event_manager
  jm_env :: 'e

definition new_js_module :: "'e \<Rightarrow> ('e, 'm) js_module" where
  "new_js_module e = \<lparr>jm_manager = None, jm_charts = (\<lambda>_. None), jm_datas = (\<lambda>_. None), jm_events = EventManager,
     jm_env = e\<rparr>"

text \<open>The script names its objects by numbers of type \<open>int\<close>; an agent is found under the bits of the
  number.\<close>

definition js_obj :: "int \<Rightarrow> nat" where
  "js_obj r = nat (r mod 2 ^ 32)"

definition int_of_bool :: "bool \<Rightarrow> int" where
  "int_of_bool b = (if b then 1 else 0)"

text \<open>A function called without a manager returns 0.\<close>

definition js_with_manager ::
  "('e world \<times> 'm js_state \<Rightarrow> (int \<times> 'e world \<times> 'm js_state) option) \<Rightarrow> ('e, 'm) js_module
     \<Rightarrow> (int \<times> ('e, 'm) js_module) option" where
  "js_with_manager f p =
     (case jm_manager p of
        None \<Rightarrow> Some (0, p)
      | Some ws \<Rightarrow> do { (r, ws) \<leftarrow> f ws; Some (r, p\<lparr>jm_manager := Some ws\<rparr>) })"

section \<open>Setup and exit\<close>

definition js_setup :: "('e, 'm) js_module \<Rightarrow> int \<times> ('e, 'm) js_module" where
  "js_setup p =
     (case jm_manager p of
        None \<Rightarrow> (1, p\<lparr>jm_manager := Some ((new_manager (jm_env p))\<lparr>w_chart_dict := jm_charts p, w_datas := jm_datas p,
                    w_events := jm_events p\<rparr>, new_js_state)\<rparr>)
      | Some _ \<Rightarrow> (0, p))"

definition asyncflow_exit :: "('e, 'm) js_module \<Rightarrow> (int \<times> ('e, 'm) js_module) option" where
  "asyncflow_exit p =
     (case jm_manager p of
        None \<Rightarrow> Some (0, p)
      | Some (w, _) \<Rightarrow>
          do { w \<leftarrow> delete_manager w;
               Some (1, p\<lparr>jm_manager := None, jm_charts := w_chart_dict w, jm_datas := w_datas w,
                          jm_events := w_events w, jm_env := w_env w\<rparr>) })"

section \<open>Loading\<close>

text \<open>An exception that leaves the module ends the program.\<close>

definition js_import_charts ::
  "(string \<Rightarrow> nat + json) \<Rightarrow> nat list \<Rightarrow> string \<Rightarrow> ('e, 'm) js_module \<Rightarrow> (int \<times> ('e, 'm) js_module) option" where
  "js_import_charts parse_json addresses str = js_with_manager (\<lambda>(w, s).
     case ImportJson JsNodeFunc_GetFuncFromString parse_json addresses str (w_chart_dict w, w_datas w) of
       Some (Inr (k, dict, h)) \<Rightarrow> Some (int k, w\<lparr>w_chart_dict := dict, w_datas := h\<rparr>, s)
     | _ \<Rightarrow> None)"

definition js_import_event ::
  "(string \<Rightarrow> nat + json) \<Rightarrow> (string \<Rightarrow> yaml_root) \<Rightarrow> (string \<Rightarrow> string option) \<Rightarrow> string
     \<Rightarrow> ('e, 'm) js_module \<Rightarrow> (int \<times> ('e, 'm) js_module) option" where
  "js_import_event parse_json parse_yaml read path = js_with_manager (\<lambda>(w, s).
     case ImportEvent parse_json parse_yaml read path (w_events w) of
       Some (Inr (n, em)) \<Rightarrow> Some (n, w\<lparr>w_events := em\<rparr>, s)
     | _ \<Rightarrow> None)"

section \<open>Agents and charts\<close>

text \<open>An agent that is made in the world has its JavaScript part made by its constructor.\<close>

definition js_Register :: "int \<Rightarrow> 'e world \<times> 'm js_state \<Rightarrow> (nat \<times> 'e world \<times> 'm js_state) option" where
  "js_Register r = (\<lambda>(w, s).
     do { (a, w') \<leftarrow> Register (js_obj r) w;
          Some (a, w', if GetAgent (js_obj r) w = None then JsAgent a r s else s) })"

definition JsManager_RegisterGameObject ::
  "int \<Rightarrow> int \<Rightarrow> 'e world \<times> 'm js_state \<Rightarrow> (nat option \<times> 'e world \<times> 'm js_state) option" where
  "JsManager_RegisterGameObject r tick = (\<lambda>(w, s).
     (let tick = (if tick \<le> 0 then DEFAULT_AGENT_TICK else tick) in
      if GetAgent (js_obj r) w \<noteq> None then Some (None, w, s)
      else do { (a, w, s) \<leftarrow> js_Register r (w, s);
                w \<leftarrow> SetTickInterval tick a w;
                Some (Some a, w, s) }))"

definition js_register_obj :: "int \<Rightarrow> int \<Rightarrow> ('e, 'm) js_module \<Rightarrow> (int \<times> ('e, 'm) js_module) option" where
  "js_register_obj r tick = js_with_manager (\<lambda>ws.
     do { (found, ws) \<leftarrow> JsManager_RegisterGameObject r tick ws; Some (int_of_bool (found \<noteq> None), ws) })"

text \<open>The script is told to forget the object here, whether it was registered or not, and by the destructor
  of the agent.\<close>

definition js_deregister_obj :: "int \<Rightarrow> ('e, 'm) js_module \<Rightarrow> (int \<times> ('e, 'm) js_module) option" where
  "js_deregister_obj r = js_with_manager (\<lambda>(w, s).
     do { (b, w) \<leftarrow> Manager_UnregisterGameObject (GetAgent (js_obj r) w) w;
          Some (int_of_bool b, w, js_tell [js_clear_gameobj r] s) })"

text \<open>The JavaScript part of attaching: the chart is made and gets its agent. A chart that the object has
  already is destroyed at once, without ever getting an agent.\<close>

definition js_attached ::
  "'m js_texts \<Rightarrow> nat \<Rightarrow> string \<Rightarrow> nat option \<Rightarrow> 'e world \<Rightarrow> 'm js_state \<Rightarrow> 'm js_state option" where
  "js_attached T a name found w s =
     (case GetChartData name w of
        None \<Rightarrow> Some s
      | Some d \<Rightarrow>
          do { data \<leftarrow> w_datas w d;
               let c = w_next_chart w;
               let s = JsChart c data s;
               if found = None then delete_JsChart T c s else JsChart_SetAgent a c s })"

text \<open>\<open>attach\<close> returns the address of the chart.\<close>

definition js_attach ::
  "'m js_texts \<Rightarrow> int \<Rightarrow> string \<Rightarrow> ('e, 'm) js_module \<Rightarrow> (nat option \<times> ('e, 'm) js_module) option" where
  "js_attach T r name p =
     (case jm_manager p of
        None \<Rightarrow> Some (None, p)
      | Some (w, s) \<Rightarrow>
          (case GetAgent (js_obj r) w of
             None \<Rightarrow> Some (None, p)
           | Some a \<Rightarrow>
               do { (found, w') \<leftarrow> Manager_AttachChart a name w;
                    s \<leftarrow> js_attached T a name found w s;
                    Some (found, p\<lparr>jm_manager := Some (w', s)\<rparr>) }))"

text \<open>The number of an object that is not registered gives 0.\<close>

definition js_with_agent ::
  "int \<Rightarrow> (nat \<Rightarrow> 'e world \<Rightarrow> (int \<times> 'e world) option) \<Rightarrow> ('e, 'm) js_module \<Rightarrow> (int \<times> ('e, 'm) js_module) option" where
  "js_with_agent r f = js_with_manager (\<lambda>(w, s).
     (case GetAgent (js_obj r) w of
        None \<Rightarrow> Some (0, w, s)
      | Some a \<Rightarrow> do { (x, w) \<leftarrow> f a w; Some (x, w, s) }))"

definition js_remove_chart :: "int \<Rightarrow> string \<Rightarrow> ('e, 'm) js_module \<Rightarrow> (int \<times> ('e, 'm) js_module) option" where
  "js_remove_chart r name = js_with_agent r (\<lambda>a w.
     do { (b, w) \<leftarrow> RemoveChart name a w; Some (int_of_bool b, w) })"

definition js_stop :: "int \<Rightarrow> ('e, 'm) js_module \<Rightarrow> (int \<times> ('e, 'm) js_module) option" where
  "js_stop r = js_with_agent r (\<lambda>a w. do { w \<leftarrow> Agent_Stop a w; Some (1, w) })"

definition js_stop_chart :: "int \<Rightarrow> string \<Rightarrow> ('e, 'm) js_module \<Rightarrow> (int \<times> ('e, 'm) js_module) option" where
  "js_stop_chart r name = js_with_agent r (\<lambda>a w. do { (_, w) \<leftarrow> StopChart name a w; Some (1, w) })"

definition js_set_callback :: "nat \<Rightarrow> ('e, 'm) js_module \<Rightarrow> (int \<times> ('e, 'm) js_module) option" where
  "js_set_callback c p =
     do { (w, s) \<leftarrow> jm_manager p;
          s \<leftarrow> JsChart_SetCall c s;
          Some (1, p\<lparr>jm_manager := Some (w, s)\<rparr>) }"

section \<open>Events\<close>

text \<open>Raising an event registers its object. The arguments are the numbers of values.\<close>

definition JsManager_Event ::
  "'e knot \<Rightarrow> int \<Rightarrow> int \<Rightarrow> int list \<Rightarrow> 'e world \<times> 'm js_state \<Rightarrow> (bool \<times> 'e world \<times> 'm js_state) option" where
  "JsManager_Event K event_id r args ws =
     do { (a, w, s) \<leftarrow> js_Register r ws;
          (b, w) \<leftarrow> Manager_Event K event_id (Some a) (map VInt args) False False w;
          Some (b, w, s) }"

definition js_event ::
  "'e knot \<Rightarrow> int \<Rightarrow> int \<Rightarrow> int list \<Rightarrow> ('e, 'm) js_module \<Rightarrow> (int \<times> ('e, 'm) js_module) option" where
  "js_event K r event_id args = js_with_manager (\<lambda>ws.
     do { (b, ws) \<leftarrow> JsManager_Event K event_id r args ws; Some (int_of_bool b, ws) })"

definition js_wait_event :: "int \<Rightarrow> int \<Rightarrow> ('e, 'm) js_module \<Rightarrow> (int \<times> ('e, 'm) js_module) option" where
  "js_wait_event r event_id = js_with_manager (\<lambda>(w, s).
     if event_id < 1 then Some (0, w, s)
     else do { (agent, w, s) \<leftarrow> (case GetAgent (js_obj r) w of
                                   Some a \<Rightarrow> Some (Some a, w, s)
                                 | None \<Rightarrow> JsManager_RegisterGameObject r DEFAULT_AGENT_TICK (w, s));
               (b, w) \<leftarrow> Manager_WaitEvent agent event_id w;
               Some (int_of_bool b, w, s) })"

text \<open>\<open>GetEventPatam\<close> follows the pointer to the current event. A position past the arguments gives 0.\<close>

definition js_get_event_param :: "int \<Rightarrow> int \<Rightarrow> ('e, 'm) js_module \<Rightarrow> (int \<times> ('e, 'm) js_module) option" where
  "js_get_event_param event_id idx = js_with_manager (\<lambda>(w, s).
     do { ev \<leftarrow> w_event w;
          if idx \<ge> int (length (ev_args ev)) then Some (0, w, s)
          else if idx < 0 then None
          else (case ev_args ev ! nat idx of VInt x \<Rightarrow> Some (x, w, s) | _ \<Rightarrow> None) })"

section \<open>Inside a node function\<close>

text \<open>\<open>wait\<close> is given the product of the seconds and 1000.\<close>

definition js_wait :: "int \<Rightarrow> ('e, 'm) js_module \<Rightarrow> (int \<times> ('e, 'm) js_module) option" where
  "js_wait milliseconds = js_with_manager (\<lambda>(w, s).
     do { ms \<leftarrow> int_cast milliseconds; w \<leftarrow> Manager_Wait ms w; Some (1, w, s) })"

text \<open>\<open>wait_all\<close> returns 0 whatever the result.\<close>

definition js_wait_all :: "int list \<Rightarrow> ('e, 'm) js_module \<Rightarrow> (int \<times> ('e, 'm) js_module) option" where
  "js_wait_all ids = js_with_manager (\<lambda>(w, s).
     do { (_, w) \<leftarrow> Manager_WaitAll ids w; Some (0, w, s) })"

text \<open>The clock, a number of 64 bits, is returned as a number of 32 bits.\<close>

definition js_get_time :: "('e, 'm) js_module \<Rightarrow> (int \<times> ('e, 'm) js_module) option" where
  "js_get_time = js_with_manager (\<lambda>(w, s). Some ((int (Now w) + 2 ^ 31) mod 2 ^ 32 - 2 ^ 31, w, s))"

definition js_get_var :: "int \<Rightarrow> ('e, 'm) js_module \<Rightarrow> (int \<times> ('e, 'm) js_module) option" where
  "js_get_var idx = js_with_manager (\<lambda>(w, s).
     do { n \<leftarrow> GetCurrentNode w; r \<leftarrow> JsChart_GetVar idx (np_chart n) s; Some (r, w, s) })"

definition js_set_var :: "int \<Rightarrow> int \<Rightarrow> ('e, 'm) js_module \<Rightarrow> (int \<times> ('e, 'm) js_module) option" where
  "js_set_var idx r = js_with_manager (\<lambda>(w, s).
     do { n \<leftarrow> GetCurrentNode w; s \<leftarrow> JsChart_SetVar idx r (np_chart n) s; Some (1, w, s) })"

section \<open>The clock\<close>

lemma js_time_exact:
  assumes "jm_manager p = Some (w, s)" "Now w < 2 ^ 32"
  shows "js_get_time p = Some (if Now w < 2 ^ 31 then int (Now w) else int (Now w) - 2 ^ 32, p)"
proof -
  have p: "p\<lparr>jm_manager := Some (w, s)\<rparr> = p" using assms(1) by (cases p) simp
  have "(int (Now w) + 2 ^ 31) mod 2 ^ 32 = (if Now w < 2 ^ 31 then int (Now w) + 2 ^ 31 else int (Now w) - 2 ^ 31)"
  proof (cases "Now w < 2 ^ 31")
    case False
    with assms(2) have "(int (Now w) - 2 ^ 31) mod 2 ^ 32 = int (Now w) - 2 ^ 31"
      by (intro mod_pos_pos_trivial) auto
    with mod_add_self2 [of "int (Now w) - 2 ^ 31" "2 ^ 32"] False show ?thesis by (simp add: add.commute)
  qed simp
  with assms(1) p show ?thesis by (simp add: js_get_time_def js_with_manager_def)
qed

section \<open>Attaching a chart twice\<close>

lemma find_owner_found:
  "c \<in> set cs \<Longrightarrow> w_charts w c = Some ch \<Longrightarrow> owner_node ch = owner \<Longrightarrow> find_owner owner cs w \<noteq> Some None"
  by (induction cs) (auto split: Option.bind_splits)

text \<open>What the agent has after a chart was added.\<close>

lemma AddChart_added:
  assumes "AddChart c owner a w = Some (True, w')" "w_charts w c = Some ch" "owner_node ch = owner"
  obtains ag name cs ch' where "Chart_Name c w = Some name" "w_agents w' a = Some ag" "map_of (chart_dict ag) name = Some cs"
    "c \<in> set cs" "w_charts w' c = Some ch'" "owner_node ch' = owner" "w_object_map w' = w_object_map w"
    "w_chart_dict w' = w_chart_dict w" "w_datas w' = w_datas w"
proof -
  from assms(1) obtain name ag dict w1 cs w2 where name: "Chart_Name c w = Some name"
    and w1: "upd_agent a (\<lambda>ag. ag\<lparr>chart_dict := dict\<rparr>) w = Some w1"
    and w2: "set_agent (Some a) c w1 = Some w2"
    and w': "upd_agent a (\<lambda>ag. ag\<lparr>chart_dict := AList.update name (cs @ [c]) dict\<rparr>) w2 = Some w'"
    by (auto simp: AddChart_def Let_def elim!: bind_SomeE split: option.splits)
  from w' obtain ag2 where w'_eq: "w' = w2\<lparr>w_agents := (w_agents w2)(a \<mapsto> ag2\<lparr>chart_dict := AList.update name (cs @ [c]) dict\<rparr>)\<rparr>"
    by (auto simp: upd_agent_def elim!: bind_SomeE)
  from w1 w2 assms(2,3) show thesis
    by (intro that [OF name, of "ag2\<lparr>chart_dict := AList.update name (cs @ [c]) dict\<rparr>" "cs @ [c]" "ch\<lparr>chart_agent := Some a\<rparr>"])
      (auto simp: w'_eq upd_agent_def set_agent_def upd_chart_def update_conv' elim!: bind_SomeE)
qed

lemma AddChart_again:
  assumes "Chart_Name c w = Some name" "w_agents w a = Some ag" "map_of (chart_dict ag) name = Some cs"
    and "c' \<in> set cs" "w_charts w c' = Some ch" "owner_node ch = owner"
  shows "AddChart c owner a w \<noteq> Some (True, w')"
proof -
  have "find_owner owner cs (w\<lparr>w_agents := x\<rparr>) \<noteq> Some None" for x
    by (rule find_owner_found [OF assms(4)]) (use assms(5,6) in simp_all)
  with assms(1-3) show ?thesis
    by (auto simp: AddChart_def upd_agent_def Let_def elim!: bind_SomeE split: option.splits)
qed

lemma Chart_Name_data: "w_charts w c = Some ch \<Longrightarrow> w_datas w (chart_data_ptr ch) = Some d \<Longrightarrow> Chart_Name c w = Some (chart_name d)"
  by (simp add: Chart_Name_def chart_data_of_def)

text \<open>C30. Attaching a chart to an object that has it already destroys the new chart before it has an agent;
  its destructor asks the agent for the manager and follows a null pointer.\<close>

theorem js_attach_twice:
  assumes "js_attach T r name p = Some (Some c, p1)"
  shows "js_attach T r name p1 = None"
proof -
  from assms obtain w s a w1 s1 d data where w: "jm_manager p = Some (w, s)" and a: "GetAgent (js_obj r) w = Some a"
    and found: "Manager_AttachChart a name w = Some (Some c, w1)" and p1: "p1 = p\<lparr>jm_manager := Some (w1, s1)\<rparr>"
    and d: "GetChartData name w = Some d" "w_datas w d = Some data"
    by (auto simp: js_attach_def js_attached_def Manager_AttachChart_def elim!: bind_SomeE split: option.splits)
  define ch where "ch = \<lparr>owner_node = None, chart_data_ptr = d, chart_agent = None, chart_running = False,
      nodes = map new_node (node_list data), py_variables = None, py_call = VNone, py_init_table = None\<rparr>"
  define wa where "wa = w\<lparr>w_charts := (w_charts w)(w_next_chart w \<mapsto> ch), w_next_chart := w_next_chart w + 1\<rparr>"
  have create: "CreateChart d None w = Some (w_next_chart w, wa)"
    using d by (simp add: CreateChart_def wa_def ch_def Let_def)
  with found d have "AddChart (w_next_chart w) None a wa = Some (True, w1)"
    by (auto simp: Manager_AttachChart_def Agent_AttachChart_def elim!: bind_SomeE split: if_splits)
  then obtain ag nm cs ch' where *: "Chart_Name (w_next_chart w) wa = Some nm" "w_agents w1 a = Some ag"
    "map_of (chart_dict ag) nm = Some cs" "w_next_chart w \<in> set cs" "w_charts w1 (w_next_chart w) = Some ch'"
    "owner_node ch' = None" "w_object_map w1 = w_object_map w" "w_chart_dict w1 = w_chart_dict w" "w_datas w1 = w_datas w"
    by (rule AddChart_added [of _ _ _ _ _ ch]) (simp_all add: wa_def ch_def)
  have nm: "nm = chart_name data" using *(1) d(2) by (simp add: Chart_Name_data wa_def ch_def)
  define wb where "wb = w1\<lparr>w_charts := (w_charts w1)(w_next_chart w1 \<mapsto> ch), w_next_chart := w_next_chart w1 + 1\<rparr>"
  have d1: "GetChartData name w1 = Some d" "w_datas w1 d = Some data" "GetAgent (js_obj r) w1 = Some a"
    using d a * by (simp_all add: GetChartData_def GetAgent_def)
  have create1: "CreateChart d None w1 = Some (w_next_chart w1, wb)"
    using d1 by (simp add: CreateChart_def wb_def ch_def Let_def)
  obtain ch2 where "w_charts wb (w_next_chart w) = Some ch2" "owner_node ch2 = None"
    using *(5,6) by (cases "w_next_chart w = w_next_chart w1") (auto simp: wb_def ch_def)
  then have again: "AddChart (w_next_chart w1) None a wb \<noteq> Some (True, w')" for w'
    using *(2-4) d1(2) by (intro AddChart_again) (simp_all add: wb_def ch_def nm Chart_Name_data)
  have refused: "fst x = None" if "Manager_AttachChart a name w1 = Some x" for x
    using that again [THEN notE] by (auto simp: Manager_AttachChart_def Agent_AttachChart_def d1 create1 elim!: bind_SomeE split: if_splits)
  have undefined: "js_attached T a name None w1 s1 = None"
    by (simp add: js_attached_def d1 delete_JsChart_def JsChart_ClearVariables_def JsChart_def js_put_chart_def js_tell_def)
  show ?thesis
  proof (cases "Manager_AttachChart a name w1")
    case None
    then show ?thesis by (simp add: p1 js_attach_def d1)
  next
    case (Some x)
    with refused [OF Some] undefined show ?thesis by (cases x) (simp add: p1 js_attach_def d1)
  qed
qed

end
