(* ===== verification/Lua_Functions.thy ===== *)
theory Lua_Functions
  imports Lua_Module
begin

text \<open>
  The functions of the Lua module on the current manager (\<open>src/lua/export_global_funcs.cpp\<close>,
  \<open>lua_manager.cpp\<close>, \<open>lua_manager.h\<close>). The operations of the core are those of the theories \<open>Node_Ops\<close>
  and \<open>Engine\<close>; what they do to the Lua part of charts and agents goes through virtual functions,
  constructors and destructors (theory \<open>Lua_Chart\<close>).
\<close>

section \<open>The current manager\<close>

text \<open>Without a manager a function raises an error, or returns \<open>r\<close>.\<close>

definition checked ::
  "(nat \<Rightarrow> 'e lua_process \<Rightarrow> (lua_result \<times> 'e lua_process) option) \<Rightarrow> 'e lua_process
     \<Rightarrow> (lua_result \<times> 'e lua_process) option" where
  "checked f p = (case lp_current p of None \<Rightarrow> Some (LuaError manager_null_msg, p) | Some m \<Rightarrow> f m p)"

definition unless_null ::
  "lua_result \<Rightarrow> (nat \<Rightarrow> 'e lua_process \<Rightarrow> (lua_result \<times> 'e lua_process) option) \<Rightarrow> 'e lua_process
     \<Rightarrow> (lua_result \<times> 'e lua_process) option" where
  "unless_null r f p = (case lp_current p of None \<Rightarrow> Some (r, p) | Some m \<Rightarrow> f m p)"

definition ret_bool :: "(bool \<times> 'e world) option \<Rightarrow> (lua_result \<times> 'e world) option" where
  "ret_bool x = map_option (\<lambda>(b, w). (Results [VBool b], w)) x"

definition ret_nothing :: "'e world option \<Rightarrow> (lua_result \<times> 'e world) option" where
  "ret_nothing x = map_option (Pair (Results [])) x"

section \<open>Agents\<close>

definition LuaManager_RegisterGameObject :: "nat \<Rightarrow> int \<Rightarrow> 'e world \<Rightarrow> (nat option \<times> 'e world) option" where
  "LuaManager_RegisterGameObject obj tick w =
     (let tick = (if tick \<le> 0 then DEFAULT_AGENT_TICK else tick) in
      if GetAgent obj w \<noteq> None then Some (None, w)
      else do { (a, w) \<leftarrow> Register obj w; w \<leftarrow> SetTickInterval tick a w; Some (Some a, w) })"

text \<open>\<open>AUTO_REGISTER\<close> is always true.\<close>

definition TryGetAgent :: "nat \<Rightarrow> 'e world \<Rightarrow> (nat \<times> 'e world) option" where
  "TryGetAgent obj w =
     (case GetAgent obj w of
        Some a \<Rightarrow> Some (a, w)
      | None \<Rightarrow> do { (a, w) \<leftarrow> Register obj w; w \<leftarrow> SetTickInterval DEFAULT_AGENT_TICK a w; Some (a, w) })"

text \<open>The field \<open>tick\<close> is read from the value on top of the stack. Reading a field of a value that is no
  table is an error of Lua, which is not modelled.\<close>

definition lua_register ::
  "'e lua_lib \<Rightarrow> val list \<Rightarrow> 'e lua_process \<Rightarrow> (lua_result \<times> 'e lua_process) option" where
  "lua_register L args = checked (\<lambda>m p.
     (case lua_topointer (stack_at args 1) of
        None \<Rightarrow> Some (LuaError ''1st arg for asyncflow.register should be a userdata or table'', p)
      | Some obj \<Rightarrow>
          do { tick \<leftarrow> (case lua_table_of L (lp_env p) (stack_at args 2) of
                          None \<Rightarrow> Some DEFAULT_AGENT_TICK
                        | Some _ \<Rightarrow> do { t \<leftarrow> lua_table_of L (lp_env p) (last args);
                                        lua_toint L (lua_getfield ''tick'' t) });
               on_world m (\<lambda>w. do { (r, w) \<leftarrow> LuaManager_RegisterGameObject obj tick w;
                                    Some (case r of None \<Rightarrow> Results [VNone] | Some a \<Rightarrow> AgentObject a, w) }) p }))"

definition lua_deregister :: "val list \<Rightarrow> 'e lua_process \<Rightarrow> (lua_result \<times> 'e lua_process) option" where
  "lua_deregister args = checked (\<lambda>m p.
     (case lua_topointer (stack_at args 1) of
        None \<Rightarrow> Some (LuaError ''1st arg for asyncflow.deregister should be a userdata or table'', p)
      | Some obj \<Rightarrow> on_world m (\<lambda>w. ret_bool (Manager_UnregisterGameObject (GetAgent obj w) w)) p))"

definition lua_remove ::
  "'e lua_lib \<Rightarrow> val list \<Rightarrow> 'e lua_process \<Rightarrow> (lua_result \<times> 'e lua_process) option" where
  "lua_remove L args = checked (\<lambda>m p.
     (case lua_topointer (stack_at args 1) of
        None \<Rightarrow> Some (LuaError ''1st arg for asyncflow.remove should be a userdata or table'', p)
      | Some obj \<Rightarrow>
          (case lua_tostring L (stack_at args 2) of
             None \<Rightarrow> Some (LuaError agr_err_msg, p)
           | Some name \<Rightarrow>
               on_world m (\<lambda>w. case GetAgent obj w of
                                 None \<Rightarrow> Some (Results [VBool False], w)
                               | Some a \<Rightarrow> ret_bool (RemoveChart name a w)) p)))"

text \<open>\<open>stop\<close> returns false when it stops all charts of the object and true when it stops those of a
  table.\<close>

definition lua_stop ::
  "'e lua_lib \<Rightarrow> val list \<Rightarrow> 'e lua_process \<Rightarrow> (lua_result \<times> 'e lua_process) option" where
  "lua_stop L args = checked (\<lambda>m p.
     (case lua_topointer (stack_at args 1) of
        None \<Rightarrow> Some (LuaError ''1st arg for asyncflow.stop should be a userdata or table'', p)
      | Some obj \<Rightarrow>
          (let names = lua_table_of L (lp_env p) (stack_at args 2) in
           if length args > 1 \<and> names = None then Some (LuaError agr_err_msg, p)
           else on_world m (\<lambda>w. case GetAgent obj w of
                  None \<Rightarrow> Some (Results [VBool False], w)
                | Some a \<Rightarrow>
                    if length args = 1
                    then do { w \<leftarrow> Agent_Stop a w; Some (Results [VBool False], w) }
                    else do { t \<leftarrow> names;
                              w \<leftarrow> foldM (\<lambda>(_, v) w. case lua_tostring L v of
                                             None \<Rightarrow> Some w
                                           | Some name \<Rightarrow> map_option snd (StopChart name a w)) t w;
                              Some (Results [VBool True], w) }) p)))"

section \<open>Events\<close>

text \<open>The arguments of an event are moved to the registry, the last one first.\<close>

definition ref_value :: "picker \<Rightarrow> val \<Rightarrow> reg_entry ref_table \<Rightarrow> int \<times> reg_entry ref_table" where
  "ref_value pick v reg = (if v = VNone then (LUA_REFNIL, reg) else luaL_ref pick (RegValue v) reg)"

primrec ref_args :: "picker \<Rightarrow> val list \<Rightarrow> reg_entry ref_table \<Rightarrow> int list \<times> reg_entry ref_table" where
  "ref_args pick [] reg = ([], reg)"
| "ref_args pick (v # vs) reg =
     (let (rs, reg) = ref_args pick vs reg; (r, reg) = ref_value pick v reg in (r # rs, reg))"

definition lua_event ::
  "'e lua_lib \<Rightarrow> 'e knot \<Rightarrow> val list \<Rightarrow> 'e lua_process \<Rightarrow> (lua_result \<times> 'e lua_process) option" where
  "lua_event L K args = checked (\<lambda>m p.
     if length args < 2 then Some (LuaError agr_err_msg, p)
     else case lua_topointer (stack_at args 1) of
            None \<Rightarrow> Some (Results [VBool False], p)
          | Some obj \<Rightarrow>
              do { event_id \<leftarrow> lua_toint L (stack_at args 2);
                   if event_id = 0 then Some (Results [VBool False], p)
                   else (let (rs, reg) = ref_args (ll_pick L) (drop 2 args) (lp_registry p)
                         in on_world m (\<lambda>w. do { (a, w) \<leftarrow> TryGetAgent obj w;
                              ret_bool (Manager_Event K event_id (Some a) (map VInt rs) False False w) })
                            (p\<lparr>lp_registry := reg\<rparr>)) })"

definition lua_wait_event ::
  "'e lua_lib \<Rightarrow> val list \<Rightarrow> 'e lua_process \<Rightarrow> (lua_result \<times> 'e lua_process) option" where
  "lua_wait_event L args = unless_null (Results [VBool False]) (\<lambda>m p.
     do { event_id \<leftarrow> lua_toint L (stack_at args 2);
          if event_id < 1 then Some (Results [VBool False], p)
          else case lua_topointer (stack_at args 1) of
                 None \<Rightarrow> Some (Results [VBool False], p)
               | Some obj \<Rightarrow>
                   on_world m (\<lambda>w. do { (a, w) \<leftarrow> TryGetAgent obj w;
                                        ret_bool (Manager_WaitEvent (Some a) event_id w) }) p })"

text \<open>The arguments of an event of Lua are references. A position past the last one gives the reference
  \<open>LUA_NOREF\<close>, under which the registry has nothing.\<close>

definition lua_get_event_param ::
  "'e lua_lib \<Rightarrow> val list \<Rightarrow> 'e lua_process \<Rightarrow> (lua_result \<times> 'e lua_process) option" where
  "lua_get_event_param L args = unless_null (Results [VNone]) (\<lambda>m p.
     do { _ \<leftarrow> lua_toint L (stack_at args 1);
          idx \<leftarrow> lua_toint L (stack_at args 2);
          mgr \<leftarrow> lp_managers p m;
          case w_event (mgr_world mgr) of
            None \<Rightarrow> Some (Results [VNone], p)
          | Some ev \<Rightarrow>
              if idx \<ge> int (length (ev_args ev)) then Some (Results [VNone], p)
              else if idx < 0 then None
              else (case ev_args ev ! nat idx of
                      VInt r \<Rightarrow> Some (Results [case ref_get r (lp_registry p) of
                                                Some (RegValue v) \<Rightarrow> v | _ \<Rightarrow> VNone], p)
                    | _ \<Rightarrow> None) })"

section \<open>Inside a node function\<close>

definition lua_wait ::
  "'e lua_lib \<Rightarrow> val list \<Rightarrow> 'e lua_process \<Rightarrow> (lua_result \<times> 'e lua_process) option" where
  "lua_wait L args = unless_null (Results []) (\<lambda>m p.
     do { tm \<leftarrow> int_cast (1000 * lua_tonumber L (stack_at args 1));
          on_world m (\<lambda>w. ret_nothing (Manager_Wait tm w)) p })"

definition lua_wait_all ::
  "'e lua_lib \<Rightarrow> val list \<Rightarrow> 'e lua_process \<Rightarrow> (lua_result \<times> 'e lua_process) option" where
  "lua_wait_all L args = unless_null (Results []) (\<lambda>m p.
     do { ids \<leftarrow> mapM (lua_toint L) args;
          on_world m (\<lambda>w. ret_nothing (map_option snd (Manager_WaitAll ids w))) p })"

text \<open>\<open>stop_node\<close> makes a vector with a place for each argument and passes it on as it is: every
  identifier in it is zero.\<close>

definition lua_stop_node :: "val list \<Rightarrow> 'e lua_process \<Rightarrow> (lua_result \<times> 'e lua_process) option" where
  "lua_stop_node args p =
     (case lp_current p of
        None \<Rightarrow> Some (Results [VBool False], p)
      | Some m \<Rightarrow>
          if args = [] then Some (Results [VBool False], p)
          else on_world m (\<lambda>w. do { (_, w) \<leftarrow> Manager_StopNode (replicate (length args) 0) w;
                                    Some (Results [VBool True], w) }) p)"

definition lua_stop_flow ::
  "'e lua_lib \<Rightarrow> val list \<Rightarrow> 'e lua_process \<Rightarrow> (lua_result \<times> 'e lua_process) option" where
  "lua_stop_flow L args p =
     (case lp_current p of
        None \<Rightarrow> Some (Results [VBool False], p)
      | Some m \<Rightarrow>
          if args = [] then Some (Results [VBool False], p)
          else do { ids \<leftarrow> mapM (lua_toint L) args;
                    on_world m (\<lambda>w. do { (_, w) \<leftarrow> Manager_StopFlow ids w; Some (Results [VBool True], w) }) p })"

definition lua_time :: "'e lua_process \<Rightarrow> (lua_result \<times> 'e lua_process) option" where
  "lua_time = unless_null (Results [VNone]) (\<lambda>m.
     on_world m (\<lambda>w. Some (Results [VInt (int (Now w))], w)))"

text \<open>\<open>callback\<close> suspends the current node and returns a closure that keeps the address of the node.\<close>

definition lua_callback :: "'e lua_process \<Rightarrow> (lua_result \<times> 'e lua_process) option" where
  "lua_callback = unless_null (Results [VNone]) (\<lambda>m.
     on_world m (\<lambda>w. do { (n, w) \<leftarrow> CreateAsyncContext w; Some (Closure n, w) }))"

subsection \<open>Variables\<close>

text \<open>The identifier of a variable given by name or by number. The chart of the current node is the
  owner of the variables.\<close>

definition lua_var_id :: "'e lua_lib \<Rightarrow> val \<Rightarrow> 'e world \<Rightarrow> int option" where
  "lua_var_id L v w =
     (case v of
        VStr name \<Rightarrow>
          do { n \<leftarrow> GetCurrentNode w; d \<leftarrow> chart_data_of (np_chart n) w; Some (GetVarIndex name d) }
      | _ \<Rightarrow> lua_toint L v)"

definition lua_get_var ::
  "'e lua_lib \<Rightarrow> val list \<Rightarrow> 'e lua_process \<Rightarrow> (lua_result \<times> 'e lua_process) option" where
  "lua_get_var L args = unless_null (Results []) (\<lambda>m p.
     do { mgr \<leftarrow> lp_managers p m;
          let w = (mgr_world mgr)\<lparr>w_datas := lp_datas p\<rparr>;
          i \<leftarrow> lua_var_id L (stack_at args 1) w;
          n \<leftarrow> GetCurrentNode w;
          v \<leftarrow> LuaChart_GetVar i (np_chart n) (mgr_lua mgr);
          Some (Results [v], p) })"

text \<open>The key is removed from the stack; the value is then at its bottom. Without a value the bottom is
  what \<open>LuaChart::SetVar\<close> pushes there, the table of all variables, which is not modelled.\<close>

definition lua_set_var ::
  "'e lua_lib \<Rightarrow> val list \<Rightarrow> 'e lua_process \<Rightarrow> (lua_result \<times> 'e lua_process) option" where
  "lua_set_var L args = unless_null (Results []) (\<lambda>m p.
     do { mgr \<leftarrow> lp_managers p m;
          let w = (mgr_world mgr)\<lparr>w_datas := lp_datas p\<rparr>;
          i \<leftarrow> lua_var_id L (stack_at args 1) w;
          n \<leftarrow> GetCurrentNode w;
          v \<leftarrow> (if length args < 2 then None else Some (stack_at args 2));
          s \<leftarrow> LuaChart_SetVar v i (np_chart n) (mgr_lua mgr);
          Some (Results [VBool (case v of VInt x \<Rightarrow> x \<noteq> 0 | _ \<Rightarrow> lua_toboolean v)],
                put_manager m (mgr\<lparr>mgr_lua := s\<rparr>) p) })"

section \<open>Loading\<close>

text \<open>\<open>LuaNodeFunc::GetFuncFromString\<close>: a node with code always gets a function.\<close>

definition GetFuncFromString :: "(string \<rightharpoonup> val) \<Rightarrow> creator" where
  "GetFuncFromString node_funcs code name =
     (if code = [] then if node_funcs name = None then None else Some (Script code name)
      else Some (Script code name))"

definition lua_set_node_func :: "string \<Rightarrow> val \<Rightarrow> 'e lua_process \<Rightarrow> 'e lua_process" where
  "lua_set_node_func name f p =
     p\<lparr>lp_node_funcs := (lp_node_funcs p)(name := (if f = VNone then None else Some f))\<rparr>"

definition lua_import_charts ::
  "'e lua_lib \<Rightarrow> (string \<Rightarrow> nat + json) \<Rightarrow> (string \<Rightarrow> yaml_root) \<Rightarrow> (string \<Rightarrow> string option) \<Rightarrow> nat list
     \<Rightarrow> val list \<Rightarrow> 'e lua_process \<Rightarrow> (lua_result \<times> 'e lua_process) option" where
  "lua_import_charts L parse_json parse_yaml read addresses args = checked (\<lambda>m p.
     (case lua_tostring L (stack_at args 1) of
        None \<Rightarrow> Some (LuaError agr_err_msg, p)
      | Some str \<Rightarrow>
          on_world m (\<lambda>w.
            case ImportFile (GetFuncFromString (lp_node_funcs p)) parse_json parse_yaml read addresses str
                   (w_chart_dict w, w_datas w) of
              Some (Inr (k, dict, h)) \<Rightarrow> Some (Results [VInt (int k)], w\<lparr>w_chart_dict := dict, w_datas := h\<rparr>)
            | _ \<Rightarrow> None) p))"

text \<open>The second argument counts only when there are exactly two.\<close>

definition lua_patch ::
  "'e lua_lib \<Rightarrow> (string \<Rightarrow> yaml_root) \<Rightarrow> nat list \<Rightarrow> val list \<Rightarrow> 'e lua_process
     \<Rightarrow> (lua_result \<times> 'e lua_process) option" where
  "lua_patch L parse_yaml addresses args = checked (\<lambda>m p.
     (case lua_tostring L (stack_at args 1) of
        None \<Rightarrow> Some (LuaError agr_err_msg, p)
      | Some str \<Rightarrow>
          on_world m (\<lambda>w.
            case Manager_PatchFromYaml (GetFuncFromString (lp_node_funcs p)) parse_yaml
                   (length args = 2 \<and> lua_toboolean (stack_at args 2)) addresses str (w_chart_dict w, w_datas w) of
              Some (Inr (k, dict, h)) \<Rightarrow> Some (Results [VInt (int k)], w\<lparr>w_chart_dict := dict, w_datas := h\<rparr>)
            | _ \<Rightarrow> None) p))"

text \<open>The events found are added to the table \<open>EventId\<close>, which keeps those of earlier files.\<close>

definition lua_import_event ::
  "'e lua_lib \<Rightarrow> (string \<Rightarrow> nat + json) \<Rightarrow> (string \<Rightarrow> yaml_root) \<Rightarrow> (string \<Rightarrow> string option) \<Rightarrow> val list
     \<Rightarrow> 'e lua_process \<Rightarrow> (lua_result \<times> 'e lua_process) option" where
  "lua_import_event L parse_json parse_yaml read args = checked (\<lambda>m p.
     (case lua_tostring L (stack_at args 1) of
        None \<Rightarrow> Some (LuaError agr_err_msg, p)
      | Some path \<Rightarrow>
          (case ImportEvent parse_json parse_yaml read path (lp_events p) of
             Some (Inr (n, em)) \<Rightarrow>
               Some (Results [VInt n], p\<lparr>lp_events := em, lp_event_ids :=
                 (if n \<noteq> 0 then foldl (\<lambda>d e. AList.update (info_name e) (info_id e) d) (lp_event_ids p) (event_info_list em)
                  else lp_event_ids p)\<rparr>)
           | _ \<Rightarrow> None)))"

end
