(* ===== verification/Control_Nodes.thy ===== *)
theory Control_Nodes
  imports Node_Ops Stopping
begin

text \<open>
  The control nodes. \<open>WaitAll\<close> is a barrier: its \<open>NodeWaitAll\<close> record implements the set of the
  predecessors that have arrived. \<open>StopFlow\<close> collects the nodes reachable from its arguments.
\<close>

section \<open>WaitAll\<close>

text \<open>The abstract barrier for the set \<open>K\<close> of awaited nodes.\<close>

definition barrier :: "int set \<Rightarrow> int \<Rightarrow> int set \<Rightarrow> bool \<times> int set" where
  "barrier K i arrived =
     (if i \<notin> K then (False, arrived)
      else if insert i arrived = K then (True, {})
      else (False, insert i arrived))"

definition keys :: "(int \<times> bool) list \<Rightarrow> int set" where
  "keys ids = fst ` set ids"

definition arrived :: "(int \<times> bool) list \<Rightarrow> int set" where
  "arrived ids = {i. (i, True) \<in> set ids}"

lemma keys_simps [simp]: "keys [] = {}" "keys ((j, b) # ids) = insert j (keys ids)"
  by (simp_all add: keys_def)

lemma arrived_simps [simp]:
  "arrived [] = {}" "arrived ((j, b) # ids) = (if b then insert j (arrived ids) else arrived ids)"
  by (auto simp: arrived_def)

lemma arrived_keys: "arrived ids \<subseteq> keys ids"
  by (induction ids) (auto split: if_splits)

abbreviation mark :: "int \<Rightarrow> (int \<times> bool) list \<Rightarrow> (int \<times> bool) list" where
  "mark i ids \<equiv> map (\<lambda>(j, b). (j, if j = i then True else b)) ids"

lemma mark_arrived: "arrived (mark i ids) = arrived ids \<union> ({i} \<inter> keys ids)"
  by (induction ids) (auto split: if_splits)

lemma mark_keys: "map fst (mark i ids) = map fst ids" "keys (mark i ids) = keys ids"
  by (induction ids) auto

lemma all_arrived: "distinct (map fst ids) \<Longrightarrow> list_all snd ids \<longleftrightarrow> arrived ids = keys ids"
proof (induction ids)
  case (Cons p ids)
  obtain j b where p: "p = (j, b)" by fastforce
  with Cons.prems have "j \<notin> keys ids" by (simp add: keys_def)
  with Cons p arrived_keys [of ids] show ?case by (cases b) auto
qed simp

lemma reset_arrived: "arrived (reset_ids ids) = {}" "map fst (reset_ids ids) = map fst ids"
  by (induction ids) (auto simp: reset_ids_def)

lemma WaitAll_Run_refines:
  assumes "distinct (map fst ids)" "WaitAll_Run i ids = (r, ids')"
  shows "barrier (keys ids) i (arrived ids) = (r, arrived ids') \<and> map fst ids' = map fst ids"
proof -
  have "distinct (map fst (mark i ids))" using assms(1) by (simp only: mark_keys)
  note all = all_arrived [OF this]
  show ?thesis
  proof (cases "i \<in> keys ids")
    case True
    then have in_fst: "i \<in> set (map fst ids)" by (simp add: keys_def)
    from True have a: "arrived (mark i ids) = insert i (arrived ids)" by (simp add: mark_arrived)
    have "WaitAll_Run i ids =
        (if insert i (arrived ids) = keys ids then (True, reset_ids (mark i ids)) else (False, mark i ids))"
      by (simp only: WaitAll_Run_def in_fst if_True Let_def all a mark_keys)
    then have "(r, ids') = (if insert i (arrived ids) = keys ids then (True, reset_ids (mark i ids))
        else (False, mark i ids))"
      using assms(2) by (simp only:)
    moreover have "arrived (reset_ids (mark i ids)) = {}" "map fst (reset_ids (mark i ids)) = map fst ids"
      by (simp_all only: reset_arrived mark_keys)
    ultimately show ?thesis using True a mark_keys(1) [of i ids]
      by (cases "insert i (arrived ids) = keys ids") (simp_all only: barrier_def if_True if_False prod.inject
          HOL.simp_thms)
  next
    case False
    then have "i \<notin> set (map fst ids)" by (simp add: keys_def)
    with assms(2) False show ?thesis by (simp add: WaitAll_Run_def barrier_def)
  qed
qed

text \<open>Repeated runs, from a fresh record.\<close>

primrec WaitAll_runs :: "int list \<Rightarrow> (int \<times> bool) list \<Rightarrow> bool list \<times> (int \<times> bool) list" where
  "WaitAll_runs [] ids = ([], ids)"
| "WaitAll_runs (i # is) ids =
     (let (r, ids) = WaitAll_Run i ids; (rs, ids) = WaitAll_runs is ids in (r # rs, ids))"

lemma WaitAll_Init_keys: "distinct (map fst (WaitAll_Init args)) \<and> keys (WaitAll_Init args) = set args
    \<and> arrived (WaitAll_Init args) = {}"
proof -
  let ?f = "\<lambda>i ids. if i \<in> set (map fst ids) then ids else ids @ [(i :: int, False)]"
  have "distinct (map fst (fold ?f args ids)) \<and> keys (fold ?f args ids) = keys ids \<union> set args
      \<and> arrived (fold ?f args ids) = arrived ids"
    if "distinct (map fst ids)" for ids
    using that
  proof (induction args arbitrary: ids)
    case (Cons a args)
    have "distinct (map fst (?f a ids)) \<and> keys (?f a ids) = insert a (keys ids)
        \<and> arrived (?f a ids) = arrived ids"
      using Cons.prems by (auto simp: keys_def arrived_def)
    with Cons.IH [of "?f a ids"] show ?case by simp
  qed simp
  from this [of "[]"] show ?thesis by (simp add: WaitAll_Init_def keys_def arrived_def)
qed

lemma WaitAll_closed:
  assumes "distinct (map fst ids)" "\<not> keys ids \<subseteq> arrived ids \<union> set xs"
    "WaitAll_runs xs ids = (rs, ids')"
  shows "rs = replicate (length xs) False \<and> arrived ids' = arrived ids \<union> (set xs \<inter> keys ids)
    \<and> map fst ids' = map fst ids"
  using assms
proof (induction xs arbitrary: ids rs ids')
  case (Cons i xs)
  obtain r ids1 where run: "WaitAll_Run i ids = (r, ids1)" by fastforce
  from WaitAll_Run_refines [OF Cons.prems(1) run] have ref: "barrier (keys ids) i (arrived ids) = (r, arrived ids1)"
    and fst1: "map fst ids1 = map fst ids" by auto
  then have k1: "keys ids1 = keys ids" by (metis keys_def set_map)
  from ref Cons.prems(2) have r: "\<not> r" "arrived ids1 = arrived ids \<union> ({i} \<inter> keys ids)"
    by (auto simp: barrier_def split: if_splits)
  obtain rs1 ids2 where runs: "WaitAll_runs xs ids1 = (rs1, ids2)" by fastforce
  have "rs1 = replicate (length xs) False \<and> arrived ids2 = arrived ids1 \<union> (set xs \<inter> keys ids1)
      \<and> map fst ids2 = map fst ids1"
    using Cons.prems r fst1 k1 by (intro Cons.IH [OF _ _ runs]) (simp_all, blast)
  with Cons.prems(3) run runs r fst1 k1 show ?case by auto
qed simp

lemma WaitAll_runs_append:
  "WaitAll_runs (xs @ ys) ids =
     (let (rs, ids1) = WaitAll_runs xs ids; (rs', ids2) = WaitAll_runs ys ids1 in (rs @ rs', ids2))"
  by (induction xs arbitrary: ids) (simp_all add: case_prod_unfold Let_def)

section \<open>StopFlow\<close>

definition edges :: "(nat \<Rightarrow> nat list option) \<Rightarrow> (nat \<times> nat) set" where
  "edges succ = {(x, y). \<exists>cs. succ x = Some cs \<and> y \<in> set cs}"

text \<open>When it returns, the search has added to the visited set exactly what is reachable from the
  queue; the visited set it starts with is closed up to the queue.\<close>

definition closed_upto :: "(nat \<Rightarrow> nat list option) \<Rightarrow> nat list \<Rightarrow> nat set \<Rightarrow> bool" where
  "closed_upto succ q V \<longleftrightarrow> (\<forall>x \<in> V. \<forall>y. (x, y) \<in> edges succ \<longrightarrow> y \<in> V \<union> set q)"

lemma closed_reach:
  assumes "closed_upto succ [] V" "x \<in> V" "(x, y) \<in> (edges succ)\<^sup>*"
  shows "y \<in> V"
  using assms(3,1,2) by (induction rule: rtrancl_induct) (auto simp: closed_upto_def)

lemma stop_bfs_closed:
  assumes "stop_bfs succ m q V = Some W" "closed_upto succ q V"
  shows "closed_upto succ [] W \<and> set q \<subseteq> W \<and> V \<subseteq> W
    \<and> W \<subseteq> V \<union> {y. \<exists>x \<in> set q. (x, y) \<in> (edges succ)\<^sup>*}"
  using assms
proof (induction succ m q V rule: stop_bfs.induct)
  case (2 succ m head q V)
  show ?case
  proof (cases "head \<in> V")
    case True
    with "2.prems" have "closed_upto succ q V" by (auto simp: closed_upto_def)
    with "2.IH"(1) [OF True] "2.prems" True show ?thesis by auto
  next
    case False
    with "2.prems"(1) obtain cs where lt: "\<not> m \<le> head" and cs: "succ head = Some cs"
      and W: "stop_bfs succ m (q @ cs) (insert head V) = Some W"
      by (auto split: if_splits elim!: bind_SomeE)
    have e: "(head, y) \<in> edges succ \<longleftrightarrow> y \<in> set cs" for y
      using cs by (auto simp: edges_def)
    then have "closed_upto succ (q @ cs) (insert head V)"
      using "2.prems"(2) by (auto simp: closed_upto_def)
    from "2.IH"(2) [OF False lt cs W this]
    have IH: "closed_upto succ [] W" "set (q @ cs) \<subseteq> W" "insert head V \<subseteq> W"
      "W \<subseteq> insert head V \<union> {y. \<exists>x \<in> set (q @ cs). (x, y) \<in> (edges succ)\<^sup>*}" by auto
    have "(head, y) \<in> (edges succ)\<^sup>*" if "x \<in> set cs" "(x, y) \<in> (edges succ)\<^sup>*" for x y
      using that e by (meson converse_rtrancl_into_rtrancl)
    with IH show ?thesis by auto
  qed
qed (simp add: closed_upto_def)

lemma stop_bfs_total:
  assumes "\<And>x. x < m \<Longrightarrow> \<exists>cs. succ x = Some cs \<and> set cs \<subseteq> {..<m}" "set q \<subseteq> {..<m}"
  shows "\<exists>W. stop_bfs succ m q V = Some W"
  using assms
proof (induction succ m q V rule: stop_bfs.induct)
  case (2 succ m head q V)
  show ?case
  proof (cases "head \<in> V")
    case True
    with 2 show ?thesis by simp
  next
    case False
    have lt: "\<not> m \<le> head" "head < m" using "2.prems"(2) by auto
    obtain cs where cs: "succ head = Some cs" "set cs \<subseteq> {..<m}" using "2.prems"(1) [OF lt(2)] by blast
    have "\<exists>W. stop_bfs succ m (q @ cs) (insert head V) = Some W"
      using "2.prems" cs by (intro "2.IH"(2) [OF False lt(1) cs(1)]) auto
    with False lt cs show ?thesis by simp
  qed
qed simp

text \<open>The roots of the search of \<open>StopFlow\<close>: its arguments, except those beyond the last node.\<close>

definition roots :: "nat \<Rightarrow> nat \<Rightarrow> int list \<Rightarrow> 'e world \<Rightarrow> nat set" where
  "roots c m args w =
     {node_id nd | i nd. i \<in> set args \<and> i < int m \<and> get_node (NP c (nat i)) w = Some nd}"

definition reachable_from :: "(nat \<times> nat) set \<Rightarrow> nat set \<Rightarrow> nat set" where
  "reachable_from E X = {y. \<exists>x \<in> X. (x, y) \<in> E\<^sup>*}"

lemma collect_stop_ids_reach:
  assumes "collect_stop_ids c m args w = Some W"
  shows "W = reachable_from (edges (node_children c w)) (roots c m args w)"
proof -
  let ?succ = "node_children c w" and ?f = "\<lambda>i V. if i \<ge> int m then Some V
      else if i < 0 then None
      else do { nd \<leftarrow> get_node (NP c (nat i)) w; stop_bfs (node_children c w) m [node_id nd] V }"
  have "closed_upto ?succ [] W \<and> W = V \<union> reachable_from (edges ?succ) (roots c m args w)"
    if "foldM ?f args V = Some W" "closed_upto ?succ [] V" for V
    using that
  proof (induction args arbitrary: V)
    case Nil
    then show ?case by (simp add: roots_def reachable_from_def)
  next
    case (Cons i args)
    show ?case
    proof (cases "i \<ge> int m")
      case True
      then have "roots c m (i # args) w = roots c m args w" by (auto simp: roots_def)
      with Cons True show ?thesis by simp
    next
      case False
      with Cons.prems(1) obtain nd V1 where nd: "get_node (NP c (nat i)) w = Some nd"
        and V1: "stop_bfs ?succ m [node_id nd] V = Some V1" and rest: "foldM ?f args V1 = Some W"
        by (auto split: if_splits elim!: bind_SomeE)
      have "closed_upto ?succ [node_id nd] V" using Cons.prems(2) by (auto simp: closed_upto_def)
      from stop_bfs_closed [OF V1 this] have cl: "closed_upto ?succ [] V1" "node_id nd \<in> V1" "V \<subseteq> V1"
        "V1 \<subseteq> V \<union> {y. (node_id nd, y) \<in> (edges ?succ)\<^sup>*}" by auto
      moreover have "{y. (node_id nd, y) \<in> (edges ?succ)\<^sup>*} \<subseteq> V1"
        using closed_reach [OF cl(1,2)] by auto
      ultimately have "V1 = V \<union> {y. (node_id nd, y) \<in> (edges ?succ)\<^sup>*}" by auto
      moreover have "roots c m (i # args) w = insert (node_id nd) (roots c m args w)"
        using nd False unfolding roots_def by (auto simp: not_le intro: exI [of _ i])
      ultimately show ?thesis using Cons.IH [OF rest cl(1)] by (auto simp: reachable_from_def)
    qed
  qed
  from this [of "{}"] assms show ?thesis
    by (simp add: collect_stop_ids_def closed_upto_def)
qed

lemma collect_stop_ids_total:
  assumes "\<And>x. x < m \<Longrightarrow> \<exists>cs. node_children c w x = Some cs \<and> set cs \<subseteq> {..<m}"
    and "\<And>x. x < m \<Longrightarrow> \<exists>nd. get_node (NP c x) w = Some nd \<and> node_id nd < m"
    and "\<forall>i \<in> set args. 0 \<le> i"
  shows "\<exists>V. collect_stop_ids c m args w = Some V"
proof -
  let ?f = "\<lambda>i V. if i \<ge> int m then Some V
      else if i < 0 then None
      else do { nd \<leftarrow> get_node (NP c (nat i)) w; stop_bfs (node_children c w) m [node_id nd] V }"
  have "\<exists>W. foldM ?f args V = Some W" for V
    using assms(3)
  proof (induction args arbitrary: V)
    case (Cons i args)
    obtain V1 where "?f i V = Some V1"
    proof (cases "i \<ge> int m")
      case False
      with Cons.prems have "nat i < m" by (simp add: nat_less_iff)
      with assms(2) obtain nd where nd: "get_node (NP c (nat i)) w = Some nd" "node_id nd < m" by blast
      have "\<exists>V1. stop_bfs (node_children c w) m [node_id nd] V = Some V1"
        using nd(2) by (intro stop_bfs_total assms(1)) auto
      with False Cons.prems nd that show ?thesis by auto
    qed (use that in simp)
    then have "foldM ?f (i # args) V = foldM ?f args V1" by (simp only: foldM.simps bind.simps)
    moreover have "\<exists>W. foldM ?f args V1 = Some W"
      by (rule Cons.IH) (use Cons.prems in simp)
    ultimately show ?case by (simp only:)
  qed simp
  then show ?thesis by (simp add: collect_stop_ids_def)
qed

section \<open>Stopping the nodes\<close>

text \<open>Taking a stopped node out of the executor changes nothing: it is in no container.\<close>

lemma stop_and_remove_eq:
  assumes "cs_inv (w_cs w)"
  shows "stop_and_remove n w = Node_Stop n w"
proof (cases "Node_Stop n w")
  case (Some w1)
  then have stopped: "node_stopped n w1" using Node_Stop_rel assms by blast
  obtain w0 where "on_cs (leave n) w0 = Some w1"
    using Some by (auto simp: Node_Stop_def Node_Stop_with_def elim!: bind_SomeE)
  then have "cs_of (w_cs w1) n = None" by (auto simp: on_cs_Some intro: leave_of)
  then have "Exec_Remove (w_index w1) n (w_cs w1) = w_cs w1"
    using stopped by (cases "w_cs w1") (auto simp: Exec_Remove_def set_of_def contained_def node_stopped_def)
  moreover obtain nd where "get_node n w1 = Some nd"
    using stopped by (auto simp: node_stopped_def node_reset_def)
  ultimately show ?thesis using Some by (simp add: stop_and_remove_def executor_Remove_def on_cs_def)
qed (simp add: stop_and_remove_def)

text \<open>A stop goes down the tree of subcharts: the other nodes of the chart are left as they are.\<close>

lemma Node_Stop_with_frame:
  assumes wf: "wf_charts w" and run: "Node_Stop_with stop n w = Some w'"
    and rec: "\<And>d (u :: 'e world) u'. wf_charts u \<Longrightarrow> np_chart n < d \<Longrightarrow> stop d u = Some u'
      \<Longrightarrow> get_node m u' = get_node m u"
    and m: "m \<noteq> n"
  shows "get_node m w' = get_node m w"
proof -
  let ?f = "\<lambda>nd. nd\<lparr>status := Idle, result := rSTOP, run_flag := False, skip := False\<rparr>"
  from run obtain w1 nd w2 where w1: "upd_node n ?f w = Some w1" and nd: "get_node n w1 = Some nd"
    and w2: "(case attacher nd of None \<Rightarrow> Some w1 | Some a \<Rightarrow> Attacher_Stop stop a n w1) = Some w2"
    and w3: "on_cs (leave n) w2 = Some w'"
    by (auto simp: Node_Stop_with_def elim!: bind_SomeE)
  have "wf_charts w1" using wf stop_node_rel [OF w1] wf_charts_shape unfolding stop_rel_def by metis
  then have sub: "attacher nd = Some (Subchart d) \<Longrightarrow> np_chart n < d" for d
    using nd by (auto simp: wf_charts_def subchart_of_def)
  have "get_node m w2 = get_node m w1"
  proof (cases "attacher nd")
    case (Some a)
    with w2 have stop: "Attacher_Stop stop a n w1 = Some w2" by simp
    show ?thesis
    proof (cases a)
      case (NodeTimer ms)
      with stop show ?thesis by (auto simp: Attacher_Stop_def cancel_timer_def intro: get_node_cong)
    next
      case (Subchart d)
      with stop Some rec [OF \<open>wf_charts w1\<close> sub] show ?thesis by (simp add: Attacher_Stop_def)
    next
      case (NodeWaitAll ids)
      with stop have "upd_node n (\<lambda>nd. nd\<lparr>attacher := Some (NodeWaitAll (reset_ids ids))\<rparr>) w1 = Some w2"
        by (simp add: Attacher_Stop_def set_attacher_def)
      from get_upd_node [OF this] m show ?thesis by simp
    qed
  qed (use w2 in simp)
  moreover have "get_node m w' = get_node m w2" using w3 by (auto simp: on_cs_Some get_node_def)
  ultimately show ?thesis using get_upd_node [OF w1] m by simp
qed

lemma Chart_Stop_fuel_frame:
  fixes w w' :: "'e world"
  shows "wf_charts w \<Longrightarrow> np_chart m < c \<Longrightarrow> Chart_Stop_fuel f c w = Some w' \<Longrightarrow> get_node m w' = get_node m w"
proof (induction f arbitrary: c w w')
  case (Suc f)
  from Suc.prems(3) obtain ch w1 w2 where "w_charts w c = Some ch" and
    w1: "foldM (\<lambda>i. Node_Stop_with (Chart_Stop_fuel f) (NP c i)) [0..<length (nodes ch)] w = Some w1"
    and w2: "set_running False c w1 = Some w2" and w3: "ClearVariables c w2 = Some w'"
    by (auto elim!: bind_SomeE)
  have step: "wf_charts v' \<and> get_node m v' = get_node m v"
    if "wf_charts v" "Node_Stop_with (Chart_Stop_fuel f) (NP c i) v = Some v'" for i and v v' :: "'e world"
  proof
    have rec: "get_node m u' = get_node m u"
      if "wf_charts u" "np_chart (NP c i) < d" "Chart_Stop_fuel f d u = Some u'" for d and u u' :: "'e world"
      using Suc.IH [OF that(1) _ that(3)] that(2) Suc.prems(2) by simp
    show "get_node m v' = get_node m v"
      by (rule Node_Stop_with_frame [OF that rec]) (use Suc.prems(2) in auto)
    have "stop_rel v v'"
      by (rule conjunct1 [OF Node_Stop_with_rel [OF _ that(2)]]) (rule Chart_Stop_fuel_stop_rel)
    then show "wf_charts v'" using that(1) wf_charts_shape unfolding stop_rel_def by metis
  qed
  have "wf_charts w1 \<and> get_node m w1 = get_node m w"
    by (rule foldM_inv [OF w1]) (use Suc.prems(1) step in auto)
  moreover have "get_node m w' = get_node m w1"
    using w2 w3 Suc.prems(2)
    by (auto simp: set_running_def ClearVariables_def upd_chart_Some get_node_def
        elim!: bind_SomeE split: option.splits)
  ultimately show ?case by simp
qed simp

lemma Node_Stop_frame:
  "wf_charts w \<Longrightarrow> Node_Stop n w = Some w' \<Longrightarrow> np_chart m \<le> np_chart n \<Longrightarrow> m \<noteq> n \<Longrightarrow> get_node m w' = get_node m w"
  unfolding Node_Stop_def
  by (erule Node_Stop_with_frame, assumption) (erule Chart_Stop_fuel_frame, simp_all)

lemma stop_nodes:
  fixes w :: "'e world"
  assumes "wf_world w" "\<forall>i \<in> set is. get_node (NP c i) w \<noteq> None"
  shows "\<exists>w'. foldM (\<lambda>i. stop_and_remove (NP c i)) is w = Some w' \<and> stop_rel w w'
    \<and> (\<forall>i \<in> set is. node_stopped (NP c i) w')
    \<and> (\<forall>i. i \<notin> set is \<longrightarrow> get_node (NP c i) w' = get_node (NP c i) w)"
  using assms
proof (induction "is" arbitrary: w)
  case (Cons i "is")
  have inv: "cs_inv (w_cs w)" using Cons.prems(1) by (simp add: wf_world_def)
  obtain nd where "get_node (NP c i) w = Some nd" using Cons.prems(2) by auto
  then obtain w1 where w1: "Node_Stop (NP c i) w = Some w1"
    using Node_Stop_total [OF Cons.prems(1)] by blast
  from Node_Stop_rel [OF w1] inv have r1: "stop_rel w w1" "node_stopped (NP c i) w1" by auto
  then have wf1: "wf_world w1" using Cons.prems(1) stop_rel_wf by blast
  have "\<forall>i \<in> set is. get_node (NP c i) w1 \<noteq> None"
    using Cons.prems(2) r1(1) unfolding stop_rel_def
    by (metis get_node_shape list.set_intros(2) option.map_disc_iff)
  from Cons.IH [OF wf1 this] obtain w' where w': "foldM (\<lambda>i. stop_and_remove (NP c i)) is w1 = Some w'"
    "stop_rel w1 w'" "\<forall>i \<in> set is. node_stopped (NP c i) w'"
    and same: "\<forall>j. j \<notin> set is \<longrightarrow> get_node (NP c j) w' = get_node (NP c j) w1" by blast
  have "node_stopped (NP c i) w'"
    using stop_rel_stopped [OF w'(2) _ r1(2)] wf1 by (simp add: wf_world_def)
  moreover have "stop_rel w w'" using r1(1) w'(2) by (rule stop_rel_trans)
  moreover have "get_node (NP c j) w1 = get_node (NP c j) w" if "j \<noteq> i" for j
    using Node_Stop_frame [OF _ w1] Cons.prems(1) that by (simp add: wf_world_def)
  ultimately show ?case using w1 w' same stop_and_remove_eq [OF inv] by auto
qed simp

text \<open>The edges of success and failure of a chart, by its data.\<close>

definition flow_edges :: "nat \<Rightarrow> 'e world \<Rightarrow> (nat \<times> nat) set" where
  "flow_edges c w = {(x, y). \<exists>d. data_of (NP c x) w = Some d \<and> (y \<in> set (children_true d) \<or> y \<in> set (children_false d))}"

lemma edges_node_children: "edges (node_children c w) = flow_edges c w"
  by (auto simp: edges_def flow_edges_def node_children_def GetSubsequenceIds_def bind_eq_Some_conv)

section \<open>Properties\<close>

text \<open>C22. One run of a \<open>WaitAll\<close> node is a step of the abstract barrier on the set of the
  predecessors that arrived: it opens, and forgets them, exactly when the last awaited one arrives;
  others do not count.\<close>

theorem wait_all_refines:
  assumes "distinct (map fst ids)" "WaitAll_Run i ids = (r, ids')"
  shows "barrier (keys ids) i (arrived ids) = (r, arrived ids') \<and> map fst ids' = map fst ids"
  by (rule WaitAll_Run_refines [OF assms])

theorem wait_all_refines_witness:
  "barrier {1, 2} 2 {1} = (True, {}) \<and> WaitAll_Run 2 [(1, True), (2, False)] = (True, [(1, False), (2, False)])"
proof -
  have "WaitAll_Run 2 [(1, True), (2, False)] = (True, [(1, False), (2, False)])" by code_simp
  with wait_all_refines [OF _ this] show ?thesis by simp
qed

text \<open>C21. A \<open>WaitAll\<close> node that is fresh stays closed while its predecessors arrive in any order,
  with repetitions and strangers among them, and opens at the arrival of the last one.\<close>

theorem wait_all_opens_last:
  assumes "x \<in> set args" "x \<notin> set xs" "set args \<subseteq> insert x (set xs)"
  shows "fst (WaitAll_runs (xs @ [x]) (WaitAll_Init args)) = replicate (length xs) False @ [True]
    \<and> arrived (snd (WaitAll_runs (xs @ [x]) (WaitAll_Init args))) = {}"
proof -
  let ?ids = "WaitAll_Init args"
  have init: "distinct (map fst ?ids)" "keys ?ids = set args" "arrived ?ids = {}"
    using WaitAll_Init_keys [of args] by auto
  obtain rs ids1 where runs: "WaitAll_runs xs ?ids = (rs, ids1)" by fastforce
  have "rs = replicate (length xs) False \<and> arrived ids1 = arrived ?ids \<union> (set xs \<inter> keys ?ids)
      \<and> map fst ids1 = map fst ?ids"
    using assms(1,2) init by (intro WaitAll_closed [OF init(1) _ runs]) auto
  then have rs: "rs = replicate (length xs) False" "arrived ids1 = set xs \<inter> set args"
    and fst1: "map fst ids1 = map fst ?ids" using init by auto
  then have k1: "keys ids1 = set args" "distinct (map fst ids1)" using init by (metis keys_def set_map, metis)
  obtain r ids2 where last: "WaitAll_Run x ids1 = (r, ids2)" by fastforce
  from WaitAll_Run_refines [OF k1(2) last] have "barrier (set args) x (set xs \<inter> set args) = (r, arrived ids2)"
    by (simp add: k1(1) rs(2))
  moreover have "insert x (set xs \<inter> set args) = set args" using assms by auto
  ultimately have "r" "arrived ids2 = {}" using assms(1) by (simp_all add: barrier_def)
  moreover have "WaitAll_runs (xs @ [x]) ?ids = (rs @ [r], ids2)"
    by (simp add: WaitAll_runs_append runs last)
  ultimately show ?thesis using rs(1) by simp
qed

theorem wait_all_opens_last_witness:
  "fst (WaitAll_runs ([2, 5, 1, 2] @ [3]) (WaitAll_Init [1, 2, 3])) = replicate 4 False @ [True]"
  using wait_all_opens_last [of 3 "[1, 2, 3]" "[2, 5, 1, 2]"] by (simp add: numeral_eq_Suc)

text \<open>C15. \<open>StopFlow\<close> returns and stops exactly the nodes of the chart that can be reached from its
  arguments along the edges of success and failure, each of them left idle, in no container and
  without a running timer; the other nodes of the chart are left as they are, and the world stays
  well-formed with the same structure.\<close>

theorem stop_flow_stops:
  fixes w :: "'e world"
  assumes wf: "wf_world w" and n: "GetCurrentNode w = Some n" and ch: "w_charts w (np_chart n) = Some ch"
    and data: "\<forall>x < length (nodes ch). \<exists>d. data_of (NP (np_chart n) x) w = Some d
        \<and> set (children_true d) \<union> set (children_false d) \<subseteq> {..<length (nodes ch)}"
    and ids: "\<forall>x < length (nodes ch). node_id (nodes ch ! x) = x"
    and args: "\<forall>i \<in> set args. 0 \<le> i"
  shows "\<exists>w'. Manager_StopFlow args w = Some (True, w') \<and> stop_rel w w'
    \<and> (let stopped = reachable_from (flow_edges (np_chart n) w)
                          {nat i | i. i \<in> set args \<and> i < int (length (nodes ch))}
       in (\<forall>i \<in> stopped. node_stopped (NP (np_chart n) i) w')
        \<and> (\<forall>i. i \<notin> stopped \<longrightarrow> get_node (NP (np_chart n) i) w' = get_node (NP (np_chart n) i) w))"
proof -
  let ?c = "np_chart n" and ?m = "length (nodes ch)"
  let ?E = "edges (node_children ?c w)"
  have succ: "\<forall>x < ?m. \<exists>cs. node_children ?c w x = Some cs \<and> set cs \<subseteq> {..<?m}"
    using data by (fastforce simp: node_children_def GetSubsequenceIds_def)
  have node: "get_node (NP ?c x) w = Some (nodes ch ! x)" if "x < ?m" for x
    using ch that by (simp add: get_node_def)
  obtain W where W: "collect_stop_ids ?c ?m args w = Some W"
    using collect_stop_ids_total [of ?m ?c w args] succ ids args node by auto
  then have W_eq: "W = reachable_from ?E (roots ?c ?m args w)" by (rule collect_stop_ids_reach)
  have arg: "get_node (NP ?c (nat i)) w = Some (nodes ch ! nat i) \<and> node_id (nodes ch ! nat i) = nat i"
    if "i \<in> set args" "i < int ?m" for i
    using that ids args node by (simp add: nat_less_iff)
  have roots: "roots ?c ?m args w = {nat i | i. i \<in> set args \<and> i < int ?m}"
    unfolding roots_def using arg by (intro Collect_cong) (metis option.inject)
  have small: "y < ?m" if "(x, y) \<in> ?E\<^sup>*" "x < ?m" for x y
    using that by (induction rule: rtrancl_induct) (use succ in \<open>fastforce simp: edges_def\<close>)+
  have sub: "W \<subseteq> {..<?m}" unfolding W_eq roots reachable_from_def using small args by (auto simp: nat_less_iff)
  then have fin: "finite W" using finite_subset by blast
  have "\<forall>i \<in> set (sorted_list_of_set W). get_node (NP ?c i) w \<noteq> None" using fin sub node by auto
  from stop_nodes [OF wf this] obtain w' where
    "foldM (\<lambda>i. stop_and_remove (NP ?c i)) (sorted_list_of_set W) w = Some w'" "stop_rel w w'"
    "\<forall>i \<in> W. node_stopped (NP ?c i) w'" "\<forall>i. i \<notin> W \<longrightarrow> get_node (NP ?c i) w' = get_node (NP ?c i) w"
    using fin by auto
  then show ?thesis using n ch W W_eq [unfolded edges_node_children] roots by (auto simp: Manager_StopFlow_def Let_def)
qed

end
