(* ===== verification/Lua_Manager_Props.thy ===== *)
theory Lua_Manager_Props
  imports Lua_Functions Lua_Params Control_Nodes
begin

text \<open>
  The life of the managers of the Lua binding: what a manager finds after the one before it was ended,
  and what \<open>stop_node\<close> of the Lua module stops.
\<close>

section \<open>The shared table of functions\<close>

text \<open>Taking references keeps the table well-formed and leaves the entries of others alone.\<close>

lemma new_table_ref_law:
  assumes "new_table_ref pick p = (r, p')" "table_ok pick (lp_registry p)"
  shows "table_ok pick (lp_registry p')"
    and "ref_get r' (lp_registry p') = (if r' = r then Some (RegTable (lp_next_table p)) else ref_get r' (lp_registry p))"
    and "lp_current p' = lp_current p" "lp_func_ref p' = lp_func_ref p"
proof -
  from assms(1) have reg: "luaL_ref pick (RegTable (lp_next_table p)) (lp_registry p) = (r, lp_registry p')"
    and p': "lp_current p' = lp_current p" "lp_func_ref p' = lp_func_ref p"
    by (auto simp: new_table_ref_def split: prod.splits)
  from lr.take_law [OF assms(2) reg, of r'] p'
  show "table_ok pick (lp_registry p')"
    and "ref_get r' (lp_registry p') = (if r' = r then Some (RegTable (lp_next_table p)) else ref_get r' (lp_registry p))"
    and "lp_current p' = lp_current p" "lp_func_ref p' = lp_func_ref p" by simp_all
qed

text \<open>What \<open>Init\<close> leaves, with the table of functions found or made.\<close>

lemma Init_registry:
  assumes "LuaManager_Init pick p = (m, p')" "table_ok pick (lp_registry p)"
  obtains mgr where "lp_managers p' m = Some mgr" "table_ok pick (lp_registry p')" "lp_current p' = Some m"
    "lp_func_ref p' = VInt (mgr_function mgr)"
    "\<And>r. lp_func_ref p = VInt r \<Longrightarrow> mgr_function mgr = r"
    "\<And>r. r \<noteq> mgr_error mgr \<Longrightarrow> r \<noteq> mgr_function mgr \<Longrightarrow> r \<noteq> mgr_object mgr \<Longrightarrow> r \<noteq> mgr_variable mgr \<Longrightarrow>
       ref_get r (lp_registry p') = ref_get r (lp_registry p)"
    "\<And>r. lp_func_ref p = VInt r \<Longrightarrow> r \<noteq> mgr_error mgr \<Longrightarrow> r \<noteq> mgr_object mgr \<Longrightarrow> r \<noteq> mgr_variable mgr \<Longrightarrow>
       ref_get r (lp_registry p') = ref_get r (lp_registry p)"
proof -
  obtain err reg where err: "luaL_ref pick ErrorFunction (lp_registry p) = (err, reg)" by fastforce
  define p1 where "p1 = p\<lparr>lp_registry := reg, lp_next_manager := lp_next_manager p + 1, lp_current := Some (lp_next_manager p)\<rparr>"
  obtain func p2 where func: "InitFuncRef pick p1 = (func, p2)" by fastforce
  obtain obj p3 where obj: "new_table_ref pick p2 = (obj, p3)" by fastforce
  obtain var p4 where var: "new_table_ref pick p3 = (var, p4)" by fastforce
  note e = lr.take_law [OF assms(2) err]
  have p2: "table_ok pick (lp_registry p2)" "lp_current p2 = Some (lp_next_manager p)" "lp_func_ref p2 = VInt func"
    "\<And>r. lp_func_ref p = VInt r \<Longrightarrow> func = r \<and> lp_registry p2 = reg"
    "\<And>r. r \<noteq> func \<Longrightarrow> ref_get r (lp_registry p2) = ref_get r reg"
    using func e lr.take_law [of pick reg "RegTable (lp_next_table p)" func "lp_registry p2"]
    by (auto simp: InitFuncRef_def p1_def split: val.splits prod.splits)
  note o = new_table_ref_law [OF obj p2(1)] and v = new_table_ref_law [OF var new_table_ref_law(1) [OF obj p2(1)]]
  have p': "p' = p4\<lparr>lp_managers := (lp_managers p4)(m \<mapsto> \<lparr>mgr_error = err, mgr_function = func, mgr_object = obj,
      mgr_variable = var, mgr_lua = new_lua_state, mgr_world = new_manager (lp_env p4)\<rparr>)\<rparr>"
    and m: "m = lp_next_manager p"
    using assms(1) err func [unfolded p1_def] obj var by (auto simp: LuaManager_Init_def Let_def)
  show thesis
  proof (rule that [of "\<lparr>mgr_error = err, mgr_function = func, mgr_object = obj,
      mgr_variable = var, mgr_lua = new_lua_state, mgr_world = new_manager (lp_env p4)\<rparr>"])
  qed (use e p2 o v m in \<open>simp_all add: p'\<close>)
qed

lemma setup_registry:
  assumes "lua_setup L args p = Some (res, p')" "table_ok (ll_pick L) (lp_registry p)"
  obtains m mgr where "res = ManagerObject m" "lp_managers p' m = Some mgr" "table_ok (ll_pick L) (lp_registry p')"
    "lp_current p' = Some m" "lp_func_ref p' = VInt (mgr_function mgr)"
    "\<And>r. lp_func_ref p = VInt r \<Longrightarrow> mgr_function mgr = r"
    "\<And>r. lp_func_ref p = VInt r \<Longrightarrow> r \<noteq> mgr_error mgr \<Longrightarrow> r \<noteq> mgr_object mgr \<Longrightarrow> r \<noteq> mgr_variable mgr \<Longrightarrow>
       ref_get r (lp_registry p') = ref_get r (lp_registry p)"
proof -
  obtain m p0 where init: "LuaManager_Init (ll_pick L) p = (m, p0)" by fastforce
  show thesis
  proof (rule Init_registry [OF init assms(2)])
    fix mgr
    assume law: "lp_managers p0 m = Some mgr" "table_ok (ll_pick L) (lp_registry p0)" "lp_current p0 = Some m"
      "lp_func_ref p0 = VInt (mgr_function mgr)" "\<And>r. lp_func_ref p = VInt r \<Longrightarrow> mgr_function mgr = r"
      "\<And>r. lp_func_ref p = VInt r \<Longrightarrow> r \<noteq> mgr_error mgr \<Longrightarrow> r \<noteq> mgr_object mgr \<Longrightarrow> r \<noteq> mgr_variable mgr \<Longrightarrow>
         ref_get r (lp_registry p0) = ref_get r (lp_registry p)"
    from assms(1) init law(1) obtain w where "res = ManagerObject m" "p' = put_manager m (mgr\<lparr>mgr_world := w\<rparr>) p0"
      by (auto simp: lua_setup_def elim!: bind_SomeE)
    with law show thesis by (intro that [of m "mgr\<lparr>mgr_world := w\<rparr>"]) (simp_all add: put_manager_def)
  qed
qed

lemma on_world_keeps:
  assumes "on_world m f p = Some (r, p')"
  shows "lp_registry p' = lp_registry p" "lp_func_ref p' = lp_func_ref p"
  using assms by (auto simp: on_world_def elim!: bind_SomeE)

lemma exit_registry:
  assumes "lua_exit p = Some (res, p')" "lp_current p = Some m" "lp_managers p m = Some mgr"
    and "table_ok pick (lp_registry p)"
  shows "table_ok pick (lp_registry p')" "ref_get (mgr_function mgr) (lp_registry p') = None"
    "lp_func_ref p' = lp_func_ref p" "lp_current p' = None"
proof -
  from assms(1-3) obtain p1 where p1: "on_world m (\<lambda>w. map_option (Pair ()) (delete_manager w)) p = Some ((), p1)"
    and p': "p' = p1\<lparr>lp_registry := luaL_unref (mgr_function mgr) (luaL_unref (mgr_variable mgr)
                    (luaL_unref (mgr_object mgr) (luaL_unref (mgr_error mgr) (lp_registry p1)))),
                  lp_managers := (lp_managers p1)(m := None), lp_current := None\<rparr>"
    by (auto simp: lua_exit_def delete_LuaManager_def elim!: bind_SomeE)
  have ok: "table_ok pick (lp_registry p')" using assms(4) on_world_keeps [OF p1] by (simp add: p' unref_ok)
  then show "table_ok pick (lp_registry p')" .
  have "mgr_function mgr \<notin> used (lp_registry p')"
    using assms(4) on_world_keeps [OF p1] by (simp add: p' unref_ok used_unref [where pick = pick])
  then show "ref_get (mgr_function mgr) (lp_registry p') = None" using lr.look_law [OF ok] by blast
  show "lp_func_ref p' = lp_func_ref p" "lp_current p' = None" using on_world_keeps [OF p1] by (simp_all add: p')
qed

text \<open>C19. A manager that is set up after another one was ended takes over the number of the shared
  table of functions, which the end of the first gave back: the number refers to nothing, or to the
  error handler or one of the other tables of the new manager.\<close>

lemma setup_after_exit:
  assumes "table_ok (ll_pick L) (lp_registry p)"
    and "lua_setup L args p = Some (ManagerObject m, p1)" "lp_managers p1 m = Some mgr"
    and "lua_exit p1 = Some (res, p2)"
    and "lua_setup L args' p2 = Some (ManagerObject m', p3)" "lp_managers p3 m' = Some mgr'"
  shows "mgr_function mgr' = mgr_function mgr \<and>
    (ref_get (mgr_function mgr') (lp_registry p3) = None
     \<or> mgr_function mgr' \<in> {mgr_error mgr', mgr_object mgr', mgr_variable mgr'})"
proof -
  from setup_registry [OF assms(2,1)] assms(3)
  have p1: "table_ok (ll_pick L) (lp_registry p1)" "lp_current p1 = Some m" "lp_func_ref p1 = VInt (mgr_function mgr)"
    by (metis lua_result.inject(4) option.inject)+
  note p2 = exit_registry [OF assms(4) p1(2) assms(3) p1(1)]
  from setup_registry [OF assms(5) p2(1)] assms(6)
  have "mgr_function mgr' = mgr_function mgr"
    and "mgr_function mgr \<notin> {mgr_error mgr', mgr_object mgr', mgr_variable mgr'} \<longrightarrow>
      ref_get (mgr_function mgr) (lp_registry p3) = ref_get (mgr_function mgr) (lp_registry p2)"
    using p1(3) p2(3) by (metis lua_result.inject(4) option.inject insertCI)+
  with p2(2) show ?thesis by auto
qed

section \<open>Stopping nodes\<close>

lemma stop_zeros:
  assumes "0 < m"
  shows "foldM (\<lambda>i w. if i \<ge> int m then Some w else if i < 0 then None else stop_and_remove (NP c (nat i)) w) (replicate k 0) w
    = foldM (\<lambda>i. stop_and_remove (NP c i)) (replicate k 0) w"
  using assms
proof (induction k arbitrary: w)
  case (Suc k)
  then show ?case by (cases "stop_and_remove (NP c 0) w") simp_all
qed simp

text \<open>\<open>stop_node\<close> of the Lua module stops the first node of the chart, whatever nodes it is asked to
  stop, and leaves the others as they are.\<close>

lemma lua_stop_node_first:
  fixes w :: "'e world"
  assumes "lp_current p = Some m" "lp_managers p m = Some mgr" "args \<noteq> []"
    and w: "w = (mgr_world mgr)\<lparr>w_chart_dict := lp_charts p, w_datas := lp_datas p, w_events := lp_events p, w_env := lp_env p\<rparr>"
    and wf: "wf_world w" and n: "GetCurrentNode w = Some n" and ch: "w_charts w (np_chart n) = Some ch" "nodes ch \<noteq> []"
  shows "\<exists>p' mgr'. lua_stop_node args p = Some (Results [VBool True], p') \<and> lp_managers p' m = Some mgr'
    \<and> node_stopped (NP (np_chart n) 0) (mgr_world mgr')
    \<and> (\<forall>i > 0. get_node (NP (np_chart n) i) (mgr_world mgr') = get_node (NP (np_chart n) i) (mgr_world mgr))"
proof -
  let ?c = "np_chart n"
  have "\<forall>i \<in> set (replicate (length args) 0). get_node (NP ?c i) w \<noteq> None" using ch by (auto simp: get_node_def)
  from stop_nodes [OF wf this] obtain w' where w': "foldM (\<lambda>i. stop_and_remove (NP ?c i)) (replicate (length args) 0) w = Some w'"
    and stopped: "node_stopped (NP ?c 0) w'" "\<forall>i > 0. get_node (NP ?c i) w' = get_node (NP ?c i) w"
    using assms(3) by fastforce
  have "Manager_StopNode (replicate (length args) 0) w = Some (True, w')"
    using n ch w' stop_zeros [of "length (nodes ch)" ?c "length args" w] by (simp add: Manager_StopNode_def Let_def)
  then have "lua_stop_node args p = Some (Results [VBool True], p\<lparr>lp_managers := (lp_managers p)(m \<mapsto> mgr\<lparr>mgr_world := w'\<rparr>),
      lp_charts := w_chart_dict w', lp_datas := w_datas w', lp_events := w_events w', lp_env := w_env w'\<rparr>)"
    using assms(1-3) by (simp add: lua_stop_node_def on_world_def w)
  moreover have "get_node (NP ?c i) w = get_node (NP ?c i) (mgr_world mgr)" for i by (simp add: w get_node_def)
  ultimately show ?thesis using stopped by simp
qed

end
