(* ===== verification/Lua_Agents.thy ===== *)
theory Lua_Agents
  imports Lua_Functions
begin

text \<open>
  The functions of the Lua module that work on both parts of a manager, its world and the Lua part of
  its charts: \<open>attach\<close> and the closure made by \<open>callback\<close> (\<open>src/lua/export_global_funcs.cpp\<close>,
  \<open>lua_manager.cpp\<close>); the methods of agent objects (\<open>src/lua/export_agent_class.cpp\<close>); and the result of a
  node function (\<open>src/lua/lua_nodefunc.cpp\<close>).
\<close>

definition on_manager ::
  "nat \<Rightarrow> ('e world \<times> lua_state \<Rightarrow> ('r \<times> 'e world \<times> lua_state) option) \<Rightarrow> 'e lua_process \<Rightarrow> ('r \<times> 'e lua_process) option" where
  "on_manager m f p =
     do { mgr \<leftarrow> lp_managers p m;
          (r, w, s) \<leftarrow> f ((mgr_world mgr)\<lparr>w_chart_dict := lp_charts p, w_datas := lp_datas p,
                         w_events := lp_events p, w_env := lp_env p\<rparr>, mgr_lua mgr);
          Some (r, p\<lparr>lp_managers := (lp_managers p)(m \<mapsto> mgr\<lparr>mgr_world := w, mgr_lua := s\<rparr>), lp_charts := w_chart_dict w,
            lp_datas := w_datas w, lp_events := w_events w, lp_env := w_env w\<rparr>) }"

section \<open>Attaching charts\<close>

text \<open>A chart that is attached has its Lua part made by the constructor and its agent set; the duplicate
  that \<open>AttachChart\<close> deletes never gets an agent, and its destructor does nothing.\<close>

definition attach_chart ::
  "'e lua_lib \<Rightarrow> nat \<Rightarrow> string \<Rightarrow> val \<Rightarrow> 'e world \<times> lua_state \<Rightarrow> (lua_result \<times> 'e world \<times> lua_state) option" where
  "attach_chart L a name init = (\<lambda>(w, s).
     do { (found, w) \<leftarrow> Manager_AttachChart a name w;
          case found of
            None \<Rightarrow> Some (Results [VNone], w, s)
          | Some c \<Rightarrow>
              do { d \<leftarrow> chart_data_of c w;
                   s \<leftarrow> LuaChart_SetAgent a c (LuaChart c d s);
                   s \<leftarrow> (case lua_table_of L (w_env w) init of
                           None \<Rightarrow> Some s
                         | Some entries \<Rightarrow> LuaChart_SetInitTable (ll_pick L) entries c s);
                   Some (ChartObject c, w, s) } })"

definition lua_attach ::
  "'e lua_lib \<Rightarrow> val list \<Rightarrow> 'e lua_process \<Rightarrow> (lua_result \<times> 'e lua_process) option" where
  "lua_attach L args = checked (\<lambda>m p.
     (case lua_topointer (stack_at args 1) of
        None \<Rightarrow> Some (LuaError ''1st arg for asyncflow.attach should be a userdata or table'', p)
      | Some obj \<Rightarrow>
          (case lua_tostring L (stack_at args 2) of
             None \<Rightarrow> Some (LuaError ''2rd arg for asyncflow.attach should be a chart_name'', p)
           | Some name \<Rightarrow>
               on_manager m (\<lambda>(w, s).
                 case GetAgent obj w of
                   None \<Rightarrow> Some (Results [VNone], w, s)
                 | Some a \<Rightarrow> attach_chart L a name (stack_at args 3) (w, s)) p)))"

section \<open>Asynchronous nodes\<close>

text \<open>The closure continues its node: the variable of the node gets the value at the bottom of the stack,
  its first argument, and the result of the node is the truth of the last one. A call without
  arguments is not modelled.\<close>

definition LuaManager_ContinueAsyncNode ::
  "nptr option \<Rightarrow> val list \<Rightarrow> 'e world \<times> lua_state \<Rightarrow> (bool \<times> 'e world \<times> lua_state) option" where
  "LuaManager_ContinueAsyncNode context args = (\<lambda>(w, s).
     do { (r, w) \<leftarrow> ContinueAsyncNode context w;
          if \<not> r then Some (r, w, s)
          else if args = [] then None
          else do { n \<leftarrow> context;
                    d \<leftarrow> data_of n w;
                    s \<leftarrow> (if var_id d \<ge> 0 then LuaChart_SetVar (hd args) (var_id d) (np_chart n) s else Some s);
                    w \<leftarrow> SetResult (result_of_bool (lua_toboolean (last args))) n w;
                    Some (r, w, s) } })"

definition lua_callback_func ::
  "nptr option \<Rightarrow> val list \<Rightarrow> 'e lua_process \<Rightarrow> (lua_result \<times> 'e lua_process) option" where
  "lua_callback_func context args = unless_null (Results [VBool False]) (\<lambda>m.
     on_manager m (\<lambda>ws. do { (r, w, s) \<leftarrow> LuaManager_ContinueAsyncNode context args ws;
                             Some (Results [VBool r], w, s) }))"

section \<open>Agent objects\<close>

text \<open>An agent object keeps the address of its agent and of the manager that made it; a method follows
  the address.\<close>

definition agent_attach_chart ::
  "'e lua_lib \<Rightarrow> nat \<Rightarrow> nat \<Rightarrow> val list \<Rightarrow> 'e lua_process \<Rightarrow> (lua_result \<times> 'e lua_process) option" where
  "agent_attach_chart L m a args p =
     (case lua_tostring L (stack_at args 2) of
        None \<Rightarrow> Some (LuaError ''argument type string expected'', p)
      | Some name \<Rightarrow>
          on_manager m (\<lambda>(w, s). do { _ \<leftarrow> w_agents w a; attach_chart L a name (stack_at args 3) (w, s) }) p)"

definition agent_remove_chart ::
  "'e lua_lib \<Rightarrow> nat \<Rightarrow> nat \<Rightarrow> val list \<Rightarrow> 'e lua_process \<Rightarrow> (lua_result \<times> 'e lua_process) option" where
  "agent_remove_chart L m a args p =
     (case lua_tostring L (stack_at args 2) of
        None \<Rightarrow> Some (LuaError ''argument type string expected'', p)
      | Some name \<Rightarrow> on_world m (\<lambda>w. do { _ \<leftarrow> w_agents w a; ret_bool (RemoveChart name a w) }) p)"

text \<open>\<open>get_charts\<close>: the names of the charts, all of them or those with a chart that is no subchart.\<close>

definition has_top_chart :: "'e world \<Rightarrow> nat list \<Rightarrow> bool option" where
  "has_top_chart w cs =
     do { flags \<leftarrow> mapM (\<lambda>c. do { ch \<leftarrow> w_charts w c; Some (owner_node ch = None) }) cs;
          Some (list_ex id flags) }"

definition agent_get_charts ::
  "nat \<Rightarrow> nat \<Rightarrow> val list \<Rightarrow> 'e lua_process \<Rightarrow> (lua_result \<times> 'e lua_process) option" where
  "agent_get_charts m a args p =
     on_world m (\<lambda>w.
       do { ag \<leftarrow> w_agents w a;
            let is_subchart = (case stack_at args 2 of VBool b \<Rightarrow> b | _ \<Rightarrow> False);
            names \<leftarrow> foldM (\<lambda>(name, cs) names.
              if is_subchart then Some (names @ [VStr name])
              else do { b \<leftarrow> has_top_chart w cs; Some (if b then names @ [VStr name] else names) })
              (chart_dict ag) [];
            Some (Results names, w) }) p"

definition agent_stop :: "nat \<Rightarrow> nat \<Rightarrow> 'e lua_process \<Rightarrow> (lua_result \<times> 'e lua_process) option" where
  "agent_stop m a p =
     on_world m (\<lambda>w. do { _ \<leftarrow> w_agents w a; w \<leftarrow> Agent_Stop a w; Some (Results [VBool True], w) }) p"

definition agent_get_obj :: "nat \<Rightarrow> nat \<Rightarrow> 'e lua_process \<Rightarrow> (lua_result \<times> 'e lua_process) option" where
  "agent_get_obj m a p =
     do { mgr \<leftarrow> lp_managers p m;
          _ \<leftarrow> w_agents (mgr_world mgr) a;
          r \<leftarrow> ls_agents (mgr_lua mgr) a;
          Some (Results [case ref_get r (ls_objs (mgr_lua mgr)) of None \<Rightarrow> VNone | Some v \<Rightarrow> v], p) }"

section \<open>Node functions\<close>

text \<open>The result of \<open>LuaNodeFunc::call\<close>, from the value its function returned; a function that raised an
  error has none.\<close>

definition LuaNodeFunc_result :: "'e world \<Rightarrow> val option \<Rightarrow> node_result" where
  "LuaNodeFunc_result w r =
     (case r of
        None \<Rightarrow> if w_stop_when_error w then rSTOP else rFALSE
      | Some (VInt i) \<Rightarrow> result_of_bool (i \<noteq> 0)
      | Some v \<Rightarrow> result_of_bool (lua_toboolean v))"

end
