(* ===== verification/Loader_Props.thy ===== *)
theory Loader_Props
  imports Loaders
begin

text \<open>
  What the loaders promise to the engine: in the data of a chart that was loaded, a node is stored
  under its identifier, and the identifiers of children and of the arguments of control nodes are
  those of nodes of the chart. The engine follows them without a check.
\<close>

section \<open>Well-formed data\<close>

definition node_ok :: "nat \<Rightarrow> node_data \<Rightarrow> bool" where
  "node_ok m nd \<longleftrightarrow> set (children_true nd) \<subseteq> {..<m} \<and> set (children_false nd) \<subseteq> {..<m}
     \<and> (\<forall>k ps. node_func nd = Some (Control k ps) \<longrightarrow> (\<forall>p \<in> set ps. 0 \<le> p \<and> p < int m))"

definition data_ok :: "chart_data \<Rightarrow> bool" where
  "data_ok d \<longleftrightarrow> (\<forall>i < length (node_list d). data_id (node_list d ! i) = i
     \<and> node_ok (length (node_list d)) (node_list d ! i))"

definition ids_ok :: "nat \<Rightarrow> id_map \<Rightarrow> bool" where
  "ids_ok m ids \<longleftrightarrow> (\<forall>u i. ids u = Some i \<longrightarrow> i < m)"

text \<open>The functions the binding creates are script functions.\<close>

definition creator_ok :: "creator \<Rightarrow> bool" where
  "creator_ok create \<longleftrightarrow> (\<forall>code name k ps. create code name \<noteq> Some (Control k ps))"

lemma node_ok_new [simp]: "node_ok m (new_node_data i)" and new_node_id [simp]: "data_id (new_node_data i) = i"
  by (simp_all add: node_ok_def new_node_data_def)

lemma node_ok_upd [simp]:
  "node_ok m (nd\<lparr>node_uid := u\<rparr>) = node_ok m nd" "node_ok m (nd\<lparr>node_text := t\<rparr>) = node_ok m nd"
  "node_ok m (nd\<lparr>is_event := b\<rparr>) = node_ok m nd" "node_ok m (nd\<lparr>var_id := v\<rparr>) = node_ok m nd"
  "node_ok m (nd\<lparr>is_no_loop_check := b\<rparr>) = node_ok m nd"
  by (simp_all add: node_ok_def)

lemma node_ok_create:
  "creator_ok create \<Longrightarrow> node_ok m nd \<Longrightarrow> node_ok m (nd\<lparr>node_func := create c n\<rparr>)"
  by (simp add: node_ok_def creator_ok_def)

lemma node_ok_control:
  "node_ok m nd \<Longrightarrow> \<forall>p \<in> set ps. 0 \<le> p \<and> p < int m \<Longrightarrow> node_ok m (nd\<lparr>node_func := Some (Control k ps)\<rparr>)"
  by (simp add: node_ok_def)

lemma ids_okD: "ids_ok m ids \<Longrightarrow> ids u = Some i \<Longrightarrow> i < m"
  by (simp add: ids_ok_def)

lemma ids_ok_upd: "ids_ok m ids \<Longrightarrow> i < m \<Longrightarrow> ids_ok m (ids(u \<mapsto> i))"
  by (simp add: ids_ok_def)

lemma ids_ok_mono: "ids_ok m ids \<Longrightarrow> m \<le> m' \<Longrightarrow> ids_ok m' ids"
  by (auto simp: ids_ok_def intro: less_le_trans)

lemma node_ok_mono: "node_ok m nd \<Longrightarrow> m \<le> m' \<Longrightarrow> node_ok m' nd"
  by (fastforce simp: node_ok_def)

lemma AddSubsequence_ok: "node_ok m nd \<Longrightarrow> j < m \<Longrightarrow> node_ok m (AddSubsequence j t nd)"
  and AddSubsequence_id [simp]: "data_id (AddSubsequence j t nd) = data_id nd"
  by (simp_all add: AddSubsequence_def node_ok_def)

section \<open>JSON\<close>

lemma known_ids_ok:
  assumes "ids_ok m ids" "known_ids ids arr = Some is"
  shows "set is \<subseteq> {..<m}"
  using assms unfolding ids_ok_def known_ids_def by (auto simp: map_filter_def elim!: bind_SomeE)

lemma json_control_ok:
  assumes "ids_ok m ids" "node_ok m nd" "json_control ids f j nd = Some nd'"
  shows "node_ok m nd' \<and> data_id nd' = data_id nd"
proof -
  from assms(3) consider "nd' = nd" | arr ps k where "known_ids ids arr = Some ps"
      "nd' = nd\<lparr>node_func := Some (Control k (map int ps))\<rparr>"
    by (auto simp: json_control_def Let_def elim!: bind_SomeE split: option.splits if_splits)
  then show ?thesis
  proof cases
    case (2 arr ps k)
    from known_ids_ok [OF assms(1) 2(1)] have "\<forall>p \<in> set (map int ps). 0 \<le> p \<and> p < int m" by auto
    from node_ok_control [OF assms(2) this] show ?thesis by (simp add: 2(2))
  qed (use assms(2) in simp)
qed

lemma json_func_ok:
  assumes "creator_ok create" "ids_ok m ids" "node_ok m nd" "json_func create ids j nd = Some nd'"
  shows "node_ok m nd' \<and> data_id nd' = data_id nd"
  using assms(4) json_control_ok [OF assms(2,3)] assms(3) node_ok_create [OF assms(1), of m nd]
  by (auto simp: json_func_def elim!: bind_SomeE split: option.splits if_splits)

lemma json_children_ok:
  assumes "ids_ok m ids" "json_children ids k j = Some is"
  shows "set is \<subseteq> {..<m}"
  using assms(2) by (auto simp: json_children_def elim!: bind_SomeE split: option.splits dest!: known_ids_ok [OF assms(1)])

lemma InitFromJson_ok:
  assumes "creator_ok create" "ids_ok m ids" "node_ok m nd" "InitFromJson create ids j nd = Some nd'"
  shows "node_ok m nd' \<and> data_id nd' = data_id nd"
proof -
  from assms(4) obtain uid tx nd1 v s f where
    nd1: "json_func create ids j (nd\<lparr>node_uid := uid, node_text := tx\<rparr>) = Some nd1"
    and s: "json_children ids ''success'' j = Some s" and f: "json_children ids ''fail'' j = Some f"
    and nd': "nd' = nd1\<lparr>var_id := v, children_true := children_true nd1 @ s,
                 children_false := children_false nd1 @ f\<rparr>"
    unfolding InitFromJson_def by (elim bind_SomeE) (rule that, assumption+, rule sym, erule option.inject [THEN iffD1])
  have "node_ok m nd1 \<and> data_id nd1 = data_id nd"
    using json_func_ok [OF assms(1,2) _ nd1] assms(3) by simp
  with json_children_ok [OF assms(2) s] json_children_ok [OF assms(2) f] show ?thesis
    by (auto simp: nd' node_ok_def)
qed

lemma json_ids_ok:
  assumes "json_ids ns = Some ids"
  shows "ids_ok (Suc (length ns)) ids"
proof -
  obtain us where us: "mapM (\<lambda>n. do { u \<leftarrow> member_value ''uid'' n; GetString u }) ns = Some us"
    and ids: "ids = fold (\<lambda>(i, uid) m. m(uid \<mapsto> i)) (enumerate 1 us) (\<lambda>_. None)"
    using assms by (auto simp: json_ids_def elim!: bind_SomeE)
  have *: "ids_ok k (fold (\<lambda>(i, uid) m. m(uid \<mapsto> i)) es m)" if "\<forall>(i, u) \<in> set es. i < k" "ids_ok k m" for es k m
    using that by (induction es arbitrary: m) (auto simp: ids_ok_upd)
  have "\<forall>(i, u) \<in> set (enumerate 1 us). i < Suc (length ns)"
    using mapM_length [OF us] by (auto simp: in_set_enumerate_eq)
  then show ?thesis unfolding ids by (rule *) (simp add: ids_ok_def)
qed

lemma json_starts_ok:
  "json_starts xs ids = Some (is, ids') \<Longrightarrow> ids_ok m ids \<Longrightarrow> 0 < m \<Longrightarrow> set is \<subseteq> {..<m} \<and> ids_ok m ids'"
proof (induction xs arbitrary: ids "is" ids')
  case (Cons x xs)
  from Cons.prems(1) obtain uid where uid: "GetString x = Some uid" by (auto elim!: bind_SomeE)
  obtain i ids1 where i: "index_or_insert uid ids = (i, ids1)" by fastforce
  from Cons.prems(1) uid i obtain is1 where rest: "json_starts xs ids1 = Some (is1, ids')"
    and "is": "is = i # is1" by (auto elim!: bind_SomeE)
  have "i < m \<and> ids_ok m ids1"
    using i Cons.prems(2,3) by (auto simp: index_or_insert_def ids_ok_upd dest: ids_okD split: option.splits)
  with Cons.IH [OF rest] Cons.prems(3) show ?case by (simp add: "is")
qed simp

lemma json_nodes_ok:
  assumes "creator_ok create" "ids_ok m ids" "json_nodes create ids ns = Some nds" "i < length nds"
  shows "data_id (nds ! i) = Suc i \<and> node_ok m (nds ! i)"
proof -
  have len: "length nds = length ns" using mapM_length assms(3) by (fastforce simp: json_nodes_def)
  with assms(4) have "enumerate 1 ns ! i = (Suc i, ns ! i)" by (simp add: nth_enumerate_eq)
  with mapM_nth [OF assms(3) [unfolded json_nodes_def], of i] len assms(4)
  have "InitFromJson create ids (ns ! i) (new_node_data (Suc i)) = Some (nds ! i)" by simp
  from InitFromJson_ok [OF assms(1,2) _ this] show ?thesis by simp
qed

text \<open>C33. The data of a chart loaded from JSON is well-formed: each node is stored under its identifier, and
  children and arguments of control nodes are nodes of the chart.\<close>

theorem from_json_well_formed:
  assumes create: "creator_ok create" and load: "FromJson create j = Some (True, d)"
  shows "data_ok d"
proof -
  from load obtain nodesArray startArray ids ids' starts nds and start :: node_data where
    ids: "json_ids nodesArray = Some ids" and starts: "json_starts startArray ids = Some (starts, ids')"
    and nds: "json_nodes create ids' nodesArray = Some nds" and d: "node_list d = start # nds"
    and start: "start = (new_node_data 0)\<lparr>children_false := starts, children_true := starts\<rparr>
      \<or> (\<exists>f. start = (new_node_data 0)\<lparr>children_false := starts, children_true := starts, node_func := create [] f\<rparr>)"
    unfolding FromJson_def Let_def
    by (elim bind_SomeE)
      (auto split: option.splits if_splits elim!: bind_SomeE, (rule that, assumption+, simp, blast)+)
  let ?m = "Suc (length nodesArray)"
  have len: "length nds = length nodesArray" using mapM_length nds by (fastforce simp: json_nodes_def)
  have *: "set starts \<subseteq> {..<?m}" "ids_ok ?m ids'"
    using json_starts_ok [OF starts json_ids_ok [OF ids]] by simp_all
  have "node_ok ?m start" "data_id start = 0"
    using start create * by (auto simp: node_ok_def creator_ok_def new_node_data_def)
  with json_nodes_ok [OF create *(2) nds] len show ?thesis
    unfolding data_ok_def d by (auto simp: less_Suc_eq_0_disj)
qed

section \<open>YAML\<close>

lemma yaml_params_ok:
  "ids_ok m ids \<Longrightarrow> yaml_params ids ys = Some (Some ps) \<Longrightarrow> \<forall>p \<in> set ps. 0 \<le> p \<and> p < int m"
  by (induction ys arbitrary: ps) (auto elim!: bind_SomeE split: option.splits simp: ids_ok_def)

lemma yaml_control_ok:
  assumes "ids_ok m ids" "node_ok m nd" "yaml_control ids code nd = Some (ok, nd')"
  shows "node_ok m nd' \<and> data_id nd' = data_id nd"
proof -
  from assms(3) consider "nd' = nd" | ys ps k where "yaml_params ids ys = Some (Some ps)"
      "nd' = nd\<lparr>node_func := Some (Control k ps)\<rparr>"
    by (auto simp: yaml_control_def elim!: bind_SomeE split: option.splits list.splits)
  then show ?thesis
    using node_ok_control [OF assms(2)] yaml_params_ok [OF assms(1)] assms(2) by cases auto
qed

lemma yaml_function_ok:
  assumes "creator_ok create" "node_ok m nd" "yaml_function create d code nd = Some nd'"
  shows "node_ok m nd' \<and> data_id nd' = data_id nd"
  using assms(3,2) node_ok_create [OF assms(1)]
  by (auto simp: yaml_function_def elim!: bind_SomeE split: option.splits)

lemma yaml_code_ok:
  assumes "creator_ok create" "ids_ok m ids" "node_ok m nd" "yaml_code create ids d code nd = Some (ok, nd')"
  shows "node_ok m nd' \<and> data_id nd' = data_id nd"
  using assms(4) yaml_control_ok [OF assms(2,3)] yaml_function_ok [OF assms(1,3)] assms(3)
  by (auto simp: yaml_code_def elim!: bind_SomeE split: if_splits)

lemma InitFromYaml_ok:
  assumes create: "creator_ok create" and ids: "ids_ok m ids" and nd: "node_ok m nd" "data_id nd < m"
    and run: "InitFromYaml create d n (ids, nd) = Some (ok, ids', nd')"
  shows "ids_ok m ids' \<and> node_ok m nd' \<and> data_id nd' = data_id nd"
proof -
  from run obtain uid where uid: "child_val ''uid'' n = Some uid" by (auto simp: InitFromYaml_def elim!: bind_SomeE)
  let ?ids = "ids(uid \<mapsto> data_id nd)"
  have ids': "ids_ok m ?ids" using ids nd(2) by (rule ids_ok_upd)
  show ?thesis
  proof (cases "data_id nd = 0")
    case True
    with run uid ids' nd show ?thesis by (auto simp: InitFromYaml_def)
  next
    case False
    let ?nd0 = "nd\<lparr>node_uid := uid\<rparr>"
    have id0: "data_id (nd\<lparr>node_uid := uid\<rparr>) \<noteq> 0" using False by simp
    from run obtain t nd1 l nd2 c where
      nd1: "(case t of None \<Rightarrow> Some ?nd0 | Some x \<Rightarrow> do { s \<leftarrow> yval x; Some (?nd0\<lparr>node_text := s\<rparr>) }) = Some nd1"
      and nd2: "(case l of None \<Rightarrow> Some nd1
        | Some x \<Rightarrow> do { s \<leftarrow> yval x; Some (nd1\<lparr>is_no_loop_check := (s = ''true'')\<rparr>) }) = Some nd2"
      and code: "(case c of None \<Rightarrow> Some (True, ids(uid \<mapsto> data_id ?nd0), nd2)
        | Some code \<Rightarrow> do { (ok, nd) \<leftarrow> yaml_code create (ids(uid \<mapsto> data_id ?nd0)) d code nd2;
              Some (ok, ids(uid \<mapsto> data_id ?nd0), nd) }) = Some (ok, ids', nd')"
      unfolding InitFromYaml_def Let_def prod.case uid bind.simps if_not_P [OF id0]
      by (elim bind_SomeE) (rule that)
    have "node_ok m ?nd0" "data_id ?nd0 = data_id nd" using nd(1) by simp_all
    with nd1 have "node_ok m nd1" "data_id nd1 = data_id nd" by (auto split: option.splits elim!: bind_SomeE)
    with nd2 have "node_ok m nd2" "data_id nd2 = data_id nd" by (auto split: option.splits elim!: bind_SomeE)
    with code ids' yaml_code_ok [OF create ids', of nd2] show ?thesis
      by (fastforce split: option.splits elim!: bind_SomeE)
  qed
qed

text \<open>The data while it is being built: every node is stored under its identifier and refers to
  nodes below \<open>m\<close>.\<close>

definition nodes_ok :: "nat \<Rightarrow> node_data list \<Rightarrow> bool" where
  "nodes_ok m ns \<longleftrightarrow> (\<forall>i < length ns. data_id (ns ! i) = i \<and> node_ok m (ns ! i))"

lemma nodes_ok_update:
  assumes "nodes_ok m ns" "node_ok m nd" "data_id nd = i"
  shows "nodes_ok m (ns[i := nd])"
  unfolding nodes_ok_def
proof (intro allI impI)
  fix j assume "j < length (ns[i := nd])"
  with assms show "data_id (ns[i := nd] ! j) = j \<and> node_ok m (ns[i := nd] ! j)"
    by (cases "j = i") (simp_all add: nodes_ok_def)
qed

lemma yaml_new_nodes:
  assumes "foldM yaml_new_node (enumerate k ys) (ids, ns) = Some (ids', ns')" "length ns = k"
    and "nodes_ok m ns" "ids_ok m ids" "k + length ys \<le> m"
  shows "length ns' = k + length ys \<and> nodes_ok m ns' \<and> ids_ok m ids'"
  using assms
proof (induction ys arbitrary: k ids ns)
  case (Cons y ys)
  from Cons.prems(1) obtain s1 where s1: "yaml_new_node (k, y) (ids, ns) = Some s1"
    and rest: "foldM yaml_new_node (enumerate (Suc k) ys) s1 = Some (ids', ns')"
    by (auto elim!: bind_SomeE)
  obtain ids1 nd where "s1 = (ids1, ns @ [nd])" "data_id nd = k" "node_ok m nd" "ids_ok m ids1"
    using s1 Cons.prems(4,5) ids_ok_upd [OF Cons.prems(4), of k]
    by (auto simp: yaml_new_node_def elim!: bind_SomeE split: option.splits)
  moreover from this have "nodes_ok m (ns @ [nd])"
    using Cons.prems(2,3) by (auto simp: nodes_ok_def nth_append)
  ultimately show ?case using Cons.IH [of "Suc k" ids1 "ns @ [nd]"] rest Cons.prems(2,5) by simp
qed simp

lemma yaml_init_nodes_ok:
  assumes "creator_ok create" "yaml_init_nodes create k ys (ids, d) = Some (ok, ids', d')"
    and "nodes_ok m (node_list d)" "ids_ok m ids" "length (node_list d) = m"
  shows "nodes_ok m (node_list d') \<and> ids_ok m ids' \<and> length (node_list d') = m"
  using assms(2-5)
proof (induction ys arbitrary: k ids d)
  case (Cons y ys)
  from Cons.prems(1) obtain nd ok1 ids1 nd1 where nd: "GetNodeData k d = Some nd"
    and init: "InitFromYaml create d y (ids, nd) = Some (ok1, ids1, nd1)"
    and rest: "(if ok1 then yaml_init_nodes create (k + 1) ys (ids1, d\<lparr>node_list := (node_list d)[k := nd1]\<rparr>)
      else Some (False, ids1, d\<lparr>node_list := (node_list d)[k := nd1]\<rparr>)) = Some (ok, ids', d')"
    by (auto simp: Let_def elim!: bind_SomeE)
  from nd Cons.prems(2,4) have k: "k < m" "data_id nd = k" "node_ok m nd"
    by (auto simp: GetNodeData_def nodes_ok_def split: if_splits)
  from InitFromYaml_ok [OF assms(1) Cons.prems(3) k(3) _ init] k
  have "ids_ok m ids1" "node_ok m nd1" "data_id nd1 = k" by auto
  then have "nodes_ok m (node_list (d\<lparr>node_list := (node_list d)[k := nd1]\<rparr>))"
    using nodes_ok_update [OF Cons.prems(2)] by simp
  with Cons.IH [of "k + 1" ids1] \<open>ids_ok m ids1\<close> rest Cons.prems(4) show ?case by (auto split: if_splits)
qed simp

lemma connect_ok:
  assumes "connect ids cs ns = Some (Inr ns')" "ids_ok m ids" "nodes_ok m ns" "length ns = m"
  shows "nodes_ok m ns' \<and> length ns' = m"
  using assms
proof (induction cs arbitrary: ns)
  case (Cons c cs)
  from Cons.prems(1) obtain v i j type where "i < length ns" "ids v = Some j"
    and rest: "connect ids cs (ns[i := AddSubsequence j type (ns ! i)]) = Some (Inr ns')"
    by (auto elim!: bind_SomeE split: sum.splits if_splits)
  moreover from this(2) have "j < m" using Cons.prems(2) by (rule ids_okD [rotated])
  moreover note Cons.prems(3,4)
  ultimately have "nodes_ok m (ns[i := AddSubsequence j type (ns ! i)])"
    by (intro nodes_ok_update) (auto simp: nodes_ok_def AddSubsequence_ok)
  with Cons.IH rest Cons.prems(2,4) show ?case by simp
qed simp

lemma yaml_connectors_ok:
  assumes run: "yaml_connectors ids doc d = Some (Inr d')" and ids: "ids_ok m ids"
    and d: "nodes_ok m (node_list d)" "length (node_list d) = m"
  shows "nodes_ok m (node_list d') \<and> length (node_list d') = m"
proof -
  from run consider "d' = d" | cs r where "connect ids cs (node_list d) = Some r"
      "map_sum id (\<lambda>ns. d\<lparr>node_list := ns\<rparr>) r = Inr d'"
    by (auto simp: yaml_connectors_def elim!: bind_SomeE split: option.splits)
  then show ?thesis
  proof cases
    case (2 cs r)
    then obtain ns where "r = Inr ns" "d' = d\<lparr>node_list := ns\<rparr>" by (cases r) auto
    with connect_ok [OF _ ids d] 2(1) show ?thesis by simp
  qed (use d in simp)
qed

text \<open>C34. The data of a chart loaded from YAML is well-formed too, on every path on which the loader
  returns.\<close>

theorem from_yaml_well_formed:
  assumes create: "creator_ok create" and load: "FromYaml create doc = Some (Inr (True, d))"
  shows "data_ok d"
proof -
  from load obtain p fullPath vars d1 nodesNode ids nds ok ids2 d2 where
    nds: "foldM yaml_new_node (enumerate 0 (case nodesNode of None \<Rightarrow> [] | Some v \<Rightarrow> ychildren v)) (\<lambda>_. None, [])
        = Some (ids, nds)"
    and init: "yaml_init_nodes create 0 (case nodesNode of None \<Rightarrow> [] | Some v \<Rightarrow> ychildren v)
        (ids, d1\<lparr>node_list := nds\<rparr>) = Some (ok, ids2, d2)"
    and rest: "(if \<not> ok then Some (Inr (False, d2))
        else do { r \<leftarrow> yaml_connectors ids2 doc d2; Some (map_sum id (Pair True) r) }) = Some (Inr (True, d))"
    unfolding FromYaml_def Let_def by (elim bind_SomeE) (auto split: option.splits elim!: bind_SomeE)
  let ?ys = "case nodesNode of None \<Rightarrow> [] | Some v \<Rightarrow> ychildren v"
  let ?m = "length ?ys"
  have 1: "length nds = ?m" "nodes_ok ?m nds" "ids_ok ?m ids"
    using yaml_new_nodes [OF nds, of ?m] by (auto simp: nodes_ok_def ids_ok_def)
  with yaml_init_nodes_ok [OF create init, of ?m]
  have 2: "nodes_ok ?m (node_list d2)" "ids_ok ?m ids2" "length (node_list d2) = ?m" by auto
  from rest obtain r where "yaml_connectors ids2 doc d2 = Some r" "map_sum id (Pair True) r = Inr (True, d)"
    by (auto split: if_splits elim!: bind_SomeE)
  then have "yaml_connectors ids2 doc d2 = Some (Inr d)" by (cases r) auto
  from yaml_connectors_ok [OF this 2(2,1,3)] show ?thesis by (simp add: data_ok_def nodes_ok_def)
qed

section \<open>Patching\<close>

lemma yaml_uids:
  "yaml_control ids code nd = Some (ok, nd') \<Longrightarrow> node_uid nd' = node_uid nd"
  "yaml_function create d code nd = Some nd' \<Longrightarrow> node_uid nd' = node_uid nd"
  "yaml_code create ids d code nd = Some (ok, nd') \<Longrightarrow> node_uid nd' = node_uid nd"
proof -
  show control: "yaml_control ids code nd = Some (ok, nd') \<Longrightarrow> node_uid nd' = node_uid nd" for ids code nd ok nd'
    by (auto simp: yaml_control_def elim!: bind_SomeE split: option.splits list.splits)
  show func: "yaml_function create d code nd = Some nd' \<Longrightarrow> node_uid nd' = node_uid nd" for create d code nd nd'
    by (auto simp: yaml_function_def elim!: bind_SomeE split: option.splits)
  show "yaml_code create ids d code nd = Some (ok, nd') \<Longrightarrow> node_uid nd' = node_uid nd"
    using control func by (fastforce simp: yaml_code_def elim!: bind_SomeE split: if_splits)
qed

lemma InitFromYaml_uid:
  assumes "InitFromYaml create d n (ids, nd) = Some (ok, ids', nd')" "child_val ''uid'' n = Some uid"
  shows "node_uid nd' = uid"
  using assms yaml_uids(3)
  by (fastforce simp: InitFromYaml_def Let_def elim!: bind_SomeE split: option.splits if_splits)

lemma GetNodeData_uid_Some:
  assumes "GetNodeData_uid uid d = Some i"
  shows "i < length (node_list d) \<and> node_uid (node_list d ! i) = uid"
proof -
  from assms obtain nd where "List.find (\<lambda>(i, nd). node_uid nd = uid) (enumerate 0 (node_list d)) = Some (i, nd)"
    by (auto simp: GetNodeData_uid_def)
  then obtain k where "k < length (enumerate 0 (node_list d))" "enumerate 0 (node_list d) ! k = (i, nd)"
    "node_uid nd = uid" by (auto simp: find_Some_iff)
  then show ?thesis by (auto simp: nth_enumerate_eq)
qed

lemma data_ok_nodes: "data_ok d = nodes_ok (length (node_list d)) (node_list d)"
  by (simp add: data_ok_def nodes_ok_def)

lemma ids_of_nodes_ok: "data_ok d \<Longrightarrow> ids_ok (length (node_list d)) (ids_of_nodes (node_list d))"
proof -
  have "ids_ok m (fold (\<lambda>nd ids. if ids (node_uid nd) = None then ids(node_uid nd \<mapsto> data_id nd) else ids) ns ids)"
    if "\<forall>nd \<in> set ns. data_id nd < m" "ids_ok m ids" for m ns ids
    using that by (induction ns arbitrary: ids) (auto simp: ids_ok_upd)
  moreover assume "data_ok d"
  then have "\<forall>nd \<in> set (node_list d). data_id nd < length (node_list d)"
    by (auto simp: data_ok_def in_set_conv_nth)
  moreover have "ids_ok m (\<lambda>_. None)" for m by (simp add: ids_ok_def)
  ultimately show ?thesis unfolding ids_of_nodes_def by blast
qed

text \<open>What a step of a patch keeps: the data is well-formed and no node moves or changes its uid.\<close>

definition patch_keeps :: "id_map \<times> chart_data \<Rightarrow> id_map \<times> chart_data \<Rightarrow> bool" where
  "patch_keeps s t \<longleftrightarrow>
     (data_ok (snd s) \<longrightarrow> ids_ok (length (node_list (snd s))) (fst s) \<longrightarrow>
      data_ok (snd t) \<and> ids_ok (length (node_list (snd t))) (fst t)
      \<and> (\<exists>us. map node_uid (node_list (snd t)) = map node_uid (node_list (snd s)) @ us))"

lemma patch_keeps_refl: "patch_keeps s s"
  by (simp add: patch_keeps_def)

lemma patch_keeps_trans: "patch_keeps s t \<Longrightarrow> patch_keeps t u \<Longrightarrow> patch_keeps s u"
  unfolding patch_keeps_def by (metis append.assoc)

lemma patch_add_keeps:
  assumes "patch_add n s = Some t"
  shows "patch_keeps s t"
proof -
  obtain ids d where s: "s = (ids, d)" by fastforce
  from assms s consider "t = s" | uid where "t = (ids(uid \<mapsto> length (node_list d)),
      d\<lparr>node_list := node_list d @ [(new_node_data (length (node_list d)))\<lparr>node_uid := uid\<rparr>]\<rparr>)"
    by (auto simp: patch_add_def GetNodeCount_def Let_def elim!: bind_SomeE split: option.splits if_splits)
  then show ?thesis
  proof cases
    case (2 uid)
    have "ids_ok m ids \<Longrightarrow> ids_ok (Suc m) (ids(uid \<mapsto> m))" for m
      by (rule ids_ok_upd) (erule ids_ok_mono, simp_all)
    then show ?thesis unfolding patch_keeps_def s 2
      by (auto simp: data_ok_def nth_append less_Suc_eq intro: node_ok_mono)
  qed (simp add: patch_keeps_refl)
qed

lemma patch_init_keeps:
  assumes create: "creator_ok create" and run: "patch_init create n (e, s) = Some (e', t)"
  shows "patch_keeps s t"
proof -
  obtain ids d where s: "s = (ids, d)" by fastforce
  from run s obtain u where u: "find_child ''uid'' n = Some u"
    by (auto simp: patch_init_def elim!: bind_SomeE)
  consider "t = s" | x uid i nd ok ids1 nd1 where "find_child ''uid'' n = Some (Some x)" "yval x = Some uid"
      "GetNodeData_uid uid d = Some i" "GetNodeData i d = Some nd"
      "InitFromYaml create d n (ids, nd\<lparr>children_true := [], children_false := []\<rparr>) = Some (ok, ids1, nd1)"
      "t = (ids1, d\<lparr>node_list := (node_list d)[i := nd1]\<rparr>)"
  proof (cases u)
    case (Some x)
    with run s u obtain uid where uid: "yval x = Some uid" by (auto simp: patch_init_def elim!: bind_SomeE)
    show ?thesis
    proof (cases "GetNodeData_uid uid d")
      case (Some i)
      with run s u \<open>u = Some x\<close> uid obtain nd r where "GetNodeData i d = Some nd"
        and r: "InitFromYaml create d n (ids, nd\<lparr>children_true := [], children_false := []\<rparr>) = Some r"
        and t: "(case r of (ok, ids, nd) \<Rightarrow> (e \<or> \<not> ok, ids, d\<lparr>node_list := (node_list d)[i := nd]\<rparr>)) = (e', t)"
        by (auto simp: patch_init_def elim!: bind_SomeE)
      obtain ok ids1 nd1 where "r = (ok, ids1, nd1)" by (cases r)
      with t r Some u uid \<open>u = Some x\<close> \<open>GetNodeData i d = Some nd\<close> show ?thesis by (intro that(2)) auto
    qed (use run s u \<open>u = Some x\<close> uid that(1) in \<open>auto simp: patch_init_def\<close>)
  qed (use run s u that(1) in \<open>auto simp: patch_init_def\<close>)
  then show ?thesis
  proof cases
    case (2 x uid i nd ok ids1 nd1)
    let ?nd = "nd\<lparr>children_true := [], children_false := []\<rparr>" and ?m = "length (node_list d)"
    have i: "i < ?m" "node_uid (node_list d ! i) = uid" "nd = node_list d ! i"
      using GetNodeData_uid_Some [OF 2(3)] 2(4) by (auto simp: GetNodeData_def)
    have uid1: "node_uid nd1 = uid" using InitFromYaml_uid [OF 2(5)] 2(1,2) by (simp add: child_val_def)
    show ?thesis unfolding patch_keeps_def s 2(6) fst_conv snd_conv
    proof (intro impI conjI)
      assume d: "data_ok d" and ids: "ids_ok ?m ids"
      have nd: "node_ok ?m ?nd" "data_id ?nd = i" using d i by (auto simp: data_ok_def node_ok_def)
      from InitFromYaml_ok [OF create ids nd(1) _ 2(5)] nd(2) i(1)
      have 1: "ids_ok ?m ids1" "node_ok ?m nd1" "data_id nd1 = i" by auto
      then show "data_ok (d\<lparr>node_list := (node_list d)[i := nd1]\<rparr>)"
        using nodes_ok_update d by (simp add: data_ok_nodes)
      show "ids_ok (length (node_list (d\<lparr>node_list := (node_list d)[i := nd1]\<rparr>))) ids1" using 1 by simp
      have "map node_uid ((node_list d)[i := nd1]) = map node_uid (node_list d)"
        using i(1,2) uid1 by (simp add: map_update list_update_same_conv)
      then show "\<exists>us. map node_uid (node_list (d\<lparr>node_list := (node_list d)[i := nd1]\<rparr>)) = map node_uid (node_list d) @ us"
        by simp
    qed
  qed (simp add: patch_keeps_refl)
qed

lemma connect_uids: "connect ids cs ns = Some (Inr ns') \<Longrightarrow> map node_uid ns' = map node_uid ns"
proof (induction cs arbitrary: ns)
  case (Cons c cs)
  from Cons.prems obtain i j type where i: "i < length ns"
    and rest: "connect ids cs (ns[i := AddSubsequence j type (ns ! i)]) = Some (Inr ns')"
    by (auto elim!: bind_SomeE split: sum.splits if_splits)
  have "node_uid (AddSubsequence j type (ns ! i)) = node_uid (ns ! i)" by (simp add: AddSubsequence_def)
  with Cons.IH [OF rest] i show ?case by (simp add: map_update list_update_same_conv)
qed simp

text \<open>C35. Patching a chart in place keeps its data well-formed, and every node keeps its identifier and
  uid: the nodes that are new are put behind the others.\<close>

theorem patch_well_formed:
  assumes create: "creator_ok create" and d: "data_ok d"
    and run: "ChartData_PatchFromYaml create doc d = Some (Inr (ok, d'))"
  shows "data_ok d' \<and> (\<exists>us. map node_uid (node_list d') = map node_uid (node_list d) @ us)"
proof -
  from run obtain ns ids1 d1 e ids2 d2 r where 1: "foldM patch_add ns (ids_of_nodes (node_list d), d) = Some (ids1, d1)"
    and 2: "foldM (patch_init create) ns (False, ids1, d1) = Some (e, ids2, d2)"
    and r: "yaml_connectors ids2 doc d2 = Some r" "map_sum id (Pair (\<not> e)) r = Inr (ok, d')"
    unfolding ChartData_PatchFromYaml_def Let_def by (elim bind_SomeE) (auto elim!: bind_SomeE)
  have "patch_keeps (ids_of_nodes (node_list d), d) (ids1, d1)"
    by (rule foldM_rel [OF patch_keeps_refl patch_keeps_trans _ 1]) (auto intro: patch_add_keeps)
  moreover have "patch_keeps (snd (False, ids1, d1)) (snd (e, ids2, d2))"
    by (rule foldM_rel [where R = "\<lambda>s t. patch_keeps (snd s) (snd t)", OF _ _ _ 2])
      (auto intro: patch_keeps_refl patch_keeps_trans patch_init_keeps [OF create])
  ultimately have "patch_keeps (ids_of_nodes (node_list d), d) (ids2, d2)"
    using patch_keeps_trans by simp
  then obtain us where k: "data_ok d2" "ids_ok (length (node_list d2)) ids2"
    "map node_uid (node_list d2) = map node_uid (node_list d) @ us"
    using d ids_of_nodes_ok [OF d] by (auto simp: patch_keeps_def)
  from r have c: "yaml_connectors ids2 doc d2 = Some (Inr d')" by (cases r) auto
  from yaml_connectors_ok [OF this k(2)] k(1) have "data_ok d'" by (simp add: data_ok_nodes)
  moreover have "map node_uid (node_list d') = map node_uid (node_list d2)"
  proof -
    from c consider "d' = d2" | cs r where "connect ids2 cs (node_list d2) = Some r"
        "map_sum id (\<lambda>ns. d2\<lparr>node_list := ns\<rparr>) r = Inr d'"
      by (auto simp: yaml_connectors_def elim!: bind_SomeE split: option.splits)
    then show ?thesis
    proof cases
      case (2 cs r)
      then obtain ns where "r = Inr ns" "d' = d2\<lparr>node_list := ns\<rparr>" by (cases r) auto
      with connect_uids 2(1) show ?thesis by simp
    qed simp
  qed
  ultimately show ?thesis using k(3) by auto
qed

section \<open>An example\<close>

definition ex_create :: creator where
  "ex_create code name = Some (Script code name)"

definition ex_json :: json where
  "ex_json = JObj [(''path'', JStr ''A''), (''start'', JArr [JStr ''u1'']),
     (''nodes'', JArr [JObj [(''uid'', JStr ''u1''), (''type'', JStr ''function''), (''funcName'', JStr ''f''),
                            (''success'', JArr [JStr ''u2''])],
                      JObj [(''uid'', JStr ''u2''), (''type'', JStr ''control''), (''funcName'', JStr ''stop_node''),
                            (''param'', JArr [JStr ''u1''])]])]"

lemma from_json_well_formed_witness:
  "case FromJson ex_create ex_json of Some (True, d) \<Rightarrow> data_ok d \<and> length (node_list d) = 3 | _ \<Rightarrow> False"
proof -
  have "creator_ok ex_create" by (simp add: creator_ok_def ex_create_def)
  note ok = from_json_well_formed [OF this]
  have "case FromJson ex_create ex_json of Some (b, d) \<Rightarrow> b \<and> length (node_list d) = 3 | None \<Rightarrow> False"
    by code_simp
  then obtain d where d: "FromJson ex_create ex_json = Some (True, d)" "length (node_list d) = 3"
    by (auto split: option.splits)
  with ok [OF d(1)] show ?thesis by simp
qed

end
