(* ===== verification/Example_Worlds.thy ===== *)
theory Example_Worlds
  imports Timer_World Control_Nodes Loader_Props
begin

text \<open>
  Concrete worlds on which the properties are evaluated: a small chart whose second node waits on a
  timer inside a subchart, and a host with a few scripts, run through the functions of the module.
\<close>

section \<open>A host\<close>

text \<open>The state of the scripts is a log of what they did.\<close>

definition ex_node :: "nat \<Rightarrow> nat list \<Rightarrow> nat list \<Rightarrow> node_func option \<Rightarrow> node_data" where
  "ex_node i f s fn = (new_node_data i)\<lparr>children_false := f, children_true := s, node_func := fn\<rparr>"

definition ex_script :: "string \<Rightarrow> node_func option" where
  "ex_script name = Some (Script [] name)"

fun ex_func :: "string \<Rightarrow> string \<Rightarrow> nat \<Rightarrow> nat list \<Rightarrow> nat list script" where
  "ex_func code name self e =
     (if name = ''wait'' then Call (Py_wait 1) (e @ [1]) (\<lambda>r e. Ret (VBool True) (e @ [2]))
      else if name = ''sub'' then Call (Py_call_sub ''inner'' self []) (e @ [3]) (\<lambda>r e. Ret (VBool True) (e @ [4]))
      else if name = ''fail'' then Raise (e @ [5])
      else if name = ''no'' then Ret (VBool False) (e @ [6])
      else Ret (VBool True) (e @ [8]))"

definition ex_host :: "nat list host" where
  "ex_host = \<lparr>h_func = ex_func, h_callable = (\<lambda>_. False), h_call = (\<lambda>_ _ e. Ret VNone e),
     h_float = (\<lambda>_. None), h_str = (\<lambda>_. ''-''), h_depth = 3\<rparr>"

definition ex_outer :: chart_data where
  "ex_outer = new_chart_data\<lparr>chart_name := ''outer'',
     node_list := [ex_node 0 [1] [1] None, ex_node 1 [] [2, 3] (ex_script ''yes''),
       ex_node 2 [] [] (ex_script ''sub''), ex_node 3 [] [1] (ex_script ''no'')]\<rparr>"

definition ex_inner :: chart_data where
  "ex_inner = new_chart_data\<lparr>chart_name := ''inner'',
     node_list := [ex_node 0 [1] [1] None, ex_node 1 [] [] (ex_script ''wait'')]\<rparr>"

definition ex_world :: "nat list world" where
  "ex_world = (new_manager [])\<lparr>w_datas := [0 \<mapsto> ex_outer, 1 \<mapsto> ex_inner],
     w_chart_dict := [''outer'' \<mapsto> 0, ''inner'' \<mapsto> 1]\<rparr>"

text \<open>An agent for the object 7 with the outer chart attached and started.\<close>

definition ex_started :: "nat list world option" where
  "ex_started = do { (_, w) \<leftarrow> module_call ex_host (Py_register 7 100) ex_world;
     (_, w) \<leftarrow> module_call ex_host (Py_attach 7 ''outer'' None) w;
     (_, w) \<leftarrow> module_call ex_host (Py_start 7 None) w;
     Some w }"

definition ex_running :: "nat list world option" where
  "ex_running = do { w \<leftarrow> ex_started; Manager_Step ex_host 1 w }"

lemma ex_host_calls: "host_calls_only (\<lambda>a. a \<noteq> Py_suspend_node) ex_host"
  by (simp add: host_calls_only_def ex_host_def)

lemma ex_started_Some: obtains w where "ex_started = Some w"
proof -
  have "\<not> Option.is_none ex_started" by code_simp
  then show ?thesis using that by (auto simp: Option.is_none_def)
qed

section \<open>A world with a subchart\<close>

definition ex_chart :: "nat \<Rightarrow> nptr option \<Rightarrow> node list \<Rightarrow> chart" where
  "ex_chart d owner ns = \<lparr>owner_node = owner, chart_data_ptr = d, chart_agent = Some 0,
     chart_running = True, nodes = ns, py_variables = None, py_call = VNone, py_init_table = None\<rparr>"

definition ex_tree :: "nat list world" where
  "ex_tree = ex_world\<lparr>w_charts :=
     [0 \<mapsto> ex_chart 0 None [new_node (ex_node 0 [1] [1] None),
          (new_node (ex_node 1 [0] [] None))\<lparr>status := Running, attacher := Some (Subchart 1)\<rparr>],
      1 \<mapsto> ex_chart 1 (Some (NP 0 1)) [new_node (ex_node 0 [] [] None)
          \<lparr>status := Running, attacher := Some (NodeTimer 1000)\<rparr>]],
     w_datas := [0 \<mapsto> new_chart_data\<lparr>node_list := [ex_node 0 [1] [1] None, ex_node 1 [0] [] None]\<rparr>,
       1 \<mapsto> new_chart_data\<lparr>node_list := [ex_node 0 [] [] None]\<rparr>],
     w_cur_node := (\<lambda>i. if i = 0 then Some (NP 0 0) else None), w_next_chart := 2\<rparr>"

lemma ex_tree_charts: "w_charts ex_tree c = Some ch \<Longrightarrow> c = 0 \<or> c = 1"
  by (auto simp: ex_tree_def split: if_splits)

lemma ex_tree_wf: "wf_world ex_tree"
  unfolding wf_world_def
proof
  have sub: "c = 1 \<and> np_chart n = 0" if "subchart_of n ex_tree = Some c" for n c
  proof -
    have "np_chart n = 0 \<or> np_chart n = 1"
      using that by (auto simp: subchart_of_def get_node_def ex_tree_def split: if_splits option.splits)
    moreover have "np_index n < 2" "np_chart n = 1 \<Longrightarrow> np_index n = 0"
      using that by (auto simp: subchart_of_def get_node_def ex_tree_def ex_chart_def
          split: if_splits option.splits)
    then have "np_index n = 0 \<or> np_index n = 1" by arith
    ultimately show ?thesis
      using that by (auto simp: subchart_of_def get_node_def ex_tree_def ex_chart_def new_node_def
          split: if_splits option.splits)
  qed
  have charts: "w_charts ex_tree c \<noteq> None \<longleftrightarrow> c = 0 \<or> c = Suc 0" for c by (simp add: ex_tree_def)
  show "wf_charts ex_tree"
    unfolding wf_charts_def
  proof (intro conjI allI impI)
    fix c ch assume "w_charts ex_tree c = Some ch"
    then show "c < w_next_chart ex_tree"
      "\<exists>d. w_datas ex_tree (chart_data_ptr ch) = Some d
        \<and> (\<forall>vs. py_variables ch = Some vs \<longrightarrow> variable_count d \<le> length vs)"
      by (auto simp: ex_tree_def ex_chart_def new_chart_data_def split: if_splits)
  next
    fix n c assume "subchart_of n ex_tree = Some c"
    from sub [OF this] show "np_chart n < c" "w_charts ex_tree c \<noteq> None" using charts [of c] by simp_all
  qed
  show "cs_inv (w_cs ex_tree)"
    by (simp add: ex_tree_def ex_world_def new_manager_def cs_inv_def empty_cstore_def rings_def)
qed

section \<open>Witnesses of the properties on stopping\<close>

theorem chart_stop_stops_witness:
  "\<exists>w'. Chart_Stop 0 ex_tree = Some w' \<and> chart_stopped 0 w' \<and> wf_world w' \<and> shape w' = shape ex_tree"
  by (rule chart_stop_stops [OF ex_tree_wf]) (simp add: ex_tree_def)

theorem stop_flow_stops_witness:
  "\<exists>w'. Manager_StopFlow [1, 5] ex_tree = Some (True, w') \<and> node_stopped (NP 0 0) w' \<and> node_stopped (NP 0 1) w'"
proof -
  have cur: "GetCurrentNode ex_tree = Some (NP 0 0)"
    by (simp add: GetCurrentNode_def ex_tree_def ex_world_def new_manager_def)
  have ch: "w_charts ex_tree (np_chart (NP 0 0)) = Some (ex_chart 0 None [new_node (ex_node 0 [1] [1] None),
      (new_node (ex_node 1 [0] [] None))\<lparr>status := Running, attacher := Some (Subchart 1)\<rparr>])"
    by (simp add: ex_tree_def)
  have data: "data_of (NP 0 x) ex_tree = (if x = 0 then Some (ex_node 0 [1] [1] None)
      else if x = 1 then Some (ex_node 1 [0] [] None) else None)" for x
    by (auto simp: data_of_def chart_data_of_def GetNodeData_def ex_tree_def ex_chart_def new_chart_data_def less_Suc_eq)
  have flow: "flow_edges 0 ex_tree = {(0, 1), (1, 0)}"
    by (auto simp: flow_edges_def data ex_node_def new_node_data_def split: if_splits)
  have E: "(1, 0) \<in> (flow_edges 0 ex_tree)\<^sup>*" by (rule r_into_rtrancl) (simp add: flow)
  obtain w' where w': "Manager_StopFlow [1, 5] ex_tree = Some (True, w')"
    and stopped: "\<forall>i \<in> reachable_from (flow_edges 0 ex_tree) {nat i | i. i \<in> set [1, 5] \<and> i < int 2}.
      node_stopped (NP 0 i) w'"
    using stop_flow_stops [OF ex_tree_wf cur ch, of "[1, 5]"]
    by (auto simp: Let_def ex_chart_def data less_Suc_eq numeral_2_eq_2 new_node_def ex_node_def new_node_data_def)
  have "1 \<in> reachable_from (flow_edges 0 ex_tree) {nat i | i. i \<in> set [1, 5] \<and> i < int 2}"
    "0 \<in> reachable_from (flow_edges 0 ex_tree) {nat i | i. i \<in> set [1, 5] \<and> i < int 2}"
    using E by (auto simp: reachable_from_def intro!: exI [of _ "Suc 0"] exI [of _ "1 :: int"])
  with w' stopped show ?thesis by blast
qed

section \<open>Witnesses of the invariants of the engine\<close>

lemma ex_flow: "case ex_started of None \<Rightarrow> False | Some w \<Rightarrow>
    (case RunFlow ex_host (NP 0 0) w of None \<Rightarrow> False | Some (b, w') \<Rightarrow> b \<and> w_env w' = [8, 3, 1, 2, 4, 6])"
  by code_simp

lemma ex_flow_Some:
  obtains w w' where "ex_started = Some w" "RunFlow ex_host (NP 0 0) w = Some (True, w')"
    "w_env w' = [8, 3, 1, 2, 4, 6]"
  using ex_flow by (auto split: option.splits)

theorem run_flow_frame_witness:
  "\<exists>w w'. ex_started = Some w \<and> RunFlow ex_host (NP 0 0) w = Some (True, w') \<and> engine_frame w w'"
proof -
  obtain w w' where "ex_started = Some w" "RunFlow ex_host (NP 0 0) w = Some (True, w')"
    by (rule ex_flow_Some)
  moreover from run_flow_frame [OF this(2)] have "engine_frame w w'" .
  ultimately show ?thesis by blast
qed

lemma ex_world_reg: "reg_inv ex_world"
  by (simp add: reg_inv_def ex_world_def new_manager_def view_def dying_def empty_dying_def)

theorem module_call_registry_witness:
  "\<exists>w. exec_api ex_host (top_knot ex_host) (Py_register 7 100) ex_world = Some (RAgent 0, w) \<and> reg_inv w"
proof -
  have "case exec_api ex_host (top_knot ex_host) (Py_register 7 100) ex_world of
      None \<Rightarrow> False | Some (r, w) \<Rightarrow> r = RAgent 0" by code_simp
  then obtain w where w: "exec_api ex_host (top_knot ex_host) (Py_register 7 100) ex_world = Some (RAgent 0, w)"
    by (auto split: option.splits)
  with module_call_registry [OF ex_world_reg w] show ?thesis by blast
qed

lemma ex_world_safe: "safe ex_world"
  by (simp add: safe_def ex_world_def new_manager_def cs_inv_def empty_cstore_def rings_def contained_def)

lemma ex_call_safe: "safe w \<Longrightarrow> a \<noteq> Py_suspend_node \<Longrightarrow> module_call ex_host a w = Some (r, w') \<Longrightarrow> safe w'"
  using safe.api_respects [OF ex_host_calls, of a w r w'] by (simp add: module_call_def safe_rel_def)

lemma ex_started_safe: "ex_started = Some w \<Longrightarrow> safe w"
proof -
  assume "ex_started = Some w"
  then obtain r1 w1 r2 w2 r3 where "module_call ex_host (Py_register 7 100) ex_world = Some (r1, w1)"
    "module_call ex_host (Py_attach 7 ''outer'' None) w1 = Some (r2, w2)"
    "module_call ex_host (Py_start 7 None) w2 = Some (r3, w)"
    by (auto simp: ex_started_def elim!: bind_SomeE)
  then show "safe w" using ex_world_safe ex_call_safe by (blast)
qed

theorem run_flow_containers_witness:
  "\<exists>w w'. ex_started = Some w \<and> RunFlow ex_host (NP 0 0) w = Some (True, w') \<and> safe w'"
proof -
  obtain w w' where w: "ex_started = Some w" and run: "RunFlow ex_host (NP 0 0) w = Some (True, w')"
    by (rule ex_flow_Some)
  from run_flow_containers [OF ex_host_calls ex_started_safe [OF w] run] w run show ?thesis by blast
qed

section \<open>A host program\<close>

text \<open>It loads a chart from a JSON text, registers an agent that runs it and makes a step.\<close>

definition ex_loaded :: "nat list world option" where
  "ex_loaded = do {
     let w = (new_manager [] :: nat list world);
     r \<leftarrow> ImportFile ex_create (\<lambda>_. Inr (JArr [ex_json])) (\<lambda>_. YError) (\<lambda>_. None) [0] ''[]''
            (w_chart_dict w, w_datas w);
     case r of Inl _ \<Rightarrow> None
     | Inr (k, dict, h) \<Rightarrow> Some (w\<lparr>w_chart_dict := dict, w_datas := h\<rparr>) }"

definition ex_program :: "nat list world option" where
  "ex_program = do {
     w \<leftarrow> ex_loaded;
     (_, w) \<leftarrow> module_call ex_host (Py_register 7 100) w;
     (_, w) \<leftarrow> module_call ex_host (Py_attach 7 ''A'' None) w;
     (_, w) \<leftarrow> module_call ex_host (Py_start 7 None) w;
     Manager_Step ex_host 1 w }"

lemma ex_program_reachable:
  assumes "ex_program = Some w"
  shows "reachable (\<lambda>a. a \<noteq> Py_suspend_node) ex_host w"
proof -
  let ?r = "reachable (\<lambda>a. a \<noteq> Py_suspend_node) ex_host"
  from assms obtain w0 r1 w1 r2 w2 r3 w3 where w0: "ex_loaded = Some w0"
    and "module_call ex_host (Py_register 7 100) w0 = Some (r1, w1)"
    "module_call ex_host (Py_attach 7 ''A'' None) w1 = Some (r2, w2)"
    "module_call ex_host (Py_start 7 None) w2 = Some (r3, w3)" "Manager_Step ex_host 1 w3 = Some w"
    unfolding ex_program_def by (elim bind_SomeE) (auto elim!: bind_SomeE)
  note run = this(2-)
  have "?r w0"
    using w0 unfolding ex_loaded_def Let_def
    by (auto elim!: bind_SomeE split: sum.splits
        intro!: reachable.step [OF reachable_new] host_step.load)
  then have "?r w1" by (rule reachable.step) (rule host_step.call [OF _ run(1)], simp)
  then have "?r w2" by (rule reachable.step) (rule host_step.call [OF _ run(2)], simp)
  then have "?r w3" by (rule reachable.step) (rule host_step.call [OF _ run(3)], simp)
  then show "?r w" by (rule reachable.step) (rule host_step.step [OF run(4)])
qed

lemma ex_program_Some: obtains w where "ex_program = Some w" "w_env w = [8]" "w_frame w = 1"
proof -
  have "case ex_program of None \<Rightarrow> False | Some w \<Rightarrow> w_env w = [8] \<and> w_frame w = 1" by code_simp
  then show ?thesis using that by (auto split: option.splits)
qed

theorem reachable_registry_witness:
  "\<exists>w. ex_program = Some w \<and> w_env w = [8] \<and> reg_inv w"
  using reachable_registry [OF ex_program_reachable] by (metis ex_program_Some)

theorem reachable_containers_witness:
  "\<exists>w. ex_program = Some w \<and> w_env w = [8] \<and> safe w"
  using reachable_containers [OF ex_host_calls ex_program_reachable] by (metis ex_program_Some)

theorem reachable_at_rest_witness:
  "\<exists>w. ex_program = Some w \<and> w_frame w = 1 \<and> w_index w = 0 \<and> cs_local (w_cs w) = []"
  using reachable_at_rest [OF ex_program_reachable] by (metis ex_program_Some)

section \<open>Timers of the host program\<close>

text \<open>The agent's tick is the timer that is left; it runs out within the next hundred milliseconds.\<close>

theorem reachable_timers_pending_witness:
  "\<exists>w. ex_program = Some w \<and> slot_of (w_wheel w) (TAgent 0) \<noteq> None \<and> Now w < scheduled_at (w_wheel w) (TAgent 0)"
proof -
  have "case ex_program of None \<Rightarrow> False | Some w \<Rightarrow> slot_of (w_wheel w) (TAgent 0) \<noteq> None" by code_simp
  then obtain w where w: "ex_program = Some w" "slot_of (w_wheel w) (TAgent 0) \<noteq> None"
    by (auto split: option.splits)
  with reachable_timers_pending [OF ex_program_reachable] show ?thesis by blast
qed

text \<open>A second agent ticks every two milliseconds.\<close>

definition ex_ticking :: "nat list world option" where
  "ex_ticking = do { w \<leftarrow> ex_program; map_option snd (module_call ex_host (Py_register 8 2) w) }"

lemma ex_ticking_reachable:
  assumes "ex_ticking = Some w"
  shows "reachable (\<lambda>a. a \<noteq> Py_suspend_node) ex_host w"
proof -
  from assms obtain w0 r where w0: "ex_program = Some w0" and r: "module_call ex_host (Py_register 8 2) w0 = Some (r, w)"
    by (auto simp: ex_ticking_def elim!: bind_SomeE)
  from ex_program_reachable [OF w0] show ?thesis by (rule reachable.step) (rule host_step.call [OF _ r], simp)
qed

theorem timers_on_time_witness:
  "\<exists>w w'. ex_ticking = Some w \<and> scheduled_at (w_wheel w) (TAgent 1) = Now w + 2
     \<and> Manager_Step ex_host 3 w = Some w' \<and> Now w' = Now w + 3"
proof -
  have "case ex_ticking of None \<Rightarrow> False
    | Some w \<Rightarrow> scheduled_at (w_wheel w) (TAgent 1) = Now w + 2 \<and> \<not> Option.is_none (Manager_Step ex_host 3 w)"
    by code_simp
  then obtain w w' where w: "ex_ticking = Some w" "scheduled_at (w_wheel w) (TAgent 1) = Now w + 2"
    and w': "Manager_Step ex_host 3 w = Some w'"
    by (auto split: option.splits simp: Option.is_none_def)
  from timers_on_time [OF ex_ticking_reachable [OF w(1)] w'] have "Now w' = Now w + 3" by simp
  with w w' show ?thesis by blast
qed

section \<open>A stale asynchronous context\<close>

definition ex_async_host :: "nat list host" where
  "ex_async_host = ex_host\<lparr>h_func := (\<lambda>code name self e. Call Py_suspend_node e (\<lambda>r e. Ret (VBool True) e))\<rparr>"

definition ex_async_world :: "nat list world" where
  "ex_async_world = ex_world\<lparr>w_datas := [0 \<mapsto> new_chart_data\<lparr>chart_name := ''outer'',
     node_list := [ex_node 0 [1] [1] None, ex_node 1 [] [] (ex_script ''f'')]\<rparr>]\<rparr>"

text \<open>The chart whose node suspended itself is removed from its agent.\<close>

definition ex_stale :: "nat list world option" where
  "ex_stale = do {
     (_, w) \<leftarrow> module_call ex_async_host (Py_register 7 100) ex_async_world;
     (_, w) \<leftarrow> module_call ex_async_host (Py_attach 7 ''outer'' None) w;
     (_, w) \<leftarrow> module_call ex_async_host (Py_start 7 None) w;
     w \<leftarrow> Manager_Step ex_async_host 1 w;
     (_, w) \<leftarrow> module_call ex_async_host (Py_remove 7 ''outer'') w;
     Some w }"


end
