(* ===== verification/Example_Lua.thy ===== *)
theory Example_Lua
  imports Lua_Manager_Props Lua_Agents Example_Worlds
begin

text \<open>
  The properties of the Lua binding on concrete states: a chart with a parameter and a variable on one
  agent, and a process that sets a manager up, ends it and sets another one up.
\<close>

text \<open>A reference library: it hands out the key returned last that is free, or one above all keys.\<close>

definition ex_pick :: picker where
  "ex_pick h =
     (case List.find (\<lambda>r. r \<notin> live h \<and> 0 < r)
             (List.map_filter (\<lambda>x. case x of Returned r \<Rightarrow> Some r | Taken r \<Rightarrow> None) h) of
        Some r \<Rightarrow> r
      | None \<Rightarrow> 1 + foldr (\<lambda>x k. max k (case x of Returned r \<Rightarrow> \<bar>r\<bar> | Taken r \<Rightarrow> \<bar>r\<bar>)) h 0)"

lemma live_bound:
  "r \<in> live h \<Longrightarrow> r \<le> foldr (\<lambda>x k. max k (case x of Returned r \<Rightarrow> \<bar>r\<bar> | Taken r \<Rightarrow> \<bar>r\<bar>)) h 0"
  by (induction h) (auto simp: le_max_iff_disj split: ref_op.splits)

lemma ex_pick_lib: "ref_lib ex_pick"
  unfolding ref_lib_def
proof (intro allI)
  fix h
  have pos: "0 \<le> foldr (\<lambda>x k. max k (case x of Returned r \<Rightarrow> \<bar>r\<bar> | Taken r \<Rightarrow> \<bar>r\<bar>)) h 0"
    by (induction h) (auto simp: le_max_iff_disj)
  show "ex_pick h \<notin> live h \<and> ex_pick h \<noteq> LUA_NOREF \<and> ex_pick h \<noteq> LUA_REFNIL"
    using pos live_bound [of "ex_pick h" h]
    by (auto simp: ex_pick_def LUA_NOREF_def LUA_REFNIL_def find_Some_iff split: option.splits)
qed

section \<open>A chart\<close>

definition ex_lua_data :: chart_data where
  "ex_lua_data = new_chart_data\<lparr>variable_count := 2, params_count := 1, variables :=
     [\<lparr>param_name = ''speed'', param_type = ''Number'', is_params = True\<rparr>,
      \<lparr>param_name = ''count'', param_type = ''Number'', is_params = False\<rparr>]\<rparr>"

definition ex_unattached :: lua_state where
  "ex_unattached = put_chart 0 \<lparr>lc_data = ex_lua_data, lc_agent = Some 0, lc_variables = LUA_NOREF, lc_call = LUA_NOREF,
     lc_init_table = LUA_NOREF\<rparr> (LuaAgent ex_pick (VObj 7) 0 new_lua_state)"

text \<open>The parameter is given twice, by position and by name.\<close>

definition ex_entries :: "(val \<times> val) list" where
  "ex_entries = [(VInt 1, VInt 5), (VStr ''speed'', VInt 6), (VStr ''colour'', VInt 7)]"

definition ex_attached :: lua_state where
  "ex_attached = the (LuaChart_SetInitTable ex_pick ex_entries 0 ex_unattached)"

definition ex_running :: lua_state where
  "ex_running = the (LuaChart_ResetVariables ex_pick 0 ex_attached)"

lemma ex_lua_runs:
  "LuaChart_SetInitTable ex_pick ex_entries 0 ex_unattached = Some ex_attached"
  "LuaChart_ResetVariables ex_pick 0 ex_attached = Some ex_running"
proof -
  have "LuaChart_SetInitTable ex_pick ex_entries 0 ex_unattached \<noteq> None" by code_simp
  then show "LuaChart_SetInitTable ex_pick ex_entries 0 ex_unattached = Some ex_attached"
    by (auto simp: ex_attached_def)
  have "LuaChart_ResetVariables ex_pick 0 ex_attached \<noteq> None" by code_simp
  then show "LuaChart_ResetVariables ex_pick 0 ex_attached = Some ex_running" by (auto simp: ex_running_def)
qed

lemma ex_lua_reachable:
  "lua_reachable ex_pick ex_unattached" "lua_reachable ex_pick ex_attached" "lua_reachable ex_pick ex_running"
proof -
  have "lua_reachable ex_pick (LuaAgent ex_pick (VObj 7) 0 new_lua_state)"
    by (rule lua_reachable.step [OF lua_reachable.start lua_step.agent]) (simp add: new_lua_state_def)
  from lua_reachable.step [OF this lua_step.chart [of _ 0 _ ex_lua_data]]
  have "lua_reachable ex_pick (LuaChart 0 ex_lua_data (LuaAgent ex_pick (VObj 7) 0 new_lua_state))"
    by (simp add: LuaAgent_def new_lua_state_def split: prod.split)
  from lua_reachable.step [OF this lua_step.chart_agent [of 0 0]]
  show "lua_reachable ex_pick ex_unattached"
    by (simp add: LuaChart_SetAgent_def LuaChart_def ex_unattached_def put_chart_def)
  from lua_reachable.step [OF this lua_step.init_table [OF ex_lua_runs(1)]]
  show "lua_reachable ex_pick ex_attached" .
  from lua_reachable.step [OF this lua_step.reset [OF ex_lua_runs(2)]]
  show "lua_reachable ex_pick ex_running" .
qed

lemma ex_unattached_chart:
  "ls_charts ex_unattached 0 = Some \<lparr>lc_data = ex_lua_data, lc_agent = Some 0, lc_variables = LUA_NOREF, lc_call = LUA_NOREF,
     lc_init_table = LUA_NOREF\<rparr>"
  by (simp add: ex_unattached_def put_chart_def)

theorem attached_parameters_witness:
  "LuaChart_GetVar 0 0 ex_running = Some (VInt 6) \<and> LuaChart_GetVar 1 0 ex_running = Some VNone"
  using attached_parameters [OF ex_pick_lib ex_lua_reachable(1) ex_unattached_chart ex_lua_runs, of 0]
    attached_parameters [OF ex_pick_lib ex_lua_reachable(1) ex_unattached_chart ex_lua_runs, of 1]
  by (simp add: ex_lua_data_def new_chart_data_def given_value_def ex_entries_def param_of_key_def)

theorem attach_leaks_witness: "card (used (ls_registry ex_attached) - used (ls_registry ex_unattached)) = 1"
  using attach_leaks [OF ex_pick_lib ex_lua_reachable(1) ex_unattached_chart ex_lua_runs(1)]
  by (simp add: ex_lua_data_def new_chart_data_def ex_entries_def param_of_key_def)


text \<open>The index -1 is that of every name the chart does not know.\<close>

theorem lua_variables_isolated_witness:
  "\<exists>s. LuaChart_SetVar (VInt 9) (- 1) 0 ex_running = Some s \<and> LuaChart_GetVar (- 1) 0 s = Some (VInt 9)
     \<and> LuaChart_GetVar 0 0 s = Some (VInt 6)"
proof -
  have "case LuaChart_SetVar (VInt 9) (- 1) 0 ex_running of None \<Rightarrow> False | Some _ \<Rightarrow> True" by code_simp
  then obtain s where s: "LuaChart_SetVar (VInt 9) (- 1) 0 ex_running = Some s" by (auto split: option.splits)
  have "case ls_charts ex_running 0 of None \<Rightarrow> False | Some ch \<Rightarrow> variable_count (lc_data ch) = 2" by code_simp
  then obtain ch where ch: "ls_charts ex_running 0 = Some ch" "variable_count (lc_data ch) = 2" by (auto split: option.splits)
  have "LuaChart_GetVar 0 0 ex_running = Some (VInt 6)" by code_simp
  with s ch(2) lua_variables_isolated [OF ex_pick_lib ex_lua_reachable(3) s ch(1), of "- 1" 0]
    lua_variables_isolated [OF ex_pick_lib ex_lua_reachable(3) s ch(1), of 0 0]
  show ?thesis by simp
qed

section \<open>A process\<close>

definition ex_lib :: "nat list lua_lib" where
  "ex_lib = \<lparr>ll_pick = ex_pick, ll_number = (\<lambda>_. None), ll_string = (\<lambda>_. []), ll_table = (\<lambda>_ _. None),
     ll_function = (\<lambda>_. False)\<rparr>"

text \<open>The keys the two managers get, and those given back in between.\<close>

definition ex_taken :: "ref_op list" where
  "ex_taken = [Taken 4, Taken 3, Taken 2, Taken 1]"

definition ex_returned :: "ref_op list" where
  "ex_returned = Returned 2 # Returned 4 # Returned 3 # Returned 1 # ex_taken"

lemma ex_picks:
  "ex_pick [] = 1" "ex_pick [Taken 1] = 2" "ex_pick [Taken 2, Taken 1] = 3" "ex_pick [Taken 3, Taken 2, Taken 1] = 4"
  "ex_pick ex_returned = 2" "ex_pick (Taken 2 # ex_returned) = 4" "ex_pick (Taken 4 # Taken 2 # ex_returned) = 3"
  by code_simp+

lemma ex_setup:
  obtains p1 mgr where "lua_setup ex_lib [] (new_lua_process []) = Some (ManagerObject 0, p1)"
    "lp_managers p1 0 = Some mgr" "mgr_error mgr = 1" "mgr_function mgr = 2" "mgr_object mgr = 3" "mgr_variable mgr = 4"
    "rt_hist (lp_registry p1) = ex_taken" "lp_current p1 = Some 0" "lp_func_ref p1 = VInt 2" "lp_next_manager p1 = 1"
    "w_agent_map (mgr_world mgr) = []"
  by (simp add: lua_setup_def LuaManager_Init_def InitFuncRef_def new_table_ref_def luaL_ref_def Let_def ex_lib_def
      new_lua_process_def new_ref_table_def ex_picks lua_table_of_def stack_at_def put_manager_def ex_taken_def new_manager_def)

lemma ex_exit:
  assumes "lp_managers p 0 = Some mgr" "lp_current p = Some 0" "rt_hist (lp_registry p) = ex_taken"
    and "mgr_error mgr = 1" "mgr_function mgr = 2" "mgr_object mgr = 3" "mgr_variable mgr = 4"
    and "w_agent_map (mgr_world mgr) = []"
  obtains p' where "lua_exit p = Some (Results [], p')" "rt_hist (lp_registry p') = ex_returned"
    "lp_func_ref p' = lp_func_ref p" "lp_next_manager p' = lp_next_manager p"
  using assms by (simp add: lua_exit_def delete_LuaManager_def on_world_def delete_manager_def luaL_unref_def
      LUA_NOREF_def LUA_REFNIL_def ex_returned_def)

lemma ex_setup_again:
  assumes "rt_hist (lp_registry p) = ex_returned" "lp_func_ref p = VInt 2" "lp_next_manager p = 1"
  obtains p' mgr where "lua_setup ex_lib [] p = Some (ManagerObject 1, p')" "lp_managers p' 1 = Some mgr" "mgr_error mgr = 2"
  using assms by (simp add: lua_setup_def LuaManager_Init_def InitFuncRef_def new_table_ref_def luaL_ref_def Let_def ex_lib_def
      ex_picks lua_table_of_def stack_at_def put_manager_def)

text \<open>With the reference library above the stale number is that of the new error handler.\<close>

theorem setup_after_exit_witness:
  "\<exists>p1 p2 p3 mgr. lua_setup ex_lib [] (new_lua_process []) = Some (ManagerObject 0, p1)
     \<and> lua_exit p1 = Some (Results [], p2) \<and> lua_setup ex_lib [] p2 = Some (ManagerObject 1, p3)
     \<and> lp_managers p3 1 = Some mgr \<and> mgr_function mgr = 2 \<and> mgr_error mgr = 2"
proof -
  obtain p1 mgr where s1: "lua_setup ex_lib [] (new_lua_process []) = Some (ManagerObject 0, p1)" "lp_managers p1 0 = Some mgr"
    and m: "mgr_error mgr = 1" "mgr_function mgr = 2" "mgr_object mgr = 3" "mgr_variable mgr = 4"
    and p1: "rt_hist (lp_registry p1) = ex_taken" "lp_current p1 = Some 0" "lp_func_ref p1 = VInt 2" "lp_next_manager p1 = 1"
    and w: "w_agent_map (mgr_world mgr) = []" by (rule ex_setup)
  obtain p2 where e: "lua_exit p1 = Some (Results [], p2)" and p2: "rt_hist (lp_registry p2) = ex_returned"
    "lp_func_ref p2 = lp_func_ref p1" "lp_next_manager p2 = lp_next_manager p1"
    by (rule ex_exit [OF s1(2) p1(2,1) m w])
  obtain p3 mgr' where s3: "lua_setup ex_lib [] p2 = Some (ManagerObject 1, p3)" "lp_managers p3 1 = Some mgr'"
    and err: "mgr_error mgr' = 2"
    by (rule ex_setup_again [OF p2(1)]) (simp_all add: p2 p1)
  have "table_ok (ll_pick ex_lib) (lp_registry (new_lua_process ([] :: nat list)))"
    using ex_pick_lib by (simp add: table_ok_def ex_lib_def new_lua_process_def new_ref_table_def used_def)
  from setup_after_exit [OF this s1 e s3] have "mgr_function mgr' = 2" using m by simp
  with s1 e s3 err show ?thesis by blast
qed

definition ex_stopping :: "nat list lua_process" where
  "ex_stopping = (new_lua_process (w_env ex_tree))\<lparr>lp_current := Some 0, lp_managers := [0 \<mapsto> \<lparr>mgr_error = 1,
     mgr_function = 2, mgr_object = 3, mgr_variable = 4, mgr_lua = new_lua_state, mgr_world = ex_tree\<rparr>],
     lp_charts := w_chart_dict ex_tree, lp_datas := w_datas ex_tree, lp_events := w_events ex_tree\<rparr>"

text \<open>Asked to stop the node 1, which is running, the module stops the node 0.\<close>

theorem lua_stop_node_first_witness:
  "\<exists>p' mgr' nd. lua_stop_node [VInt 1] ex_stopping = Some (Results [VBool True], p') \<and> lp_managers p' 0 = Some mgr'
     \<and> node_stopped (NP 0 0) (mgr_world mgr') \<and> get_node (NP 0 1) (mgr_world mgr') = Some nd \<and> status nd = Running"
proof -
  have cur: "GetCurrentNode ex_tree = Some (NP 0 0)"
    by (simp add: GetCurrentNode_def ex_tree_def ex_world_def new_manager_def)
  obtain ch where ch: "w_charts ex_tree (np_chart (NP 0 0)) = Some ch" "nodes ch \<noteq> []"
    by (simp add: ex_tree_def ex_chart_def)
  have nd: "\<exists>nd. get_node (NP 0 1) ex_tree = Some nd \<and> status nd = Running"
    by (simp add: get_node_def ex_tree_def ex_chart_def)
  have same: "ex_tree = ex_tree\<lparr>w_chart_dict := lp_charts ex_stopping, w_datas := lp_datas ex_stopping,
      w_events := lp_events ex_stopping, w_env := lp_env ex_stopping\<rparr>"
    by (simp add: ex_stopping_def new_lua_process_def)
  have "lp_managers ex_stopping 0 = Some \<lparr>mgr_error = 1,
     mgr_function = 2, mgr_object = 3, mgr_variable = 4, mgr_lua = new_lua_state, mgr_world = ex_tree\<rparr>"
    "lp_current ex_stopping = Some 0" by (simp_all add: ex_stopping_def)
  from lua_stop_node_first [OF this(2,1), of "[VInt 1]", simplified, OF same ex_tree_wf cur ch] nd
  show ?thesis by auto
qed

end
