(* ===== verification/Example_Js.thy ===== *)
theory Example_Js
  imports Bindings Js_Functions Example_Lua
begin

text \<open>
  The properties of the JavaScript binding and of the three bindings together on concrete states: a chart
  with a parameter and a variable.
\<close>

section \<open>A chart that is followed\<close>

definition ex_texts :: "string js_texts" where
  "ex_texts = \<lparr>PrepareChartDebugData_of = (\<lambda>_ xs. (if xs = [] then None else Some ''data'', [])),
     ChartInfo_of = (\<lambda>_. ''info''), StopMessage_of = (\<lambda>_. ''stop'')\<rparr>"

definition ex_js_data :: chart_data where
  "ex_js_data = ex_lua_data\<lparr>chart_name := ''AI''\<rparr>"

definition ex_js_followed :: "string js_state" where
  "ex_js_followed = \<lparr>js_charts = [0 \<mapsto> \<lparr>jc_data = ex_js_data, jc_agent = Some 0, jc_variables = [],
       jc_callback = False, jc_debug = new_chart_debug\<lparr>in_debug := True\<rparr>\<rparr>],
     js_agents = (\<lambda>_. None), js_followed = [0], js_quick = [], js_calls = []\<rparr>"

lemma ex_js_reachable: "js_reachable ex_texts ex_js_followed"
proof -
  have "js_reachable ex_texts (JsChart 0 ex_js_data new_js_state)"
    by (rule js_reachable.step [OF js_reachable.start js_step.chart]) (simp add: new_js_state_def)
  from js_reachable.step [OF this js_step.chart_agent [of 0 0]]
  have agent: "js_reachable ex_texts (js_put_chart 0 \<lparr>jc_data = ex_js_data, jc_agent = Some 0, jc_variables = [],
       jc_callback = False, jc_debug = new_chart_debug\<rparr> new_js_state)"
    by (simp add: JsChart_SetAgent_def JsChart_def js_put_chart_def)
  show ?thesis
    by (rule js_reachable.step [OF agent js_step.follow [of _ 0]])
      (simp_all add: JsDebugger_StartDebugChart_def js_upd_debug_def js_put_chart_def new_js_state_def ex_js_followed_def
        new_chart_debug_def chart_StartDebug_def)
qed

theorem js_followed_alive_witness: "js_charts ex_js_followed 0 \<noteq> None \<and> JsDebugger_Step ex_texts ex_js_followed \<noteq> None"
  using js_followed_alive [OF ex_js_reachable] by (auto simp: ex_js_followed_def)

text \<open>The chart is quick-debugged, started and destroyed.\<close>

definition ex_js_quick :: "string js_state" where
  "ex_js_quick = JsDebugger_QuickDebugChart ex_js_data ex_js_followed"

theorem js_quick_debug_dangles_witness:
  "\<exists>s1 s2. JsChart_ResetVariables ex_texts 0 ex_js_quick = Some s1 \<and> delete_JsChart ex_texts 0 s1 = Some s2
    \<and> JsDebugger_Step ex_texts s2 = None"
proof -
  have "case JsChart_ResetVariables ex_texts 0 ex_js_quick of None \<Rightarrow> False
      | Some s1 \<Rightarrow> delete_JsChart ex_texts 0 s1 \<noteq> None" by code_simp
  then obtain s1 s2 where s: "JsChart_ResetVariables ex_texts 0 ex_js_quick = Some s1" "delete_JsChart ex_texts 0 s1 = Some s2"
    by (auto split: option.splits)
  have "JsDebugger_Step ex_texts s2 = None"
    using js_quick_debug_dangles [OF _ _ _ s]
    by (simp add: ex_js_quick_def JsDebugger_QuickDebugChart_def ex_js_followed_def)
  with s show ?thesis by blast
qed

text \<open>The values 5 and 6 of a chart that is stopped and destroyed.\<close>

definition ex_js_values :: "string js_state" where
  "ex_js_values = new_js_state\<lparr>js_charts := [0 \<mapsto> \<lparr>jc_data = ex_js_data, jc_agent = Some 0, jc_variables = [5, 6],
       jc_callback = False, jc_debug = new_chart_debug\<rparr>]\<rparr>"

theorem js_forgotten_twice_witness:
  "\<exists>s1 s2 msgs. JsChart_ClearVariables 0 ex_js_values = Some s1 \<and> delete_JsChart ex_texts 0 s1 = Some s2
    \<and> js_calls s2 = [js_clear_variable 5, js_clear_variable 6, js_clear_variable 5, js_clear_variable 6] @ map js_debug_data msgs"
proof -
  have "case JsChart_ClearVariables 0 ex_js_values of None \<Rightarrow> False | Some s1 \<Rightarrow> delete_JsChart ex_texts 0 s1 \<noteq> None"
    by code_simp
  then obtain s1 s2 where s: "JsChart_ClearVariables 0 ex_js_values = Some s1" "delete_JsChart ex_texts 0 s1 = Some s2"
    by (auto split: option.splits)
  have ch: "js_charts ex_js_values 0 = Some \<lparr>jc_data = ex_js_data, jc_agent = Some 0, jc_variables = [5, 6],
       jc_callback = False, jc_debug = new_chart_debug\<rparr>" by (simp add: ex_js_values_def)
  from js_forgotten_twice [OF ch s(1) disjI2 [OF s(2)]] s show ?thesis
    by (simp add: forget_calls_def) (simp add: ex_js_values_def new_js_state_def)
qed

section \<open>Attaching a chart twice\<close>

definition ex_js_module :: "(nat list, string) js_module" where
  "ex_js_module = (new_js_module [])\<lparr>jm_manager := Some ((new_manager [])\<lparr>w_chart_dict := [''AI'' \<mapsto> 0],
     w_datas := [0 \<mapsto> ex_js_data], w_object_map := [(7, 0)], w_agents := [0 \<mapsto> \<lparr>agent_id = 1, tick_interval = 100,
       agent_status = AgentRunning, chart_dict = [], game_object = 7\<rparr>]\<rparr>, new_js_state)\<rparr>"

theorem js_attach_twice_witness:
  "\<exists>c p. js_attach ex_texts 7 ''AI'' ex_js_module = Some (Some c, p) \<and> js_attach ex_texts 7 ''AI'' p = None"
proof -
  have "case js_attach ex_texts 7 ''AI'' ex_js_module of Some (Some c, _) \<Rightarrow> True | _ \<Rightarrow> False" by code_simp
  then obtain c p where p: "js_attach ex_texts 7 ''AI'' ex_js_module = Some (Some c, p)"
    by (auto split: option.splits)
  from js_attach_twice [OF this] p show ?thesis by blast
qed

section \<open>A chart in three bindings\<close>

definition ex_py_world :: "nat list world" where
  "ex_py_world = (new_manager [])\<lparr>w_charts := [0 \<mapsto> \<lparr>owner_node = None, chart_data_ptr = 0, chart_agent = Some 0,
       chart_running = False, nodes = [], py_variables = None, py_call = VNone, py_init_table = None\<rparr>],
     w_datas := [0 \<mapsto> ex_lua_data]\<rparr>"

definition ex_js_chart :: "string js_state" where
  "ex_js_chart = new_js_state\<lparr>js_charts := [0 \<mapsto> \<lparr>jc_data = ex_lua_data, jc_agent = Some 0, jc_variables = [],
       jc_callback = False, jc_debug = new_chart_debug\<rparr>]\<rparr>"

definition ex_value :: "int \<Rightarrow> val" where
  "ex_value r = (if r = 0 then VNone else VInt (10 * r))"

text \<open>The second variable is written, then an argument is handed over.\<close>

theorem bindings_agree_witness:
  "\<exists>w' s'. foldM (run_op (py_assign 0) (\<lambda>args. SetArgs args 0) (ResetVariables ex_host 0))
       [Restart, Assign 1 (VInt 50), Arguments [VInt 70]] ex_py_world = Some w'
     \<and> foldM (run_op (lua_assign 0) (\<lambda>args. LuaChart_SetArgs args 0) (LuaChart_ResetVariables ex_pick 0))
       [Restart, Assign 1 (VInt 50), Arguments [VInt 70]] ex_unattached = Some s'
     \<and> (\<forall>i < 2. GetVar (int i) 0 w' = LuaChart_GetVar (int i) 0 s')"
proof -
  have py: "py_ready 0 ex_lua_data ex_py_world" by (simp add: py_ready_def ex_py_world_def)
  have lua: "lua_ready ex_pick 0 ex_lua_data ex_unattached"
    using reachable_owned [OF ex_lua_reachable(1) ex_pick_lib] by (simp add: lua_ready_def ex_unattached_chart)
  have js: "js_ready 0 ex_lua_data ex_js_chart" by (simp add: js_ready_def ex_js_chart_def)
  have n: "variable_count ex_lua_data = 2" "params_count ex_lua_data = 1" by (simp_all add: ex_lua_data_def)
  have map: "map (map_var_op ex_value) (Restart # [Assign 1 5, Arguments [7]]) = [Restart, Assign 1 (VInt 50), Arguments [VInt 70]]"
    by (simp add: ex_value_def)
  have f: "ex_value 0 = VNone" and xs: "\<forall>x \<in> set [Assign 1 (5 :: int), Arguments [7]]. in_range (variable_count ex_lua_data) x"
    by (simp_all add: ex_value_def n)
  from bindings_agree [OF py lua js, where f = ex_value, OF f xs, of ex_host ex_texts, unfolded map n] show ?thesis
    by - (elim exE conjE, intro exI conjI, assumption, assumption, fastforce)
qed

end
