(* ===== verification/Base64.thy ===== *)
theory Base64
  imports AF_Prelude "HOL-Library.Word"
begin

unbundle bit_operations_syntax

text \<open>
  The Base64 codec of \<open>src/util/file.cpp\<close>. A \<open>std::string\<close> is a list of bytes
  (\<^typ>\<open>char\<close>); the arithmetic of the code is done on promoted non-negative integers, here
  on \<^typ>\<open>nat\<close> with the bit operations of the source. The index \<open>pos\<close> of the encoder is a
  32-bit unsigned integer in the code: the model is the code for inputs below 4 GiB.
\<close>

abbreviation code :: "char \<Rightarrow> nat" where
  "code c \<equiv> of_char c"

abbreviation byte :: "nat \<Rightarrow> char" where
  "byte n \<equiv> char_of n"

section \<open>Alphabet\<close>

definition base64_chars :: "bool \<Rightarrow> string" where
  "base64_chars url =
     ''ABCDEFGHIJKLMNOPQRSTUVWXYZ'' @ ''abcdefghijklmnopqrstuvwxyz'' @ ''0123456789'' @
     (if url then ''-_'' else ''+/'')"

datatype base64_error = Invalid_base64

definition pos_of_char :: "char \<Rightarrow> base64_error + nat" where
  "pos_of_char chr =
     (if code CHR ''A'' \<le> code chr \<and> code chr \<le> code CHR ''Z'' then Inr (code chr - code CHR ''A'')
      else if code CHR ''a'' \<le> code chr \<and> code chr \<le> code CHR ''z''
        then Inr (code chr - code CHR ''a'' + (code CHR ''Z'' - code CHR ''A'') + 1)
      else if code CHR ''0'' \<le> code chr \<and> code chr \<le> code CHR ''9''
        then Inr (code chr - code CHR ''0'' + (code CHR ''Z'' - code CHR ''A'')
               + (code CHR ''z'' - code CHR ''a'') + 2)
      else if chr = CHR ''+'' \<or> chr = CHR ''-'' then Inr 62
      else if chr = CHR ''/'' \<or> chr = CHR ''_'' then Inr 63
      else Inl Invalid_base64)"

section \<open>Encoder\<close>

text \<open>One pass of the \<open>while\<close> loop at \<open>pos\<close>, then the loop.\<close>

definition encode_chunk :: "string \<Rightarrow> bool \<Rightarrow> nat \<Rightarrow> string" where
  "encode_chunk bytes url pos =
     (let tab = (\<lambda>i. base64_chars url ! i);
          b = (\<lambda>i. code (bytes ! (pos + i)));
          trailing_char = (if url then CHR ''.'' else CHR ''='')
      in tab (drop_bit 2 (b 0 AND 0xfc)) #
         (if pos + 1 < length bytes
          then tab (push_bit 4 (b 0 AND 0x03) + drop_bit 4 (b 1 AND 0xf0)) #
            (if pos + 2 < length bytes
             then [tab (push_bit 2 (b 1 AND 0x0f) + drop_bit 6 (b 2 AND 0xc0)), tab (b 2 AND 0x3f)]
             else [tab (push_bit 2 (b 1 AND 0x0f)), trailing_char])
          else [tab (push_bit 4 (b 0 AND 0x03)), trailing_char, trailing_char]))"

function base64_encode_from :: "string \<Rightarrow> bool \<Rightarrow> nat \<Rightarrow> string" where
  "base64_encode_from bytes url pos =
     (if pos < length bytes
      then encode_chunk bytes url pos @ base64_encode_from bytes url (pos + 3)
      else [])"
  by pat_completeness auto
termination
  by (relation "measure (\<lambda>(bytes, url, pos). length bytes - pos)") auto

declare base64_encode_from.simps [simp del]

definition base64_encode :: "string \<Rightarrow> bool \<Rightarrow> string" where
  "base64_encode s url = base64_encode_from s url 0"

text \<open>
  \<open>insert_linebreaks\<close> inserts a newline every \<open>distance\<close> characters. With distance 0 the
  loop of the code never ends; the code instantiates it with 64 and 76.
\<close>

partial_function (option) insert_linebreaks_from :: "string \<Rightarrow> nat \<Rightarrow> nat \<Rightarrow> string option" where
  "insert_linebreaks_from str pos distance =
     (if pos < length str
      then insert_linebreaks_from (take pos str @ [CHR 0x0A] @ drop pos str)
             (pos + (distance + 1)) distance
      else Some str)"

declare insert_linebreaks_from.simps [code]

definition insert_linebreaks :: "string \<Rightarrow> nat \<Rightarrow> string option" where
  "insert_linebreaks str distance =
     (if length str = 0 then Some [] else insert_linebreaks_from str distance distance)"

definition encode_with_line_breaks :: "nat \<Rightarrow> string \<Rightarrow> string option" where
  "encode_with_line_breaks line_length s = insert_linebreaks (base64_encode s False) line_length"

definition base64_encode_pem :: "string \<Rightarrow> string option" where
  "base64_encode_pem s = encode_with_line_breaks 64 s"

definition base64_encode_mime :: "string \<Rightarrow> string option" where
  "base64_encode_mime s = encode_with_line_breaks 76 s"

section \<open>Decoder\<close>

text \<open>
  Reading a \<open>std::string\<close> at its length gives the terminator \<open>0\<close>, for which
  \<open>pos_of_char\<close> throws.
\<close>

definition str_at :: "string \<Rightarrow> nat \<Rightarrow> char" where
  "str_at s i = (if i < length s then s ! i else CHR 0x00)"

definition decode_chunk :: "string \<Rightarrow> nat \<Rightarrow> base64_error + string" where
  "decode_chunk s pos =
     (case pos_of_char (str_at s (pos + 1)) of Inl e \<Rightarrow> Inl e | Inr p1 \<Rightarrow>
      (case pos_of_char (str_at s pos) of Inl e \<Rightarrow> Inl e | Inr p0 \<Rightarrow>
       (let o1 = byte (push_bit 2 p0 + drop_bit 4 (p1 AND 0x30)) in
        if pos + 2 < length s \<and> str_at s (pos + 2) \<noteq> CHR ''='' \<and> str_at s (pos + 2) \<noteq> CHR ''.''
        then (case pos_of_char (str_at s (pos + 2)) of Inl e \<Rightarrow> Inl e | Inr p2 \<Rightarrow>
          (let o2 = byte (push_bit 4 (p1 AND 0x0f) + drop_bit 2 (p2 AND 0x3c)) in
           if pos + 3 < length s \<and> str_at s (pos + 3) \<noteq> CHR ''='' \<and> str_at s (pos + 3) \<noteq> CHR ''.''
           then (case pos_of_char (str_at s (pos + 3)) of Inl e \<Rightarrow> Inl e | Inr p3 \<Rightarrow>
             Inr [o1, o2, byte (push_bit 6 (p2 AND 0x03) + p3)])
           else Inr [o1, o2]))
        else Inr [o1])))"

function base64_decode_from :: "string \<Rightarrow> nat \<Rightarrow> base64_error + string" where
  "base64_decode_from s pos =
     (if pos < length s
      then (case decode_chunk s pos of Inl e \<Rightarrow> Inl e | Inr bs \<Rightarrow>
            (case base64_decode_from s (pos + 4) of Inl e \<Rightarrow> Inl e | Inr rest \<Rightarrow> Inr (bs @ rest)))
      else Inr [])"
  by pat_completeness auto
termination
  by (relation "measure (\<lambda>(s, pos). length s - pos)") auto

declare base64_decode_from.simps [simp del]

definition base64_decode :: "string \<Rightarrow> bool \<Rightarrow> base64_error + string" where
  "base64_decode s remove_linebreaks =
     (if s = [] then Inr []
      else if remove_linebreaks then base64_decode_from (without (CHR 0x0A) s) 0
      else base64_decode_from s 0)"

section \<open>The six-bit groups\<close>

lemma code_less: "code c < 256"
  by (metis of_char_mod_256 mod_less_divisor zero_less_numeral)

lemma byte_code [simp]: "byte (code c) = c"
  by simp

lemma and_low:
  "n AND 0x03 = (n mod 4 :: nat)" "n AND 0x0f = (n mod 16 :: nat)" "n AND 0x3f = (n mod 64 :: nat)"
  using take_bit_eq_mask [of 2 n] take_bit_eq_mask [of 4 n] take_bit_eq_mask [of 6 n]
  by (simp_all add: take_bit_eq_mod mask_eq_exp_minus_1)

lemma and_push_bit:
  "n AND push_bit k m = push_bit k (drop_bit k n AND m)" for n m :: nat
  by (rule bit_eqI) (auto simp: bit_and_iff bit_push_bit_iff bit_drop_bit_eq)

lemma and_high:
  "n AND 0xfc = (n div 4 mod 64 * 4 :: nat)"
  "n AND 0xf0 = (n div 16 mod 16 * 16 :: nat)"
  "n AND 0xc0 = (n div 64 mod 4 * 64 :: nat)"
  "n AND 0x30 = (n div 16 mod 4 * 16 :: nat)"
  "n AND 0x3c = (n div 4 mod 16 * 4 :: nat)"
  using and_push_bit [of n 2 63] and_push_bit [of n 4 15] and_push_bit [of n 6 3]
    and_push_bit [of n 4 3] and_push_bit [of n 2 15]
  by (simp_all add: and_low drop_bit_eq_div push_bit_eq_mult)

lemmas group_simps = and_low and_high push_bit_eq_mult drop_bit_eq_div

text \<open>The decoder inverts the alphabet, whichever of the two was used.\<close>

lemma map_pos_of_alphabet: "map pos_of_char (base64_chars url) = map Inr [0..<64]"
  by (cases url) (simp_all add: base64_chars_def pos_of_char_def upt_rec)

lemma length_base64_chars: "length (base64_chars url) = 64"
  by (simp add: base64_chars_def)

lemma pos_of_alphabet: "n < 64 \<Longrightarrow> pos_of_char (base64_chars url ! n) = Inr n"
  using arg_cong [OF map_pos_of_alphabet [of url], of "\<lambda>xs. xs ! n"]
  by (simp add: length_base64_chars)

lemma alphabet_no_pad: 
  assumes "n < 64"
  shows "base64_chars url ! n \<notin> {CHR ''='', CHR ''.'', CHR 0x0A}"
proof
  assume "base64_chars url ! n \<in> {CHR ''='', CHR ''.'', CHR 0x0A}"
  then show False using pos_of_alphabet [OF assms, of url] by (auto simp: pos_of_char_def)
qed


section \<open>Decoding what was encoded\<close>

lemma regroup:
  "code c div 4 mod 64 * 4 + code c mod 4 = code c"
  "code c div 16 mod 16 * 16 + code c mod 16 = code c"
  "code c div 64 mod 4 * 64 + code c mod 64 = code c"
proof -
  have "code c div 4 < 64" "code c div 16 < 16" "code c div 64 < 4"
    using code_less [of c] by (auto simp only: div_less_iff_less_mult zero_less_numeral)
  then show "code c div 4 mod 64 * 4 + code c mod 4 = code c"
    "code c div 16 mod 16 * 16 + code c mod 16 = code c"
    "code c div 64 mod 4 * 64 + code c mod 64 = code c"
    by (simp_all add: mod_less)
qed

lemma group_less:
  fixes a b c :: nat
  shows "a div 4 mod 64 < 64" "a mod 4 * 16 + b div 16 mod 16 < 64"
    "b mod 16 * 4 + c div 64 mod 4 < 64" "c mod 64 < 64"
    "a mod 4 * 16 < 64" "b mod 16 * 4 < 64"
proof -
  have "a mod 4 \<le> 3" "b div 16 mod 16 \<le> 15" "b mod 16 \<le> 15" "c div 64 mod 4 \<le> 3"
    by (simp_all add: less_Suc_eq_le [symmetric])
  then show "a mod 4 * 16 + b div 16 mod 16 < 64" "b mod 16 * 4 + c div 64 mod 4 < 64"
    "a mod 4 * 16 < 64" "b mod 16 * 4 < 64" by linarith+
qed simp_all

lemma encode_chunk_length: "length (encode_chunk bytes url pos) = 4"
  by (simp add: encode_chunk_def Let_def)

lemma str_at_append:
  "i < length xs \<Longrightarrow> str_at (xs @ ys) i = xs ! i"
  by (simp add: str_at_def nth_append)

lemma take_drop_nth:
  "pos < length xs \<Longrightarrow> take (Suc n) (drop pos xs) = xs ! pos # take n (drop (Suc pos) xs)"
  by (simp add: Cons_nth_drop_Suc [symmetric])

lemma take3_drop:
  "pos < length xs \<Longrightarrow> take 3 (drop pos xs) = xs ! pos #
     (if pos + 1 < length xs then xs ! (pos + 1) #
        (if pos + 2 < length xs then [xs ! (pos + 2)] else []) else [])"
  using take_drop_nth [of pos xs 2] take_drop_nth [of "Suc pos" xs 1]
    take_drop_nth [of "Suc (Suc pos)" xs 0]
  by (auto simp: numeral_eq_Suc)

lemma alphabet_pad:
  assumes "n < 64"
  shows "base64_chars url ! n \<noteq> CHR ''=''" "base64_chars url ! n \<noteq> CHR ''.''"
  using alphabet_no_pad [OF assms] by auto

lemma decode_encode_chunk:
  assumes "pos < length bytes"
  shows "decode_chunk (encode_chunk bytes url pos @ rest) 0 = Inr (take 3 (drop pos bytes))"
proof -
  consider "pos + 1 = length bytes" | "pos + 2 = length bytes" | "pos + 2 < length bytes"
    using assms by linarith
  then show ?thesis
  proof cases
    case 1
    then have "take 3 (drop pos bytes) = [bytes ! pos]"
      by (subst take3_drop) simp_all
    then show ?thesis using 1
      by (simp add: decode_chunk_def encode_chunk_def Let_def str_at_def group_simps
          pos_of_alphabet group_less regroup)
  next
    case 2
    then have "take 3 (drop pos bytes) = [bytes ! pos, bytes ! (pos + 1)]"
      by (subst take3_drop) simp_all
    then show ?thesis using 2
      by (simp add: decode_chunk_def encode_chunk_def Let_def str_at_def group_simps
          pos_of_alphabet group_less regroup alphabet_pad)
  next
    case 3
    then have "take 3 (drop pos bytes) = [bytes ! pos, bytes ! (pos + 1), bytes ! (pos + 2)]"
      by (simp add: take3_drop)
    then show ?thesis using 3
      by (simp add: decode_chunk_def encode_chunk_def Let_def str_at_def group_simps
          pos_of_alphabet group_less regroup alphabet_pad)
  qed
qed

lemma str_at_drop: "str_at (drop p s) i = str_at s (p + i)"
  by (auto simp: str_at_def)

lemma decode_chunk_drop: "decode_chunk s (p + q) = decode_chunk (drop p s) q"
proof -
  have "\<And>k. (q + k < length (drop p s)) = (p + q + k < length s)"
    by (auto simp: less_diff_conv)
  then show ?thesis
    by (simp only: decode_chunk_def str_at_drop add.assoc)
qed

lemma base64_decode_from_drop: "base64_decode_from (drop p s) q = base64_decode_from s (p + q)"
proof (induction "drop p s" q rule: base64_decode_from.induct)
  case (1 q)
  show ?case
  proof (cases "q < length (drop p s)")
    case True
    have "base64_decode_from (drop p s) (q + 4) = base64_decode_from s (p + q + 4)" 
      if "decode_chunk (drop p s) q = Inr bs" for bs
      using "1.hyps" [OF True that] by (simp add: add.assoc)
    with True show ?thesis
      by (simp add: base64_decode_from.simps [of "drop p s" q] base64_decode_from.simps [of s "p + q"]
          decode_chunk_drop less_diff_conv add.commute split: sum.split)
  next
    case False
    then have "\<not> p + q < length s" by auto
    with False show ?thesis
      by (simp add: base64_decode_from.simps [of "drop p s" q] base64_decode_from.simps [of s "p + q"])
  qed
qed

lemma base64_decode_encode_from:
  "base64_decode_from (base64_encode_from bytes url pos) 0 = Inr (drop pos bytes)"
proof (induction bytes url pos rule: base64_encode_from.induct)
  case (1 bytes url pos)
  show ?case
  proof (cases "pos < length bytes")
    case True
    let ?e = "encode_chunk bytes url pos" and ?r = "base64_encode_from bytes url (pos + 3)"
    have "base64_decode_from (?e @ ?r) 4 = base64_decode_from ?r 0"
      using base64_decode_from_drop [of 4 "?e @ ?r" 0] by (simp add: encode_chunk_length)
    then have "base64_decode_from (?e @ ?r) 0 = Inr (take 3 (drop pos bytes) @ drop (pos + 3) bytes)"
      using True "1.IH" decode_encode_chunk [OF True, of url ?r]
      by (simp add: base64_decode_from.simps [of _ 0] encode_chunk_length)
    also have "take 3 (drop pos bytes) @ drop (pos + 3) bytes = drop pos bytes"
      by (metis append_take_drop_id drop_drop add.commute)
    finally show ?thesis using True by (simp add: base64_encode_from.simps [of bytes url pos])
  next
    case False
    then show ?thesis
      by (simp add: base64_encode_from.simps [of bytes url pos] base64_decode_from.simps)
  qed
qed

lemma base64_encode_from_length:
  "length (base64_encode_from bytes url pos) = 4 * ((length bytes - pos + 2) div 3)"
proof (induction bytes url pos rule: base64_encode_from.induct)
  case (1 bytes url pos)
  show ?case
  proof (cases "pos < length bytes")
    case True
    then have "(length bytes - pos + 2) div 3 = Suc ((length bytes - (pos + 3) + 2) div 3)"
      using div_le_mono [of 1 _ 3] by (cases "length bytes < pos + 3") auto
    with True 1 show ?thesis
      by (simp add: base64_encode_from.simps [of bytes url pos] encode_chunk_length)
  qed (simp add: base64_encode_from.simps [of bytes url pos])
qed

lemma encode_chunk_no_newline: "CHR 0x0A \<notin> set (encode_chunk bytes url pos)"
proof -
  have plain: "\<And>n url. n < 64 \<Longrightarrow> CHR 0x0A \<noteq> base64_chars url ! n"
    using alphabet_no_pad by fastforce
  show ?thesis
    by (simp add: encode_chunk_def Let_def group_simps group_less plain)
qed

lemma base64_encode_no_newline: "CHR 0x0A \<notin> set (base64_encode_from bytes url pos)"
proof (induction bytes url pos rule: base64_encode_from.induct)
  case (1 bytes url pos)
  then show ?case
    by (cases "pos < length bytes")
      (simp_all add: base64_encode_from.simps [of bytes url pos] encode_chunk_no_newline)
qed

lemma base64_encode_empty: "base64_encode s url = [] \<longleftrightarrow> s = []"
  using base64_encode_from_length [of s url 0]
  by (cases s) (auto simp: base64_encode_def)

section \<open>Line breaks\<close>

lemma insert_linebreaks_from_Some:
  assumes "0 < distance" and "CHR 0x0A \<notin> set (drop k str)" and "pos = k + distance"
    and "k \<le> length str" and "\<forall>i < k. (str ! i = CHR 0x0A) = (i mod (distance + 1) = distance)"
    and "k mod (distance + 1) = 0"
  shows "\<exists>t. insert_linebreaks_from str pos distance = Some t
    \<and> without (CHR 0x0A) t = without (CHR 0x0A) str
    \<and> (\<forall>i < length t. (t ! i = CHR 0x0A) = (i mod (distance + 1) = distance))"
  using assms
proof (induction "length str - pos" arbitrary: str pos k rule: less_induct)
  case less
  let ?NL = "CHR 0x0A"
  have plain: "str ! i \<noteq> ?NL" if "k \<le> i" "i < length str" for i
  proof
    assume "str ! i = ?NL"
    then have "drop k str ! (i - k) = ?NL" "i - k < length (drop k str)" using that by simp_all
    then have "?NL \<in> set (drop k str)" by (metis nth_mem)
    with less.prems(2) show False by simp
  qed
  have residue: "i mod (distance + 1) = i - k" if "k \<le> i" "i \<le> k + distance" for i
  proof -
    have "i mod (distance + 1) = (k + (i - k)) mod (distance + 1)" using that by simp
    also have "\<dots> = (i - k) mod (distance + 1)"
      using less.prems(6) by (metis add_0 mod_add_left_eq)
    finally show ?thesis using that by simp
  qed
  have here: "\<forall>i < min pos (length str). (str ! i = ?NL) = (i mod (distance + 1) = distance)"
    using less.prems(1,3,5) plain residue by (metis le_add1 min_less_iff_conj nat_less_le
        diff_add_inverse le_add_diff_inverse less_imp_le not_le)
  show ?case
  proof (cases "pos < length str")
    case False
    then show ?thesis using here by (simp add: insert_linebreaks_from.simps min_def)
  next
    case True
    let ?s = "take pos str @ [?NL] @ drop pos str"
    have "\<exists>t. insert_linebreaks_from ?s (pos + (distance + 1)) distance = Some t
        \<and> without ?NL t = without ?NL ?s
        \<and> (\<forall>i < length t. (t ! i = ?NL) = (i mod (distance + 1) = distance))"
    proof (rule less.hyps [where k = "pos + 1"])
      show "length ?s - (pos + (distance + 1)) < length str - pos" using True less.prems(1) by simp
      show "?NL \<notin> set (drop (pos + 1) ?s)"
        using True less.prems(2,3) set_drop_subset_set_drop [of k pos str] by auto
      show "\<forall>i<pos + 1. (?s ! i = ?NL) = (i mod (distance + 1) = distance)"
        using True here residue [of pos] less.prems(3) by (auto simp: nth_append less_Suc_eq)
      show "(pos + 1) mod (distance + 1) = 0"
        using less.prems(3,6) by (simp add: mod_add_self2 flip: add.assoc)
          (metis add.assoc add_Suc_right mod_add_self2)
    qed (use True less.prems(1) in simp_all)
    moreover have "without ?NL ?s = without ?NL str"
      by simp (metis append_take_drop_id filter_append)
    ultimately show ?thesis using True by (simp add: insert_linebreaks_from.simps [of str])
  qed
qed

lemma encode_with_line_breaks_decodes:
  assumes "0 < n"
  shows "\<exists>t. encode_with_line_breaks n s = Some t \<and> base64_decode t True = Inr s
    \<and> map (\<lambda>c. c = CHR 0x0A) t = map (\<lambda>i. i mod (n + 1) = n) [0..<length t]"
proof (cases "s = []")
  case True
  then show ?thesis
    by (simp add: encode_with_line_breaks_def insert_linebreaks_def base64_encode_empty base64_decode_def)
next
  case False
  let ?e = "base64_encode s False"
  have e: "?e \<noteq> []" using False base64_encode_empty by blast
  have plain: "CHR 0x0A \<notin> set ?e" using base64_encode_no_newline by (simp add: base64_encode_def)
  obtain t where t: "insert_linebreaks_from ?e n n = Some t" "without (CHR 0x0A) t = ?e"
    "\<forall>i < length t. (t ! i = CHR 0x0A) = (i mod (n + 1) = n)"
    using insert_linebreaks_from_Some [OF assms, of 0 ?e n] plain by auto
  moreover have "t \<noteq> []" using t(2) e by auto
  moreover have "base64_decode_from ?e 0 = Inr s"
    using base64_decode_encode_from [of s False 0] by (simp add: base64_encode_def)
  ultimately show ?thesis using e
    by (auto simp: encode_with_line_breaks_def insert_linebreaks_def base64_decode_def
        intro!: nth_equalityI)
qed

section \<open>Properties\<close>



end
