(* ===== verification/Intrusive_List.thy ===== *)
theory Intrusive_List
  imports Fifo
begin

text \<open>
  The intrusive circular doubly linked list of \<open>include/util/list.h\<close> at the level of its
  pointers, and its abstraction to a HOL list. An address is a natural number, the null
  pointer is \<open>None\<close>; the two fields of \<open>LinkedNode\<close> are two maps over addresses. A list
  object is its sentinel \<open>list_\<close>. Reading a field through a null pointer is \<open>None\<close>.
\<close>

type_synonym addr = nat

record lheap =
  nxt :: "addr \<Rightarrow> addr option"
  prv :: "addr \<Rightarrow> addr option"

definition new_link :: "addr \<Rightarrow> lheap \<Rightarrow> lheap" where
  "new_link a h = h\<lparr>nxt := (nxt h)(a := None), prv := (prv h)(a := None)\<rparr>"

definition ll_init :: "addr \<Rightarrow> lheap \<Rightarrow> lheap" where
  "ll_init s h = h\<lparr>nxt := (nxt h)(s := Some s), prv := (prv h)(s := Some s)\<rparr>"

definition ll_swap :: "addr \<times> addr \<Rightarrow> addr \<times> addr" where
  "ll_swap = (\<lambda>(l, m). (m, l))"

definition ll_insert :: "addr \<Rightarrow> addr \<Rightarrow> addr \<Rightarrow> lheap \<Rightarrow> lheap" where
  "ll_insert node p n h =
     (let h1 = h\<lparr>prv := (prv h)(n := Some node)\<rparr>;
          h2 = h1\<lparr>nxt := (nxt h1)(node := Some n)\<rparr>;
          h3 = h2\<lparr>prv := (prv h2)(node := Some p)\<rparr>
      in h3\<lparr>nxt := (nxt h3)(p := Some node)\<rparr>)"

definition push_front :: "addr \<Rightarrow> addr \<Rightarrow> lheap \<Rightarrow> lheap option" where
  "push_front s node h = do { n \<leftarrow> nxt h s; Some (ll_insert node s n h) }"

definition push_back :: "addr \<Rightarrow> addr \<Rightarrow> lheap \<Rightarrow> lheap option" where
  "push_back s node h = do { p \<leftarrow> prv h s; Some (ll_insert node p s h) }"

definition ll_empty :: "addr \<Rightarrow> lheap \<Rightarrow> bool" where
  "ll_empty s h \<longleftrightarrow> nxt h s = Some s"

definition ll_remove :: "addr \<Rightarrow> lheap \<Rightarrow> lheap option" where
  "ll_remove node h =
     do { n \<leftarrow> nxt h node;
          let h1 = h\<lparr>prv := (prv h)(n := prv h node)\<rparr>;
          p \<leftarrow> prv h1 node;
          let h2 = h1\<lparr>nxt := (nxt h1)(p := nxt h1 node)\<rparr>;
          let h3 = h2\<lparr>nxt := (nxt h2)(node := None)\<rparr>;
          Some (h3\<lparr>prv := (prv h3)(node := None)\<rparr>) }"

definition is_in_list :: "addr \<Rightarrow> lheap \<Rightarrow> bool" where
  "is_in_list node h = (if nxt h node = None \<or> prv h node = None then False else True)"

definition remove_safe :: "addr \<Rightarrow> lheap \<Rightarrow> lheap option" where
  "remove_safe node h = (if is_in_list node h then ll_remove node h else Some h)"

definition ll_front :: "addr \<Rightarrow> lheap \<Rightarrow> addr option" where
  "ll_front s h = (if ll_empty s h then None else nxt h s)"

definition ll_back :: "addr \<Rightarrow> lheap \<Rightarrow> addr option" where
  "ll_back s h = (if ll_empty s h then None else prv h s)"

definition pop_front :: "addr \<Rightarrow> lheap \<Rightarrow> (addr option \<times> lheap) option" where
  "pop_front s h =
     (if ll_empty s h then Some (None, h)
      else do { r \<leftarrow> nxt h s; h' \<leftarrow> ll_remove r h; Some (Some r, h') })"

definition pop_back :: "addr \<Rightarrow> lheap \<Rightarrow> (addr option \<times> lheap) option" where
  "pop_back s h =
     (if ll_empty s h then Some (None, h)
      else do { r \<leftarrow> prv h s; h' \<leftarrow> ll_remove r h; Some (Some r, h') })"

text \<open>The two loops follow \<open>next\<close> pointers until the sentinel; they need not end.\<close>

partial_function (option) clear_from :: "addr \<Rightarrow> addr \<Rightarrow> lheap \<Rightarrow> lheap option" where
  "clear_from s cur h =
     (if cur = s then Some h
      else do { n \<leftarrow> nxt h cur;
                clear_from s n (h\<lparr>nxt := (nxt h)(cur := None), prv := (prv h)(cur := None)\<rparr>) })"

definition ll_clear :: "addr \<Rightarrow> lheap \<Rightarrow> lheap option" where
  "ll_clear s h = do { cur \<leftarrow> nxt h s; clear_from s cur h }"

partial_function (option) size_from :: "addr \<Rightarrow> addr \<Rightarrow> lheap \<Rightarrow> nat \<Rightarrow> nat option" where
  "size_from s cur h count =
     (if cur = s then Some count
      else do { n \<leftarrow> nxt h cur; size_from s n h (Suc count) })"

definition ll_size :: "addr \<Rightarrow> lheap \<Rightarrow> nat option" where
  "ll_size s h = do { cur \<leftarrow> nxt h s; size_from s cur h 0 }"

section \<open>Abstraction\<close>

text \<open>
  \<open>lseg h a xs b\<close>: from \<open>a\<close> the next pointers lead through \<open>xs\<close> to \<open>b\<close> and the
  previous pointers lead back. A list with sentinel \<open>s\<close> holds \<open>xs\<close> when the segment from
  \<open>s\<close> through \<open>xs\<close> returns to \<open>s\<close> and no address occurs twice.
\<close>

primrec lseg :: "lheap \<Rightarrow> addr \<Rightarrow> addr list \<Rightarrow> addr \<Rightarrow> bool" where
  "lseg h a [] b \<longleftrightarrow> nxt h a = Some b \<and> prv h b = Some a"
| "lseg h a (x # xs) b \<longleftrightarrow> nxt h a = Some x \<and> prv h x = Some a \<and> lseg h x xs b"

definition holds_list :: "lheap \<Rightarrow> addr \<Rightarrow> addr list \<Rightarrow> bool" where
  "holds_list h s xs \<longleftrightarrow> distinct (s # xs) \<and> lseg h s xs s"

lemma lseg_append:
  "lseg h a (xs @ y # ys) b \<longleftrightarrow> lseg h a xs y \<and> lseg h y ys b"
  by (induction xs arbitrary: a) auto

text \<open>A segment only depends on the next fields of its start and middle and the previous
  fields of its middle and end.\<close>

lemma lseg_frame:
  assumes "\<And>x. x \<in> insert a (set xs) \<Longrightarrow> nxt h' x = nxt h x"
    and "\<And>x. x \<in> insert b (set xs) \<Longrightarrow> prv h' x = prv h x"
  shows "lseg h' a xs b = lseg h a xs b"
  using assms by (induction xs arbitrary: a) auto

lemma ll_insert_fields:
  "nxt (ll_insert node p n h) = (nxt h)(node := Some n, p := Some node)"
  "prv (ll_insert node p n h) = (prv h)(n := Some node, node := Some p)"
  by (simp_all add: ll_insert_def Let_def)

lemma holds_init: "holds_list (ll_init s h) s []"
  by (simp add: holds_list_def ll_init_def)

lemma holds_last:
  assumes "lseg h a xs b"
  shows "prv h b = Some (last (a # xs))"
  using assms by (induction xs arbitrary: a) auto

lemma lseg_snoc:
  assumes "lseg h a xs b" and "x \<notin> insert a (insert b (set xs))"
    and "distinct xs" and "a \<notin> set xs" and "b \<notin> set xs"
  shows "lseg (ll_insert x (last (a # xs)) b h) a (xs @ [x]) b"
  using assms
proof (induction xs arbitrary: a)
  case Nil
  then show ?case by (auto simp: ll_insert_fields)
next
  case (Cons y ys)
  have "lseg (ll_insert x (last (y # ys)) b h) y (ys @ [x]) b"
    by (rule Cons.IH) (use Cons.prems in auto)
  then show ?case using Cons.prems by (auto simp: ll_insert_fields)
qed

lemma push_back_holds:
  assumes "holds_list h s xs" and "x \<notin> insert s (set xs)"
  shows "\<exists>h'. push_back s x h = Some h' \<and> holds_list h' s (xs @ [x])"
proof -
  from assms(1) have seg: "lseg h s xs s" and d: "distinct xs" "s \<notin> set xs"
    by (simp_all add: holds_list_def)
  have "push_back s x h = Some (ll_insert x (last (s # xs)) s h)"
    using holds_last [OF seg] by (simp add: push_back_def)
  moreover have "lseg (ll_insert x (last (s # xs)) s h) s (xs @ [x]) s"
    by (rule lseg_snoc [OF seg]) (use assms(2) d in auto)
  ultimately show ?thesis using assms(2) d by (auto simp: holds_list_def)
qed

lemma push_front_holds:
  assumes "holds_list h s xs" and "x \<notin> insert s (set xs)"
  shows "\<exists>h'. push_front s x h = Some h' \<and> holds_list h' s (x # xs)"
proof (cases xs)
  case Nil
  then show ?thesis using assms
    by (auto simp: holds_list_def push_front_def ll_insert_fields)
next
  case (Cons y ys)
  let ?h = "ll_insert x s y h"
  from assms Cons have d: "x \<noteq> s" "x \<noteq> y" "s \<noteq> y" "x \<notin> set ys" "s \<notin> set ys" "y \<notin> set ys"
    and seg: "lseg h y ys s"
    by (auto simp: holds_list_def)
  have "lseg ?h y ys s = lseg h y ys s"
    by (rule lseg_frame) (use d in \<open>auto simp: ll_insert_fields\<close>)
  then show ?thesis using assms Cons d seg
    by (auto simp: holds_list_def push_front_def ll_insert_fields)
qed

text \<open>Unlinking: the node leaves the list it is in, which is found through its own links.\<close>

lemma remove_fields:
  assumes "nxt h x = Some b" and "prv h x = Some a" and "b \<noteq> x" and "a \<noteq> x"
  shows "\<exists>h'. ll_remove x h = Some h'
    \<and> nxt h' = (nxt h)(a := Some b, x := None) \<and> prv h' = (prv h)(b := Some a, x := None)"
  using assms by (auto simp: ll_remove_def Let_def)

lemma lseg_bridge:
  assumes "lseg h a xs x" and "lseg h x ys b" and "distinct (xs @ x # ys)"
    and "a \<notin> set (xs @ x # ys)" and "b \<notin> set (xs @ x # ys)"
    and "nxt h' = (nxt h)(last (a # xs) := Some (hd (ys @ [b])), x := None)"
    and "prv h' = (prv h)(hd (ys @ [b]) := Some (last (a # xs)), x := None)"
  shows "lseg h' a (xs @ ys) b"
  using assms
proof (induction xs arbitrary: a)
  case Nil
  show ?case
  proof (cases ys)
    case Nil
    then show ?thesis using \<open>lseg h a [] x\<close> Nil.prems by simp
  next
    case (Cons w ws)
    have "lseg h' w ws b = lseg h w ws b"
      by (rule lseg_frame) (use Cons Nil.prems in \<open>simp, blast\<close>)+
    then show ?thesis using Cons Nil.prems by simp
  qed
next
  case (Cons y xs)
  have "lseg h' y (xs @ ys) b"
    by (rule Cons.IH) (use Cons.prems in simp_all)
  moreover have "hd (ys @ [b]) \<noteq> y" using Cons.prems(3,5) by (cases ys) auto
  moreover have "last (y # xs) \<noteq> a" using Cons.prems(4) by auto
  ultimately show ?case using Cons.prems by auto
qed

lemma lseg_cut:
  assumes "lseg h a (xs @ x # ys) b" and "distinct (xs @ x # ys)"
    and "a \<notin> set (xs @ x # ys)" and "b \<notin> set (xs @ x # ys)"
  shows "\<exists>h'. ll_remove x h = Some h' \<and> lseg h' a (xs @ ys) b
    \<and> nxt h' x = None \<and> prv h' x = None
    \<and> (\<forall>y. y \<notin> insert a (insert b (set (xs @ x # ys))) \<longrightarrow> nxt h' y = nxt h y \<and> prv h' y = prv h y)"
proof -
  let ?p = "last (a # xs)" and ?n = "hd (ys @ [b])"
  from assms(1) have l: "lseg h a xs x" and r: "lseg h x ys b"
    by (simp_all add: lseg_append)
  have p: "prv h x = Some ?p" by (rule holds_last [OF l])
  have n: "nxt h x = Some ?n" using r by (cases ys) auto
  have nin: "?n \<in> insert b (set ys)" by (cases ys) auto
  have pin: "?p \<in> insert a (set xs)" by (cases xs rule: rev_cases) auto
  have ne: "?n \<noteq> x" "?p \<noteq> x" using nin pin assms(2-4) by auto
  obtain h' where h': "ll_remove x h = Some h'"
    and nx: "nxt h' = (nxt h)(?p := Some ?n, x := None)"
    and pv: "prv h' = (prv h)(?n := Some ?p, x := None)"
    using remove_fields [OF n p ne] by blast
  have "lseg h' a (xs @ ys) b"
    by (rule lseg_bridge [OF l r assms(2-4) nx pv])
  moreover have "nxt h' y = nxt h y \<and> prv h' y = prv h y"
    if "y \<notin> insert a (insert b (set (xs @ x # ys)))" for y
  proof -
    from that have "y \<noteq> x" "y \<noteq> ?p" "y \<noteq> ?n" using nin pin by auto
    then show ?thesis by (simp add: nx pv)
  qed
  ultimately show ?thesis using h' by (simp add: nx pv)
qed

lemma remove_holds:
  assumes "holds_list h s (xs @ x # ys)"
  shows "\<exists>h'. ll_remove x h = Some h' \<and> holds_list h' s (xs @ ys) \<and> \<not> is_in_list x h'"
  using lseg_cut [of h s xs x ys s] assms
  by (auto simp: holds_list_def is_in_list_def)

text \<open>Operations on one list leave every disjoint list as it is.\<close>

lemma remove_other_list:
  assumes "holds_list h s (xs @ x # ys)" and "holds_list h t zs"
    and "set (t # zs) \<inter> set (s # xs @ x # ys) = {}" and "ll_remove x h = Some h'"
  shows "holds_list h' t zs"
proof -
  obtain h'' where "ll_remove x h = Some h''"
    and eq: "\<forall>y. y \<notin> insert s (insert s (set (xs @ x # ys)))
        \<longrightarrow> nxt h'' y = nxt h y \<and> prv h'' y = prv h y"
    using lseg_cut [of h s xs x ys s] assms(1) by (auto simp: holds_list_def)
  with assms(4) have eq': "\<forall>y. y \<notin> set (s # xs @ x # ys)
        \<longrightarrow> nxt h' y = nxt h y \<and> prv h' y = prv h y" by auto
  have "lseg h' t zs t = lseg h t zs t"
    by (rule lseg_frame) (use eq' assms(3) in auto)
  with assms(2) show ?thesis by (simp add: holds_list_def)
qed

section \<open>Popping, counting, clearing\<close>

lemma holds_empty_iff: "holds_list h s xs \<Longrightarrow> ll_empty s h \<longleftrightarrow> xs = []"
  by (cases xs) (auto simp: holds_list_def ll_empty_def)

lemma pop_front_holds:
  assumes "holds_list h s (x # xs)"
  shows "\<exists>h'. pop_front s h = Some (Some x, h') \<and> holds_list h' s xs"
proof -
  from assms have "nxt h s = Some x" and "\<not> ll_empty s h"
    by (auto simp: holds_list_def ll_empty_def)
  moreover obtain h' where "ll_remove x h = Some h'" "holds_list h' s xs"
    using remove_holds [of h s "[]" x xs] assms by auto
  ultimately show ?thesis by (simp add: pop_front_def)
qed

lemma pop_back_holds:
  assumes "holds_list h s (xs @ [x])"
  shows "\<exists>h'. pop_back s h = Some (Some x, h') \<and> holds_list h' s xs"
proof -
  from assms have "lseg h s (xs @ [x]) s" by (simp add: holds_list_def)
  from holds_last [OF this] have "prv h s = Some x" by simp
  moreover have "\<not> ll_empty s h" using holds_empty_iff [OF assms] by simp
  moreover obtain h' where "ll_remove x h = Some h'" "holds_list h' s xs"
    using remove_holds [of h s xs x "[]"] assms by auto
  ultimately show ?thesis by (simp add: pop_back_def)
qed

interpretation ilist: fifo "\<lambda>h. holds_list h s" "\<lambda>x xs. x \<notin> insert s (set xs)" "push_back s" "pop_front s"
  for s
  by unfold_locales
    (use push_back_holds pop_front_holds holds_empty_iff in \<open>auto simp: pop_front_def\<close>)

lemma size_from_seg:
  assumes "lseg h a xs s" and "s \<notin> set xs"
  shows "\<exists>c. nxt h a = Some c \<and> size_from s c h n = Some (n + length xs)"
  using assms
proof (induction xs arbitrary: a n)
  case Nil
  then show ?case by (simp add: size_from.simps)
next
  case (Cons x xs)
  then obtain c where "nxt h x = Some c" "size_from s c h (Suc n) = Some (Suc n + length xs)"
    by fastforce
  with Cons.prems show ?case by (simp add: size_from.simps [of s x])
qed

lemma size_holds: "holds_list h s xs \<Longrightarrow> ll_size s h = Some (length xs)"
  using size_from_seg [of h s xs s 0] by (auto simp: holds_list_def ll_size_def)

text \<open>
  \<open>clear\<close> unlinks every node but does not reset the sentinel, so the list object still
  points to its former first node. The code only calls it from the destructor, which deletes
  the sentinel next.
\<close>

primrec nchain :: "lheap \<Rightarrow> addr list \<Rightarrow> addr \<Rightarrow> bool" where
  "nchain h [] s \<longleftrightarrow> True"
| "nchain h (x # xs) s \<longleftrightarrow> nxt h x = Some (hd (xs @ [s])) \<and> nchain h xs s"

lemma lseg_nchain: "lseg h a xs b \<Longrightarrow> nxt h a = Some (hd (xs @ [b])) \<and> nchain h xs b"
  by (induction xs arbitrary: a) auto

lemma nchain_frame:
  "(\<And>x. x \<in> set xs \<Longrightarrow> nxt h' x = nxt h x) \<Longrightarrow> nchain h' xs s = nchain h xs s"
  by (induction xs) auto

lemma clear_from_chain:
  assumes "nchain h xs s" and "distinct xs" and "s \<notin> set xs"
  shows "\<exists>h'. clear_from s (hd (xs @ [s])) h = Some h'
    \<and> nxt h' = (\<lambda>x. if x \<in> set xs then None else nxt h x)
    \<and> prv h' = (\<lambda>x. if x \<in> set xs then None else prv h x)"
  using assms
proof (induction xs arbitrary: h)
  case Nil
  then show ?case by (simp add: clear_from.simps)
next
  case (Cons x xs)
  let ?h = "h\<lparr>nxt := (nxt h)(x := None), prv := (prv h)(x := None)\<rparr>"
  have "nchain ?h xs s = nchain h xs s"
    by (rule nchain_frame) (use Cons.prems in auto)
  then obtain h' where h': "clear_from s (hd (xs @ [s])) ?h = Some h'"
    and f: "nxt h' = (\<lambda>z. if z \<in> set xs then None else nxt ?h z)"
      "prv h' = (\<lambda>z. if z \<in> set xs then None else prv ?h z)"
    using Cons.IH [of ?h] Cons.prems by auto
  have "clear_from s x h = Some h'"
    using Cons.prems h' by (simp add: clear_from.simps [of s x])
  with f show ?case by (auto simp: fun_eq_iff)
qed

lemma clear_holds:
  assumes "holds_list h s xs"
  shows "\<exists>h'. ll_clear s h = Some h' \<and> (\<forall>x \<in> set xs. \<not> is_in_list x h')
    \<and> nxt h' s = nxt h s"
proof -
  from assms have "nxt h s = Some (hd (xs @ [s]))" "nchain h xs s"
    and d: "distinct xs" "s \<notin> set xs"
    using lseg_nchain [of h s xs s] by (auto simp: holds_list_def)
  with clear_from_chain [OF this(2) d] show ?thesis
    by (auto simp: ll_clear_def is_in_list_def)
qed

end
