(* ===== verification/Chart_Formats.thy ===== *)
theory Chart_Formats
  imports Loader_Props Event_Loader
begin

text \<open>
  A flowchart written in the two formats, and what the two loaders make of it.
\<close>

section \<open>Flowcharts\<close>

text \<open>The nodes are counted from 1; 0 is the start node, whose children are \<open>g_start\<close>.\<close>

datatype graph_func = GFunction string | GEvent string | GControl control "nat list"

record graph_node =
  g_uid :: string
  g_text :: string
  g_func :: graph_func
  g_fail :: "nat list"
  g_success :: "nat list"

record graph =
  g_path :: string
  g_start_uid :: string
  g_start :: "nat list"
  g_nodes :: "graph_node list"

definition uid_of :: "graph \<Rightarrow> nat \<Rightarrow> string" where
  "uid_of g i = (if i = 0 then g_start_uid g else g_uid (g_nodes g ! (i - 1)))"

fun func_refs :: "graph_func \<Rightarrow> nat list" where
  "func_refs (GControl k ps) = ps"
| "func_refs _ = []"

definition node_refs :: "graph_node \<Rightarrow> nat set" where
  "node_refs n = set (g_fail n) \<union> set (g_success n) \<union> set (func_refs (g_func n))"

text \<open>Uids are distinct and none has the length of a uid without dashes; edges and arguments lead to
  nodes other than the start node.\<close>

definition graph_ok :: "graph \<Rightarrow> bool" where
  "graph_ok g \<longleftrightarrow> distinct (g_start_uid g # map g_uid (g_nodes g))
     \<and> (\<forall>i \<le> length (g_nodes g). length (uid_of g i) \<noteq> 32)
     \<and> set (g_start g) \<subseteq> {1..length (g_nodes g)}
     \<and> (\<forall>n \<in> set (g_nodes g). node_refs n \<subseteq> {1..length (g_nodes g)})"

text \<open>What a loader is to make of it.\<close>

fun data_func :: "creator \<Rightarrow> graph_func \<Rightarrow> node_func option" where
  "data_func create (GFunction f) = create [] f"
| "data_func create (GEvent f) = create [] f"
| "data_func create (GControl k ps) = Some (Control k (map int ps))"

fun is_gevent :: "graph_func \<Rightarrow> bool" where
  "is_gevent (GEvent _) = True"
| "is_gevent _ = False"

definition node_of :: "creator \<Rightarrow> nat \<Rightarrow> graph_node \<Rightarrow> node_data" where
  "node_of create i n = (new_node_data i)\<lparr>node_uid := g_uid n, node_text := g_text n,
     node_func := data_func create (g_func n), is_event := is_gevent (g_func n),
     children_false := g_fail n, children_true := g_success n\<rparr>"

definition start_of :: "string \<Rightarrow> graph \<Rightarrow> node_data" where
  "start_of uid g = (new_node_data 0)\<lparr>node_uid := uid, children_false := g_start g, children_true := g_start g\<rparr>"

definition data_of_graph :: "creator \<Rightarrow> string \<Rightarrow> graph \<Rightarrow> chart_data" where
  "data_of_graph create uid g = new_chart_data\<lparr>chart_name := g_path g,
     node_list := start_of uid g # map (\<lambda>(i, n). node_of create i n) (enumerate 1 (g_nodes g))\<rparr>"

section \<open>JSON\<close>

definition uids_json :: "graph \<Rightarrow> nat list \<Rightarrow> json" where
  "uids_json g is = JArr (map (\<lambda>i. JStr (uid_of g i)) is)"

fun control_json :: "control \<Rightarrow> string" where
  "control_json WaitAll = ''wait_all''"
| "control_json StopNode = ''stop_node''"
| "control_json StopFlow = ''stop_flow''"

fun func_json :: "graph \<Rightarrow> graph_func \<Rightarrow> (string \<times> json) list" where
  "func_json g (GFunction f) = [(''type'', JStr ''function''), (''funcName'', JStr f)]"
| "func_json g (GEvent f) = [(''type'', JStr ''event''), (''funcName'', JStr f)]"
| "func_json g (GControl k ps) = [(''type'', JStr ''control''), (''funcName'', JStr (control_json k)),
     (''param'', uids_json g ps)]"

definition node_json :: "graph \<Rightarrow> graph_node \<Rightarrow> json" where
  "node_json g n = JObj ([(''uid'', JStr (g_uid n)), (''text'', JStr (g_text n)),
     (''success'', uids_json g (g_success n)), (''fail'', uids_json g (g_fail n))] @ func_json g (g_func n))"

definition graph_json :: "graph \<Rightarrow> json" where
  "graph_json g = JObj [(''path'', JStr (g_path g)), (''start'', uids_json g (g_start g)),
     (''nodes'', JArr (map (node_json g) (g_nodes g)))]"

text \<open>The identifiers of the uids.\<close>

definition knows :: "graph \<Rightarrow> nat set \<Rightarrow> id_map \<Rightarrow> bool" where
  "knows g I ids \<longleftrightarrow> (\<forall>i \<in> I. ids (uid_of g i) = Some i)"

lemma uid_of_inj:
  assumes "graph_ok g" "i \<le> length (g_nodes g)" "j \<le> length (g_nodes g)" "uid_of g i = uid_of g j"
  shows "i = j"
proof -
  have uid: "uid_of g k = (g_start_uid g # map g_uid (g_nodes g)) ! k" if "k \<le> length (g_nodes g)" for k
    using that by (cases k) (auto simp: uid_of_def)
  show ?thesis
    using assms uid nth_eq_iff_index_eq [of "g_start_uid g # map g_uid (g_nodes g)" i j]
    by (simp add: graph_ok_def less_Suc_eq_le)
qed

lemma known_uids:
  assumes "knows g I ids" "set is \<subseteq> I"
  shows "known_ids ids (uids_json g is) = Some is"
proof -
  have "mapM GetString (map (\<lambda>i. JStr (uid_of g i)) is) = Some (map (uid_of g) is)" by (induction "is") auto
  moreover have "List.map_filter ids (map (uid_of g) is) = is"
    using assms by (induction "is") (auto simp: knows_def map_filter_def)
  ultimately show ?thesis by (simp add: known_ids_def uids_json_def)
qed

lemma node_json_load:
  assumes "knows g I ids" "node_refs n \<subseteq> I"
  shows "InitFromJson create ids (node_json g n) (new_node_data i) = Some (node_of create i n)"
proof -
  have known: "known_ids ids (uids_json g (g_success n)) = Some (g_success n)"
    "known_ids ids (uids_json g (g_fail n)) = Some (g_fail n)"
    "known_ids ids (uids_json g (func_refs (g_func n))) = Some (func_refs (g_func n))"
    using assms by (auto simp: node_refs_def intro!: known_uids)
  show ?thesis
  proof (cases "g_func n")
    case (GControl k ps)
    with known show ?thesis
      by (cases k) (simp_all add: InitFromJson_def node_json_def optional_string_def json_func_def json_control_def
        json_children_def node_of_def new_node_data_def)
  qed (use known in \<open>simp_all add: InitFromJson_def node_json_def optional_string_def json_func_def
        json_children_def node_of_def new_node_data_def\<close>)
qed

lemma fold_ids_other:
  "u \<notin> set us \<Longrightarrow> fold (\<lambda>(i, uid) m. m(uid \<mapsto> i)) (enumerate k us) m u = m u"
  by (induction us arbitrary: k m) auto

lemma fold_ids_nth:
  "distinct us \<Longrightarrow> j < length us \<Longrightarrow>
    fold (\<lambda>(i, uid) m. m(uid \<mapsto> i)) (enumerate k us) m (us ! j) = Some (k + j)"
  by (induction us arbitrary: k m j) (auto simp: less_Suc_eq_0_disj fold_ids_other)

lemma json_ids_load:
  assumes "graph_ok g"
  obtains ids where "json_ids (map (node_json g) (g_nodes g)) = Some ids" "knows g {1..length (g_nodes g)} ids"
proof -
  let ?us = "map g_uid (g_nodes g)"
  let ?ids = "fold (\<lambda>(i, uid) m. m(uid \<mapsto> i)) (enumerate 1 ?us) (\<lambda>_. None)"
  have "mapM (\<lambda>n. do { u \<leftarrow> member_value ''uid'' n; GetString u }) (map (node_json g) ns) = Some (map g_uid ns)" for ns
    by (induction ns) (auto simp: node_json_def member_value_def)
  then have "json_ids (map (node_json g) (g_nodes g)) = Some ?ids" by (simp add: json_ids_def)
  moreover have "?ids (uid_of g i) = Some i" if "i \<in> {1..length (g_nodes g)}" for i
  proof -
    from that have "i - 1 < length ?us" "i \<noteq> 0" by auto
    with assms fold_ids_nth [of ?us "i - 1" 1 "\<lambda>_. None"] show ?thesis
      by (simp add: graph_ok_def uid_of_def)
  qed
  ultimately show ?thesis by (intro that) (auto simp: knows_def)
qed

lemma json_starts_load:
  assumes "knows g I ids" "set is \<subseteq> I"
  shows "json_starts (map (\<lambda>i. JStr (uid_of g i)) is) ids = Some (is, ids)"
  using assms(2) by (induction "is") (use assms(1) in \<open>auto simp: knows_def index_or_insert_def\<close>)

lemma json_nodes_load:
  assumes "knows g I ids" "\<forall>n \<in> set ns. node_refs n \<subseteq> I"
  shows "mapM (\<lambda>(i, j). InitFromJson create ids j (new_node_data i)) (enumerate k (map (node_json g) ns))
    = Some (map (\<lambda>(i, n). node_of create i n) (enumerate k ns))"
  using assms(2) by (induction ns arbitrary: k) (simp_all add: node_json_load [OF assms(1)])

lemma graph_json_load:
  assumes "graph_ok g"
  shows "FromJson create (graph_json g) = Some (True, data_of_graph create [] g)"
proof -
  let ?I = "{1..length (g_nodes g)}"
  obtain ids where ids: "json_ids (map (node_json g) (g_nodes g)) = Some ids" "knows g ?I ids"
    using assms by (rule json_ids_load)
  have starts: "json_starts (map (\<lambda>i. JStr (uid_of g i)) (g_start g)) ids = Some (g_start g, ids)"
    using assms ids(2) by (intro json_starts_load) (auto simp: graph_ok_def)
  have nodes: "json_nodes create ids (map (node_json g) (g_nodes g))
      = Some (map (\<lambda>(i, n). node_of create i n) (enumerate 1 (g_nodes g)))"
    unfolding json_nodes_def using assms by (intro json_nodes_load [OF ids(2)]) (auto simp: graph_ok_def)
  show ?thesis
    by (simp add: FromJson_def graph_json_def uids_json_def ids starts nodes Let_def optional_string_def
        data_of_graph_def start_of_def new_chart_data_def new_node_data_def)
qed

section \<open>YAML\<close>

fun control_yaml :: "control \<Rightarrow> string" where
  "control_yaml WaitAll = ''waitall''"
| "control_yaml StopNode = ''stopnode''"
| "control_yaml StopFlow = ''stopflow''"

fun func_yaml :: "graph \<Rightarrow> graph_func \<Rightarrow> yaml" where
  "func_yaml g (GFunction f) = YMap [(''type'', YVal ''FUNC''), (''func_name'', YVal f)]"
| "func_yaml g (GEvent f) = YMap [(''type'', YVal ''EVENT''), (''func_name'', YVal f)]"
| "func_yaml g (GControl k ps) = YMap [(''type'', YVal ''CONTROL''),
     (''content'', YSeq (YVal (control_yaml k) # map (\<lambda>i. YVal (uid_of g i)) ps))]"

definition node_yaml :: "graph \<Rightarrow> graph_node \<Rightarrow> yaml" where
  "node_yaml g n = YMap [(''uid'', YVal (g_uid n)), (''text'', YVal (g_text n)), (''code'', func_yaml g (g_func n))]"

definition edge_yaml :: "graph \<Rightarrow> nat \<Rightarrow> string \<Rightarrow> nat \<Rightarrow> yaml" where
  "edge_yaml g i type j =
     YMap [(''start'', YVal (uid_of g i)), (''end'', YVal (uid_of g j)), (''type'', YVal type)]"

definition node_edges :: "graph \<Rightarrow> nat \<times> graph_node \<Rightarrow> yaml list" where
  "node_edges g e = (let (i, n) = e in map (edge_yaml g i ''0'') (g_fail n) @ map (edge_yaml g i ''1'') (g_success n))"

definition graph_yaml :: "graph \<Rightarrow> yaml" where
  "graph_yaml g = YMap [(''path'', YVal (g_path g)),
     (''nodes'', YSeq (YMap [(''uid'', YVal (g_start_uid g))] # map (node_yaml g) (g_nodes g))),
     (''connectors'', YSeq (map (edge_yaml g 0 ''2'') (g_start g)
        @ concat (map (node_edges g) (enumerate 1 (g_nodes g)))))]"

text \<open>The nodes after the first loop and after the second.\<close>

definition bare_node :: "nat \<Rightarrow> string \<Rightarrow> node_data" where
  "bare_node i uid = (new_node_data i)\<lparr>node_uid := uid\<rparr>"

definition plain_node :: "creator \<Rightarrow> nat \<Rightarrow> graph_node \<Rightarrow> node_data" where
  "plain_node create i n = (node_of create i n)\<lparr>children_false := [], children_true := []\<rparr>"

lemma yaml_params_load:
  assumes "knows g I ids" "set is \<subseteq> I" "\<forall>i \<in> I. length (uid_of g i) \<noteq> 32"
  shows "yaml_params ids (map (\<lambda>i. YVal (uid_of g i)) is) = Some (Some (map int is))"
  using assms(2)
proof (induction "is")
  case (Cons i "is")
  then have "uid_with_dashes (uid_of g i) = uid_of g i" using assms(3) by (simp add: uid_with_dashes_def)
  with Cons assms(1) show ?case by (simp add: knows_def)
qed simp

lemma node_yaml_load:
  assumes "knows g I ids" "set (func_refs (g_func n)) \<subseteq> I" "\<forall>i \<in> I. length (uid_of g i) \<noteq> 32"
    and "i \<in> I" "i \<noteq> 0" "g_uid n = uid_of g i"
  shows "InitFromYaml create d (node_yaml g n) (ids, bare_node i (g_uid n)) = Some (True, ids, plain_node create i n)"
proof -
  have ids: "ids(uid_of g i \<mapsto> i) = ids" using assms(1,4) by (auto simp: knows_def)
  note defs = InitFromYaml_def node_yaml_def child_val_def yaml_code_def yaml_function_def yaml_control_def
    bare_node_def plain_node_def node_of_def new_node_data_def
  show ?thesis
  proof (cases "g_func n")
    case (GControl k ps)
    with yaml_params_load [OF assms(1) _ assms(3), of ps] assms(2,5,6) ids show ?thesis
      by (cases k) (simp_all add: defs control_of_name_def)
  qed (use assms(5,6) ids in \<open>simp_all add: defs\<close>)
qed

lemma yaml_new_nodes_load:
  assumes "list_all2 (\<lambda>y u. find_child ''uid'' y = Some (Some (YVal u))) ys us"
  shows "foldM yaml_new_node (enumerate k ys) (ids, ns)
    = Some (fold (\<lambda>(i, uid) m. m(uid \<mapsto> i)) (enumerate k us) ids,
        ns @ map (\<lambda>(i, u). bare_node i u) (enumerate k us))"
  using assms
  by (induction ys us arbitrary: k ids ns rule: list_all2_induct) (simp_all add: yaml_new_node_def bare_node_def)

lemma yaml_init_nodes_load:
  assumes ids: "knows g I ids" "\<forall>i \<in> I. length (uid_of g i) \<noteq> 32"
    and ns: "\<forall>(i, n) \<in> set (enumerate k ns). i \<in> I \<and> set (func_refs (g_func n)) \<subseteq> I \<and> g_uid n = uid_of g i"
    and d: "node_list d = pre @ map (\<lambda>(i, n). bare_node i (g_uid n)) (enumerate k ns)" "length pre = k" "k > 0"
  shows "yaml_init_nodes create k (map (node_yaml g) ns) (ids, d)
    = Some (True, ids, d\<lparr>node_list := pre @ map (\<lambda>(i, n). plain_node create i n) (enumerate k ns)\<rparr>)"
  using ns d
proof (induction ns arbitrary: k pre d)
  case (Cons n ns)
  have node: "GetNodeData k d = Some (bare_node k (g_uid n))"
    using Cons.prems(2,3) by (auto simp: GetNodeData_def)
  have init: "InitFromYaml create d (node_yaml g n) (ids, bare_node k (g_uid n)) = Some (True, ids, plain_node create k n)"
    using Cons.prems(1,4) ids by (intro node_yaml_load) auto
  let ?d = "d\<lparr>node_list := (node_list d)[k := plain_node create k n]\<rparr>"
  have list: "node_list ?d = (pre @ [plain_node create k n]) @ map (\<lambda>(i, n). bare_node i (g_uid n)) (enumerate (Suc k) ns)"
    using Cons.prems(2,3) by auto
  have rest: "yaml_init_nodes create (Suc k) (map (node_yaml g) ns) (ids, ?d) = Some (True, ids, ?d\<lparr>node_list :=
      (pre @ [plain_node create k n]) @ map (\<lambda>(i, n). plain_node create i n) (enumerate (Suc k) ns)\<rparr>)"
    by (rule Cons.IH [OF _ list]) (use Cons.prems(1,3) in auto)
  from node init rest show ?case by simp
qed simp

lemma stoi_types: "stoi ''0'' = Inr 0" "stoi ''1'' = Inr 1" "stoi ''2'' = Inr 2"
  by code_simp+

lemma connect_edges:
  assumes "knows g I ids" "set js \<subseteq> I" "i \<in> I" "stoi t = Inr type" "i < length ns"
  shows "connect ids (map (edge_yaml g i t) js @ cs) ns
    = connect ids cs (ns[i := fold (\<lambda>j. AddSubsequence j type) js (ns ! i)])"
  using assms(2,5)
  by (induction js arbitrary: ns) (use assms(1,3,4) in \<open>auto simp: edge_yaml_def child_val_def knows_def\<close>)

lemma add_children:
  "fold (\<lambda>j. AddSubsequence j 0) js nd = nd\<lparr>children_false := children_false nd @ js\<rparr>"
  "fold (\<lambda>j. AddSubsequence j 1) js nd = nd\<lparr>children_true := children_true nd @ js\<rparr>"
  "fold (\<lambda>j. AddSubsequence j 2) js nd
    = nd\<lparr>children_false := children_false nd @ js, children_true := children_true nd @ js\<rparr>"
  by (induction js arbitrary: nd) (simp_all add: AddSubsequence_def)

lemma connect_nodes:
  assumes ids: "knows g I ids"
    and ns: "\<forall>(i, n) \<in> set (enumerate k ns). i \<in> I \<and> node_refs n \<subseteq> I" and pre: "length pre = k"
  shows "connect ids (concat (map (node_edges g) (enumerate k ns))) (pre @ map (\<lambda>(i, n). plain_node create i n) (enumerate k ns))
    = Some (Inr (pre @ map (\<lambda>(i, n). node_of create i n) (enumerate k ns)))"
  using ns pre
proof (induction ns arbitrary: k pre)
  case (Cons n ns)
  from Cons.prems(1) have k: "k \<in> I" "set (g_fail n) \<subseteq> I" "set (g_success n) \<subseteq> I"
    by (auto simp: node_refs_def)
  have node: "(plain_node create k n)\<lparr>children_false := g_fail n, children_true := g_success n\<rparr> = node_of create k n"
    "children_false (plain_node create k n) = []" "children_true (plain_node create k n) = []"
    by (simp_all add: plain_node_def node_of_def)
  have rest: "connect ids (concat (map (node_edges g) (enumerate (Suc k) ns)))
      ((pre @ [node_of create k n]) @ map (\<lambda>(i, n). plain_node create i n) (enumerate (Suc k) ns))
    = Some (Inr ((pre @ [node_of create k n]) @ map (\<lambda>(i, n). node_of create i n) (enumerate (Suc k) ns)))"
    by (rule Cons.IH) (use Cons.prems in auto)
  have "connect ids (node_edges g (k, n) @ cs) (pre @ plain_node create k n # rs)
      = connect ids cs (pre @ node_of create k n # rs)" for cs rs
    using k Cons.prems(2) by (simp add: node_edges_def connect_edges [OF ids _ _ stoi_types(1)]
        connect_edges [OF ids _ _ stoi_types(2)] add_children nth_append list_update_append node)
  with rest show ?case by simp
qed simp

lemma graph_yaml_load:
  assumes g: "graph_ok g"
  shows "\<exists>d. FromYaml create (graph_yaml g) = Some (Inr (True, d))
    \<and> d = data_of_graph create (g_start_uid g) g"
proof -
  let ?us = "g_start_uid g # map g_uid (g_nodes g)" and ?I = "{0..length (g_nodes g)}"
  let ?ys = "YMap [(''uid'', YVal (g_start_uid g))] # map (node_yaml g) (g_nodes g)"
  let ?ids = "fold (\<lambda>(i, uid) m. m(uid \<mapsto> i)) (enumerate 0 ?us) (\<lambda>_. None)"
  have uid: "uid_of g i = ?us ! i" if "i < length ?us" for i using that by (cases i) (auto simp: uid_of_def)
  have dist: "distinct ?us" and len: "\<forall>i \<in> ?I. length (uid_of g i) \<noteq> 32"
    and start: "set (g_start g) \<subseteq> ?I" and refs: "\<forall>n \<in> set (g_nodes g). node_refs n \<subseteq> ?I"
    using g by (fastforce simp: graph_ok_def)+
  have knows: "knows g ?I ?ids"
    using fold_ids_nth [OF dist, of _ 0 "\<lambda>_. None"] by (auto simp: knows_def uid less_Suc_eq_le)
  have "list_all2 (\<lambda>y u. find_child ''uid'' y = Some (Some (YVal u))) ?ys ?us"
    by (simp add: list_all2_map1 list_all2_map2 list.rel_refl node_yaml_def)
  from yaml_new_nodes_load [OF this, of 0 "\<lambda>_. None" "[]"] have new:
    "foldM yaml_new_node (enumerate 0 ?ys) (\<lambda>_. None, []) = Some (?ids, map (\<lambda>(i, u). bare_node i u) (enumerate 0 ?us))"
    by simp
  have nodes: "\<forall>(i, n) \<in> set (enumerate 1 (g_nodes g)). i \<in> ?I \<and> node_refs n \<subseteq> ?I \<and> g_uid n = uid_of g i"
  proof -
    have "node_refs (g_nodes g ! (i - Suc 0)) \<subseteq> ?I" if "Suc 0 \<le> i" "i < Suc (length (g_nodes g))" for i
      using refs that by simp
    then have "x \<le> length (g_nodes g)" if "x \<in> node_refs (g_nodes g ! (i - Suc 0))" "Suc 0 \<le> i"
      "i < Suc (length (g_nodes g))" for i x using that by fastforce
    then show ?thesis by (auto simp: in_set_enumerate_eq uid_of_def)
  qed
  define d0 where "d0 = new_chart_data\<lparr>chart_name := g_path g,
    node_list := [bare_node 0 (g_start_uid g)] @ map (\<lambda>(i, n). bare_node i (g_uid n)) (enumerate 1 (g_nodes g))\<rparr>"
  have bare: "map (\<lambda>(i, u). bare_node i u) (enumerate k (map g_uid ns))
      = map (\<lambda>(i, n). bare_node i (g_uid n)) (enumerate k ns)" for k ns
    by (induction ns arbitrary: k) auto
  let ?plain = "map (\<lambda>(i, n). plain_node create i n) (enumerate 1 (g_nodes g))"
  have "yaml_init_nodes create 1 (map (node_yaml g) (g_nodes g)) (?ids, d0)
      = Some (True, ?ids, d0\<lparr>node_list := [bare_node 0 (g_start_uid g)] @ ?plain\<rparr>)"
    by (rule yaml_init_nodes_load [OF knows len]) (use nodes in \<open>auto simp: d0_def node_refs_def\<close>)
  moreover have ids0: "?ids(g_start_uid g \<mapsto> 0) = ?ids"
  proof (rule fun_upd_idem)
    have "?ids (uid_of g 0) = Some 0" using knows unfolding knows_def by (rule bspec) simp
    then show "?ids (g_start_uid g) = Some 0" unfolding uid_of_def by simp
  qed
  ultimately have init: "yaml_init_nodes create 0 ?ys (?ids, d0)
      = Some (True, ?ids, d0\<lparr>node_list := [bare_node 0 (g_start_uid g)] @ ?plain\<rparr>)"
    by (simp add: InitFromYaml_def child_val_def GetNodeData_def d0_def bare_node_def new_node_data_def)
  let ?start = "start_of (g_start_uid g) g"
  have "connect ?ids (map (edge_yaml g 0 ''2'') (g_start g) @ cs) (bare_node 0 (g_start_uid g) # rs)
      = connect ?ids cs (?start # rs)" for cs rs
    using connect_edges [OF knows start _ stoi_types(3), of 0 "bare_node 0 (g_start_uid g) # rs" cs]
    unfolding add_children by (simp add: bare_node_def start_of_def new_node_data_def)
  moreover have "connect ?ids (concat (map (node_edges g) (enumerate 1 (g_nodes g)))) ([?start] @ ?plain)
      = Some (Inr ([?start] @ map (\<lambda>(i, n). node_of create i n) (enumerate 1 (g_nodes g))))"
    by (rule connect_nodes [OF knows]) (use nodes in auto)
  ultimately have conn: "connect ?ids (map (edge_yaml g 0 ''2'') (g_start g)
        @ concat (map (node_edges g) (enumerate 1 (g_nodes g)))) ([bare_node 0 (g_start_uid g)] @ ?plain)
      = Some (Inr (?start # map (\<lambda>(i, n). node_of create i n) (enumerate 1 (g_nodes g))))"
    by simp
  have nds: "map (\<lambda>(i, u). bare_node i u) (enumerate 0 ?us) = node_list d0"
    by (simp add: d0_def bare)
  have load: "FromYaml create (YMap [(''path'', YVal (g_path g)), (''nodes'', YSeq ys), (''connectors'', YSeq cs)])
      = Some (Inr (True, d0\<lparr>node_list := ns2\<rparr>))"
    if "foldM yaml_new_node (enumerate 0 ys) (\<lambda>_. None, []) = Some (ids, node_list d0)"
      "yaml_init_nodes create 0 ys (ids, d0) = Some (True, ids, d0\<lparr>node_list := ns1\<rparr>)"
      "connect ids cs ns1 = Some (Inr ns2)" for ys cs ids ns1 ns2
  proof -
    have "new_chart_data\<lparr>chart_name := g_path g, node_list := node_list d0\<rparr> = d0" by (simp add: d0_def)
    with that show ?thesis by (simp add: FromYaml_def yaml_connectors_def)
  qed
  from load [OF new [unfolded nds] init conn] show ?thesis
    by (simp add: graph_yaml_def data_of_graph_def d0_def)
qed

section \<open>Properties\<close>


definition ex_graph :: graph where
  "ex_graph = \<lparr>g_path = ''A'', g_start_uid = ''s'', g_start = [1],
     g_nodes = [\<lparr>g_uid = ''u1'', g_text = ''one'', g_func = GFunction ''f'', g_fail = [], g_success = [2]\<rparr>,
                \<lparr>g_uid = ''u2'', g_text = ''two'', g_func = GControl StopNode [1], g_fail = [1], g_success = []\<rparr>]\<rparr>"

lemma ex_graph_ok: "graph_ok ex_graph"
  by (auto simp: graph_ok_def ex_graph_def uid_of_def node_refs_def le_Suc_eq numeral_2_eq_2)


lemma ex_create_ok: "creator_ok ex_create"
  by (simp add: creator_ok_def ex_create_def)

theorem from_yaml_well_formed_witness:
  "FromYaml ex_create (graph_yaml ex_graph) = Some (Inr (True, data_of_graph ex_create ''s'' ex_graph))
   \<and> data_ok (data_of_graph ex_create ''s'' ex_graph)"
proof -
  have "FromYaml ex_create (graph_yaml ex_graph) = Some (Inr (True, data_of_graph ex_create ''s'' ex_graph))"
    using graph_yaml_load [OF ex_graph_ok, of ex_create] by (simp add: ex_graph_def)
  with from_yaml_well_formed [OF ex_create_ok this] show ?thesis by simp
qed

text \<open>A patch that changes the function of a node and adds a node behind it.\<close>

definition ex_patch :: yaml where
  "ex_patch = YMap [(''path'', YVal ''A''),
     (''nodes'', YSeq [YMap [(''uid'', YVal ''u1''), (''code'', YMap [(''type'', YVal ''FUNC''), (''func_name'', YVal ''h'')])],
                     YMap [(''uid'', YVal ''u3'')]]),
     (''connectors'', YSeq [YMap [(''start'', YVal ''u1''), (''end'', YVal ''u3''), (''type'', YVal ''1'')]])]"

lemma ex_data_ok: "data_ok (data_of_graph ex_create ''s'' ex_graph)"
  by (auto simp: data_ok_def node_ok_def data_of_graph_def ex_graph_def node_of_def start_of_def new_node_data_def
      less_Suc_eq ex_create_def)

theorem patch_well_formed_witness:
  "case ChartData_PatchFromYaml ex_create ex_patch (data_of_graph ex_create ''s'' ex_graph) of
     Some (Inr (ok, d')) \<Rightarrow> ok \<and> data_ok d' \<and> map node_uid (node_list d') = [''s'', ''u1'', ''u2'', ''u3'']
   | _ \<Rightarrow> False"
proof -
  have "case ChartData_PatchFromYaml ex_create ex_patch (data_of_graph ex_create ''s'' ex_graph) of
     Some (Inr (ok, d')) \<Rightarrow> ok \<and> map node_uid (node_list d') = [''s'', ''u1'', ''u2'', ''u3''] | _ \<Rightarrow> False"
    by code_simp
  then obtain d' where d': "ChartData_PatchFromYaml ex_create ex_patch (data_of_graph ex_create ''s'' ex_graph)
      = Some (Inr (True, d'))" "map node_uid (node_list d') = [''s'', ''u1'', ''u2'', ''u3'']"
    by (auto split: option.splits sum.splits)
  with patch_well_formed [OF ex_create_ok ex_data_ok d'(1)] show ?thesis by simp
qed

end
