(* ===== verification/Module_Props.thy ===== *)
theory Module_Props
  imports Manager
begin

text \<open>
  Properties of single functions of the Python module: the conversion of waiting times, the variables
  of a chart, and the dump of an agent.
\<close>

section \<open>Dumping an agent\<close>

lemma foldM_None: "x \<in> set xs \<Longrightarrow> (\<And>s. f x s = None) \<Longrightarrow> foldM f xs s = None"
  by (induction xs arbitrary: s) (auto split: Option.bind_split)

lemma mapM_None: "x \<in> set xs \<Longrightarrow> f x = None \<Longrightarrow> mapM f xs = None"
  by (induction xs) (auto split: Option.bind_split)

lemma dump_variables_unstarted:
  assumes "w_charts w c = Some ch" "py_variables ch = None"
    and "chart_data_of c w = Some d" "0 < variable_count d"
  shows "dump_variables H c w = None"
  using assms
  by (auto simp: dump_variables_def GetVar_def GetVarCount_def intro!: foldM_None [of 0])

section \<open>Properties\<close>

text \<open>\<open>wait\<close> takes seconds and sleeps a thousand milliseconds for each; the product is cast to an
  \<open>int\<close>, so that from 2147484 seconds (25 days) on, and for another 25 days, the node wakes up after one
  millisecond.\<close>

theorem wait_milliseconds:
  assumes "0 < s" "s \<le> 4294967"
  shows "module_wait s w = map_option (Pair True) (Manager_Wait (if s \<le> 2147483 then 1000 * s else 1) w)"
proof (cases "s \<le> 2147483")
  case True
  then show ?thesis using assms by (simp add: module_wait_def int_of_long_def)
next
  case False
  have "(1000 * s + 2 ^ 31) mod 2 ^ 32 = ((1000 * s - 2 ^ 31) + 2 ^ 32) mod (2 ^ 32 :: int)"
    by (simp add: algebra_simps)
  also have "\<dots> = 1000 * s - 2 ^ 31" using False assms by (simp only: mod_add_self2) simp
  finally have "(1000 * s + 2 ^ 31) mod 2 ^ 32 = 1000 * s - (2 ^ 31 :: int)" .
  then have "int_of_long (1000 * s) \<le> 0" using assms by (simp add: int_of_long_def)
  then show ?thesis using False by (simp add: module_wait_def Manager_Wait_def)
qed

text \<open>The variables of a started chart: a variable that was set is read back and the others keep
  their values; an identifier outside the range is refused and changes nothing, except the number of
  variables itself, which the check lets through, one past the end of the array.\<close>

theorem variables_set_get:
  assumes "chart_data_of c w = Some d" "w_charts w c = Some ch"
    and "py_variables ch = Some vs" "length vs = variable_count d"
  shows "(i < 0 \<or> int (variable_count d) < i \<longrightarrow> SetVar i v c w = Some (False, w))
    \<and> (i = int (variable_count d) \<longrightarrow> SetVar i v c w = None)
    \<and> (0 \<le> i \<and> i < int (variable_count d) \<longrightarrow> (\<exists>w'. SetVar i v c w = Some (True, w')
        \<and> (\<forall>j. GetVar j c w' = (if j = i then Some v else GetVar j c w))))"
  using assms
  by (auto simp: SetVar_def GetVar_def GetVarCount_def upd_chart_def chart_data_of_def nth_list_update
      nat_eq_iff)

text \<open>\<open>dump\<close> of an agent that has a chart with variables which was attached and not started reads
  the variables through a null pointer.\<close>

lemma dump_unstarted:
  assumes "GetAgent obj w = Some a" "w_agents w a = Some ag" "(name, cs) \<in> set (chart_dict ag)" "c \<in> set cs"
    and "w_charts w c = Some ch" "py_variables ch = None" "chart_data_of c w = Some d" "0 < variable_count d"
  shows "module_dump H obj w = None"
proof -
  have "set (foldl (\<lambda>v (_, cs). cs @ v) v dict) = set v \<union> (\<Union>(_, cs) \<in> set dict. set cs)"
    for v and dict :: "(string \<times> nat list) list"
    by (induction dict arbitrary: v) auto
  then have "c \<in> set (chart_vector ag)" using assms(3,4) by (fastforce simp: chart_vector_def)
  moreover have "dump_chart H w c = None"
    using assms(5,7) dump_variables_unstarted [OF assms(5-8)]
    by (simp add: dump_chart_def split: Option.bind_split)
  ultimately show ?thesis using assms(1,2) by (simp add: module_dump_def mapM_None)
qed

end
