(* ===== verification/Timer_Liveness.thy ===== *)
theory Timer_Liveness
  imports Timer_Exact
begin

text \<open>
  The timer wheel as a timer queue: advancing it ends, and executes exactly the events that are due in
  that time, each once, in the order of their times. The events only note their execution here.
\<close>

section \<open>Events that note their execution\<close>

definition put_wheel :: "'k wheel \<Rightarrow> 'k wheel \<times> 'k list \<Rightarrow> 'k wheel \<times> 'k list" where
  "put_wheel w s = (w, snd s)"

definition note_event :: "'k \<Rightarrow> 'k wheel \<times> 'k list \<Rightarrow> ('k wheel \<times> 'k list) option" where
  "note_event e s = Some (fst s, snd s @ [e])"

lemma put_wheel_sel [simp]: "fst (put_wheel w s) = w" "snd (put_wheel w s) = snd s"
  by (simp_all add: put_wheel_def)

interpretation noting: wheel_owner fst put_wheel note_event
  by unfold_locales (auto simp: put_wheel_def note_event_def)

definition pending :: "'k wheel \<Rightarrow> 'k set" where
  "pending w = {e. slot_of w e \<noteq> None}"

text \<open>Some events were executed at the time \<open>t\<close>, and nothing else happened.\<close>

definition fired :: "nat \<Rightarrow> 'k wheel \<times> 'k list \<Rightarrow> 'k wheel \<times> 'k list \<Rightarrow> bool" where
  "fired t s s' \<longleftrightarrow> scheduled_at (fst s') = scheduled_at (fst s)
     \<and> (\<exists>es. snd s' = snd s @ es \<and> distinct es \<and> set es \<subseteq> pending (fst s)
          \<and> pending (fst s') = pending (fst s) - set es \<and> (\<forall>e \<in> set es. scheduled_at (fst s) e = t))"

lemma fired_refl: "scheduled_at (fst s') = scheduled_at (fst s) \<Longrightarrow> pending (fst s') = pending (fst s)
    \<Longrightarrow> snd s' = snd s \<Longrightarrow> fired t s s'"
  by (auto simp: fired_def)

lemma fired_trans:
  assumes "fired t s u" "fired t u v"
  shows "fired t s v"
proof -
  from assms obtain es fs where "snd u = snd s @ es" "distinct es" "set es \<subseteq> pending (fst s)"
    "pending (fst u) = pending (fst s) - set es" "\<forall>e \<in> set es. scheduled_at (fst s) e = t"
    "snd v = snd u @ fs" "distinct fs" "set fs \<subseteq> pending (fst u)"
    "pending (fst v) = pending (fst u) - set fs" "\<forall>e \<in> set fs. scheduled_at (fst u) e = t"
    "scheduled_at (fst u) = scheduled_at (fst s)" "scheduled_at (fst v) = scheduled_at (fst u)"
    unfolding fired_def by blast
  then show ?thesis unfolding fired_def by (intro conjI exI [of _ "es @ fs"]) auto
qed

section \<open>A tick returns\<close>

text \<open>Scheduling an event again that was taken out of level \<open>L\<close> puts it on a lower level.\<close>

lemma pick_level_lower:
  assumes "(now L0 + delta) div 256 ^ (L - L0) = now L" "L0 \<le> L" "1 \<le> delta"
    and "\<And>l. L0 \<le> l \<Longrightarrow> l < L \<Longrightarrow> now (Suc l) = now l div 256"
  shows "fst (pick_level now L0 delta) < L"
  using assms
proof (induction now L0 delta rule: pick_level.induct)
  case (1 now L0 delta)
  from 1(2-4) have L0: "L0 < L" by (cases "L0 = L") simp_all
  show ?case
  proof (cases "delta \<ge> 256")
    case True
    let ?d = "(delta + now L0 mod 256) div 256"
    have "now L0 + delta = (delta + now L0 mod 256) + now L0 div 256 * 256"
      using div_mult_mod_eq [of "now L0" 256] by linarith
    then have "(now L0 + delta) div 256 = now L0 div 256 + ?d" by (simp only: div_mult_self1)
    moreover have "L - L0 = Suc (L - (L0 + 1))" using L0 by simp
    ultimately have "(now (L0 + 1) + ?d) div 256 ^ (L - (L0 + 1)) = now L"
      using 1(2) 1(5) [of L0] L0 by (simp add: div_mult2_eq)
    moreover have "1 \<le> ?d" using True by (simp add: div_greater_zero_iff Suc_le_eq)
    ultimately have "fst (pick_level now (L0 + 1) ?d) < L"
      using 1(1) [OF True] 1(5) L0 by simp
    with True show ?thesis by (simp add: pick_level.simps [of now L0 delta])
  qed (use L0 in \<open>simp add: pick_level.simps [of now L0 delta]\<close>)
qed

lemma reschedule:
  assumes w: "winv t 8 m w" and none: "slot_of w e = None" and L: "L \<le> 7"
    and due: "scheduled_at w e div 256 ^ L = t div 256 ^ L" "t < scheduled_at w e"
  shows "\<exists>w'. schedule e (scheduled_at w e - nows w 0) w = Some w' \<and> slots w' L = slots w L
    \<and> scheduled_at w' = scheduled_at w \<and> pending w' = insert e (pending w)"
proof -
  have now: "nows w l = t div 256 ^ l" if "l \<le> 7" for l using winvD(3) [OF w that] that by simp
  let ?d = "scheduled_at w e - nows w 0"
  have sum: "nows w 0 + ?d = scheduled_at w e" and d: "1 \<le> ?d" using now [of 0] due(2) by simp_all
  obtain l k where p: "pick_level (nows w) 0 ?d = (l, k)" by fastforce
  have "nows w (Suc i) = nows w i div 256" if "i < L" for i
    using that L by (simp add: now div_mult2_eq [symmetric] mult.commute)
  then have "l < L"
    using pick_level_lower [of "nows w" 0 ?d L] sum d due(1) now [OF L] p by simp
  then show ?thesis
    using p sum d L none
    by (intro exI [of _ "relink e (Some (l, (nows w l + k) mod 256))
          (w\<lparr>scheduled_at := (scheduled_at w)(e := nows w 0 + ?d)\<rparr>)"])
      (auto simp: schedule_def relink_def Let_def slot_set_def pending_def)
qed

lemma drain_fires:
  assumes "winv t 8 (Suc L) (fst s)" "256 ^ L dvd t" "L \<le> 7"
  shows "\<exists>s'. drain_slot fst put_wheel note_event L (t div 256 ^ L mod 256) s = Some s' \<and> fired t s s'"
  using assms(1)
proof (induction "length (slots (fst s) L (t div 256 ^ L mod 256))" arbitrary: s rule: less_induct)
  case less
  let ?i = "t div 256 ^ L mod 256"
  show ?case
  proof (cases "slots (fst s) L ?i")
    case Nil
    then show ?thesis by (simp add: drain_slot.simps fired_refl)
  next
    case (Cons e es)
    then obtain w where pop: "pop_event L ?i (fst s) = Some (e, w)" by (simp add: pop_event_def)
    have w: "slots w L ?i = es" "slot_of w e = None" "pending w = pending (fst s) - {e}"
      using pop Cons by (auto simp: pop_event_def slot_set_def pending_def)
    note pops = pop_winv [OF less(2) pop] and due = popped_due(1) [OF less(2) assms(3) pop]
    have now: "nows w 0 = t" using popped_due(2) [OF less(2) assms(3) pop, of 0] by simp
    have le: "t \<le> scheduled_at w e"
      using assms(2) due by (metis dvd_div_mult_self div_times_less_eq_dividend)
    let ?b = "if L > 0
       then if nows w 0 mod 256 \<noteq> 0 then None
            else if nows w 0 \<ge> scheduled_at w e then note_event e (put_wheel w s)
            else map_option (\<lambda>w'. put_wheel w' (put_wheel w s)) (schedule e (scheduled_at w e - nows w 0) w)
       else note_event e (put_wheel w s)"
    have "\<exists>s1. ?b = Some s1 \<and> slots (fst s1) L ?i = es \<and> fired t s s1"
    proof (cases "scheduled_at w e = t")
      case True
      have "L > 0 \<Longrightarrow> t mod 256 = 0" using assms(2) by (auto simp: dvd_power elim: dvd_trans [rotated])
      moreover have "fired t s (w, snd s @ [e])"
        unfolding fired_def using w True pops(3,4) by (intro conjI exI [of _ "[e]"]) (auto simp: pending_def)
      ultimately show ?thesis using True now w(1) by (cases L) (simp_all add: note_event_def put_wheel_def)
    next
      case False
      with le have less: "t < scheduled_at w e" by simp
      with due have "L > 0" by (cases L) simp_all
      moreover from this have "t mod 256 = 0" using assms(2) by (auto simp: dvd_power elim: dvd_trans [rotated])
      moreover obtain w' where "schedule e (scheduled_at w e - nows w 0) w = Some w'" "slots w' L = slots w L"
        "scheduled_at w' = scheduled_at w" "pending w' = insert e (pending w)"
        using reschedule [OF pops(1) w(2) assms(3) due less] by blast
      moreover have "e \<in> pending (fst s)" using pops(4) by (simp add: pending_def)
      ultimately show ?thesis
        using less now w pops(3) by (auto simp: put_wheel_def intro!: fired_refl)
    qed
    then obtain s1 where s1: "?b = Some s1" "slots (fst s1) L ?i = es" "fired t s s1" by blast
    have "winv t 8 (Suc L) (fst s1)"
      by (rule noting.drain_step(1) [OF less(2) assms(2,3) pop s1(1)])
    with less(1) [of s1] s1(2) Cons obtain s' where
      s': "drain_slot fst put_wheel note_event L ?i s1 = Some s'" "fired t s1 s'" by auto
    have "drain_slot fst put_wheel note_event L ?i s = Some s'"
      using Cons pop s1(1) s'(1) by (subst drain_slot.simps) (simp only: list.distinct if_False bind.simps prod.case Let_def)
    with fired_trans [OF s1(3) s'(2)] show ?thesis by blast
  qed
qed

lemma tick_fires:
  assumes "up \<le> 7" "winv t (7 - up) (7 - up) (fst s)" "256 ^ (7 - up) dvd t" "0 < t"
  shows "\<exists>s'. tick_up fst put_wheel note_event up s = Some s' \<and> fired t s s'"
  using assms
proof (induction up arbitrary: s)
  case 0
  then have w: "winv t 7 7 (fst s)" and t: "256 ^ 7 dvd t" by simp_all
  note up = count_up [OF w _ t 0(4) refl]
  let ?s = "put_wheel ((fst s)\<lparr>nows := (nows (fst s))(7 := nows (fst s) 7 + 1)\<rparr>) s"
  obtain s' where "drain_slot fst put_wheel note_event 7 (t div 256 ^ 7 mod 256) ?s = Some s'" "fired t ?s s'"
    using drain_fires [of t 7 ?s] t up(2) by (auto simp: put_wheel_def)
  moreover from this(2) have "fired t s s'" by (simp add: fired_def put_wheel_def pending_def)
  ultimately show ?case using up(1) by (simp add: Let_def)
next
  case (Suc up)
  let ?L = "6 - up" let ?now = "nows (fst s) ?L + 1"
  let ?s = "put_wheel ((fst s)\<lparr>nows := (nows (fst s))(?L := ?now)\<rparr>) s"
  have L: "7 - Suc up = ?L" "?L \<le> 7" "7 - up = Suc ?L" using Suc(2) by auto
  from Suc(3-) have w: "winv t ?L ?L (fst s)" and t: "256 ^ ?L dvd t" by (simp_all only: L)
  note up = count_up [OF w L(2) t Suc(5) refl]
  have "\<exists>s1. (if ?now mod 256 = 0 then tick_up fst put_wheel note_event up ?s else Some ?s) = Some s1
      \<and> fired t ?s s1"
  proof (cases "?now mod 256 = 0")
    case True
    with Suc(1) [of ?s] Suc(2,5) up(2,3) L(3) show ?thesis by simp
  qed (simp add: fired_refl)
  then obtain s1 where s1: "(if ?now mod 256 = 0 then tick_up fst put_wheel note_event up ?s else Some ?s) = Some s1"
    and f: "fired t ?s s1" by blast
  have "winv t 8 (Suc ?L) (fst s1)"
  proof (cases "?now mod 256 = 0")
    case True
    with s1 have "tick_up fst put_wheel note_event up ?s = Some s1" by simp
    from noting.tick_exact [OF this, unfolded L(3)] up(2,3) True Suc(2,5) show ?thesis
      by (simp add: put_wheel_def)
  qed (use s1 up(4) in \<open>auto simp: put_wheel_def\<close>)
  from drain_fires [OF this t L(2)] obtain s' where
    s': "drain_slot fst put_wheel note_event ?L (?now mod 256) s1 = Some s'" "fired t s1 s'"
    using up(1) by auto
  have "fired t s s'" using fired_trans [OF f s'(2)] by (simp add: fired_def put_wheel_def pending_def)
  moreover have "tick_up fst put_wheel note_event (Suc up) s = Some s'"
    using s1 s'(1) unfolding tick_up.simps Let_def by (simp only: bind.simps)
  ultimately show ?case by blast
qed

section \<open>Advancing\<close>

lemma wheel_tick_fires:
  assumes ok: "wheel_ok w" and t: "t = nows w 0 + 1"
  shows "\<exists>w' es. wheel_tick fst put_wheel note_event (w, l) = Some (w', l @ es) \<and> wheel_ok w' \<and> nows w' 0 = t
    \<and> scheduled_at w' = scheduled_at w \<and> distinct es \<and> set es = {e \<in> pending w. scheduled_at w e = t}
    \<and> pending w' = {e \<in> pending w. t < scheduled_at w e}"
proof -
  have "winv (nows w 0) 8 0 w" using ok by (simp add: wheel_ok_def)
  then have "winv t 0 0 w" unfolding t using winv_next by simp
  with tick_fires [of 7 t "(w, l)"] t obtain s' where
    run: "wheel_tick fst put_wheel note_event (w, l) = Some s'" and f: "fired t (w, l) s'"
    by (auto simp: wheel_tick_def)
  obtain w' where w': "s' = (w', snd s')" by (cases s') auto
  have ok': "wheel_ok w' \<and> nows w' 0 = t"
    using noting.wheel_tick_exact [OF run] ok w' t by (metis fst_conv)
  obtain es where es: "snd s' = l @ es" "distinct es" "set es \<subseteq> pending w" "pending w' = pending w - set es"
    "\<forall>e \<in> set es. scheduled_at w e = t" and sch: "scheduled_at w' = scheduled_at w"
    using f w' unfolding fired_def by (metis fst_conv snd_conv)
  have after: "t < scheduled_at w e" if "e \<in> pending w'" for e
    using wheel_ok_future [of w' e] ok' that sch by (simp add: pending_def)
  have "set es = {e \<in> pending w. scheduled_at w e = t}" using es(3-5) after by fastforce
  moreover have "pending w' = {e \<in> pending w. t < scheduled_at w e}" using es(4,5) after by fastforce
  ultimately show ?thesis using run w' ok' es(1,2) sch by auto
qed

lemma advance_fires:
  assumes "wheel_ok w"
  shows "\<exists>w' es. advance fst put_wheel note_event k (w, l) = Some (w', l @ es) \<and> wheel_ok w'
    \<and> nows w' 0 = nows w 0 + k \<and> scheduled_at w' = scheduled_at w \<and> distinct es
    \<and> sorted (map (scheduled_at w) es)
    \<and> set es = {e \<in> pending w. scheduled_at w e \<le> nows w 0 + k}
    \<and> pending w' = {e \<in> pending w. nows w 0 + k < scheduled_at w e}"
  using assms
proof (induction k arbitrary: w l)
  case 0
  have "nows w 0 < scheduled_at w e" if "e \<in> pending w" for e
    using wheel_ok_future [OF 0] that by (simp add: pending_def)
  with 0 show ?case by force
next
  case (Suc k)
  let ?t = "nows w 0 + 1"
  from wheel_tick_fires [OF Suc(2) refl] obtain w1 es where
    w1: "wheel_tick fst put_wheel note_event (w, l) = Some (w1, l @ es)" "wheel_ok w1" "nows w1 0 = ?t"
      "scheduled_at w1 = scheduled_at w" "distinct es" "set es = {e \<in> pending w. scheduled_at w e = ?t}"
      "pending w1 = {e \<in> pending w. ?t < scheduled_at w e}" by blast
  from Suc(1) [OF w1(2), of "l @ es"] obtain w' fs where
    w': "advance fst put_wheel note_event k (w1, l @ es) = Some (w', (l @ es) @ fs)" "wheel_ok w'"
      "nows w' 0 = nows w1 0 + k" "scheduled_at w' = scheduled_at w1" "distinct fs"
      "sorted (map (scheduled_at w1) fs)" "set fs = {e \<in> pending w1. scheduled_at w1 e \<le> nows w1 0 + k}"
      "pending w' = {e \<in> pending w1. nows w1 0 + k < scheduled_at w1 e}" by blast
  have future: "?t \<le> scheduled_at w e" if "e \<in> pending w" for e
    using wheel_ok_future [OF Suc(2), of e] that by (simp add: pending_def)
  have es: "map (scheduled_at w) es = replicate (length es) ?t"
    using w1(6) by (auto intro!: replicate_eqI)
  have "sorted (map (scheduled_at w) (es @ fs))"
    using w'(6,7) w1(4,7) unfolding map_append es by (auto simp: sorted_append)
  moreover have "set (es @ fs) = {e \<in> pending w. scheduled_at w e \<le> nows w 0 + Suc k}"
    using w1(3,4,6,7) w'(7) future by fastforce
  moreover have "pending w' = {e \<in> pending w. nows w 0 + Suc k < scheduled_at w e}"
    using w1(3,4,7) w'(8) by auto
  moreover have "distinct (es @ fs)" using w1(5-7) w'(5,7) by auto
  ultimately show ?case using w1(1,3,4) w'(1-4) by (intro exI [of _ w'] exI [of _ "es @ fs"]) simp
qed

section \<open>Properties\<close>

text \<open>C8. From any state of the wheel between two ticks, advancing it by \<open>k\<close> ticks returns, executes
  exactly the events that are due within the \<open>k\<close> ticks, each once, in the order of their times, and
  leaves the later ones scheduled: the eight levels of slots are a timer queue.\<close>

theorem wheel_fires:
  assumes "wheel_ok w"
  shows "\<exists>w' es. advance fst put_wheel note_event k (w, []) = Some (w', es)
    \<and> distinct es \<and> sorted (map (scheduled_at w) es)
    \<and> set es = {e \<in> pending w. scheduled_at w e \<le> nows w 0 + k}
    \<and> wheel_ok w' \<and> nows w' 0 = nows w 0 + k
    \<and> pending w' = {e \<in> pending w. nows w 0 + k < scheduled_at w e}
    \<and> (\<forall>e. scheduled_at w' e = scheduled_at w e)"
  using advance_fires [OF assms, of k "[]"] by (metis append_Nil)

end
