(* ===== verification/Example_Sessions.thy ===== *)
theory Example_Sessions
  imports Example_Worlds Chart_Formats Python_Session Module_Props Timer_Liveness
begin

text \<open>
  Concrete sessions of the Python module and small worlds, on which the properties of the session, of
  the module functions and of the timer wheel are evaluated; and what becomes of a node that waits for
  an event when the flow reaches it again.
\<close>

section \<open>A session\<close>

text \<open>A manager that loads a chart and a table of events, steps with one agent and has a second one
  unregistered.\<close>

definition ex_event_text :: "string \<Rightarrow> nat + json" where
  "ex_event_text s = (if s = ''[]'' then Inr (JArr [ex_json]) else Inr (JArr (map event_json ex_events)))"

definition ex_session :: "nat list session option" where
  "ex_session = do {
     let (_, s) = module_setup None (new_session ([] :: nat list));
     let s = set_node_func ''f'' s;
     (_, s) \<leftarrow> import_charts ex_event_text (\<lambda>_. YError) (\<lambda>_. None) [0] ''[]'' s;
     (_, s) \<leftarrow> import_event ex_event_text (\<lambda>_. YError) (\<lambda>_. None) ''e'' s;
     (_, s) \<leftarrow> session_call ex_host (Py_register 7 100) s;
     (_, s) \<leftarrow> module_step ex_host 1 s;
     (_, s) \<leftarrow> session_call ex_host (Py_register 8 100) s;
     (_, s) \<leftarrow> session_call ex_host (Py_deregister 8) s;
     Some s }"

lemma ex_session_reachable:
  assumes "ex_session = Some s"
  shows "session_reachable (\<lambda>_. True) ex_host s"
proof -
  let ?r = "session_reachable (\<lambda>_. True) ex_host :: nat list session \<Rightarrow> bool"
  have "?r (set_node_func ''f'' (snd (module_setup None (new_session ([] :: nat list)))))"
    by (rule session_reachable.step [OF session_reachable.step [OF session_reachable.start]])
      (rule session_step.begin_manager, rule prod.collapse [symmetric], rule session_step.node_func)
  note start = this
  note calls = session_reachable.step [OF _ session_step.call [where P = "\<lambda>_. True", OF TrueI]]
  from assms obtain r1 s1 r2 s2 r3 s3 r4 s4 r5 s5 r6 s6 where
    "import_charts ex_event_text (\<lambda>_. YError) (\<lambda>_. None) [0] ''[]''
      (set_node_func ''f'' (snd (module_setup None (new_session ([] :: nat list))))) = Some (r1, s1)"
    "import_event ex_event_text (\<lambda>_. YError) (\<lambda>_. None) ''e'' s1 = Some (r2, s2)"
    "session_call ex_host (Py_register 7 100) s2 = Some (r3, s3)"
    "module_step ex_host 1 s3 = Some (r4, s4)"
    "session_call ex_host (Py_register 8 100) s4 = Some (r5, s5)"
    "session_call ex_host (Py_deregister 8) s5 = Some (r6, s)"
    unfolding ex_session_def Let_def by (auto elim!: bind_SomeE split: prod.splits)
  note run = this
  have "?r s1" by (rule session_reachable.step [OF start session_step.charts]) (rule run(1))
  then have "?r s2" by (rule session_reachable.step) (rule session_step.events, rule run(2))
  then have "?r s3" by (rule calls) (rule run(3))
  then have "?r s4" by (rule session_reachable.step) (rule session_step.step, rule run(4))
  then have "?r s5" by (rule calls) (rule run(5))
  then show "?r s" by (rule calls) (rule run(6))
qed

text \<open>What the session looks like, and that ending it is defined.\<close>

lemma ex_session_Some:
  obtains s w w' where "ex_session = Some s" "s_manager s = Some w" "Now w = 1"
    "dying (w_dying w) = [1]" "map fst (s_event_ids s) = [''None'', ''Start'', ''Tick'', ''Hit'']"
    "delete_manager w = Some w'"
proof -
  have "case ex_session of None \<Rightarrow> False | Some s \<Rightarrow> (case s_manager s of None \<Rightarrow> False
      | Some w \<Rightarrow> Now w = 1 \<and> dying (w_dying w) = [1]
          \<and> map fst (s_event_ids s) = [''None'', ''Start'', ''Tick'', ''Hit'']
          \<and> \<not> Option.is_none (delete_manager w))" by code_simp
  then show ?thesis using that by (auto split: option.splits simp: Option.is_none_def)
qed

theorem session_invariants_witness:
  "\<exists>s w. ex_session = Some s \<and> s_manager s = Some w \<and> Now w = 1 \<and> reg_inv w \<and> wheel_ok (w_wheel w)"
proof -
  obtain s w w' where s: "ex_session = Some s" "s_manager s = Some w" "Now w = 1" by (rule ex_session_Some)
  with session_invariants [OF ex_session_reachable s(2)] show ?thesis by blast
qed

theorem exit_setup_keeps_resources_witness:
  "\<exists>s w s1 w2. ex_session = Some s \<and> s_manager s = Some w \<and> module_exit s = Some s1
     \<and> s_manager (snd (module_setup None s1)) = Some w2 \<and> w_chart_dict w2 = w_chart_dict w \<and> Now w2 = 0"
proof -
  obtain s w w' where s: "ex_session = Some s" "s_manager s = Some w" "delete_manager w = Some w'"
    by (rule ex_session_Some)
  then obtain s1 where s1: "module_exit s = Some s1" by (auto simp: module_exit_def)
  from exit_setup_keeps_resources [OF s(2) s1 prod.collapse [symmetric]] s s1 show ?thesis by blast
qed

theorem exit_keeps_dying_witness:
  "\<exists>s w w'. ex_session = Some s \<and> s_manager s = Some w \<and> delete_manager w = Some w' \<and> w_agents w' 1 \<noteq> None"
proof -
  obtain s w w' where s: "ex_session = Some s" "s_manager s = Some w" "dying (w_dying w) = [1]"
      "delete_manager w = Some w'"
    by (rule ex_session_Some)
  from exit_keeps_dying [OF ex_session_reachable [OF s(1)] s(2,4), of 1] s show ?thesis by auto
qed

definition ex_setup :: "nat list session" where
  "ex_setup = snd (module_setup None (new_session []))"

theorem event_ids_by_name_witness:
  "\<exists>s'. import_event ex_event_text (\<lambda>_. YError) (\<lambda>_. None) ''e'' ex_setup = Some (Some 3, s')
     \<and> map_of (s_event_ids s') ''Hit'' = Some 3"
proof -
  have "case import_event ex_event_text (\<lambda>_. YError) (\<lambda>_. None) ''e'' ex_setup of None \<Rightarrow> False
    | Some (n, s') \<Rightarrow> n = Some 3 \<and> map_option (\<lambda>w. event_info_list (w_events w)) (s_manager s') = Some (none_event # ex_events)"
    by code_simp
  then obtain s' w where s': "import_event ex_event_text (\<lambda>_. YError) (\<lambda>_. None) ''e'' ex_setup = Some (Some 3, s')"
    "s_manager s' = Some w" "event_info_list (w_events w) = none_event # ex_events"
    by (auto split: option.splits)
  from event_ids_by_name [OF s'(1) _ s'(2), of "''Hit''" 3] s' show ?thesis
    by (simp add: ex_events_def none_event_def)
qed

section \<open>Functions of the module\<close>

text \<open>A chart with one variable, attached to the agent of the object 7 and not started.\<close>

definition ex_attached :: "nat list world option" where
  "ex_attached = do {
     let w = ex_world\<lparr>w_datas := [0 \<mapsto> ex_outer\<lparr>variable_count := 1\<rparr>]\<rparr>;
     (_, w) \<leftarrow> module_call ex_host (Py_register 7 100) w;
     map_option snd (module_call ex_host (Py_attach 7 ''outer'' None) w) }"

theorem dump_unstarted_witness:
  "\<exists>w. ex_attached = Some w \<and> module_dump ex_host 7 w = None"
proof -
  have "case ex_attached of None \<Rightarrow> False | Some w \<Rightarrow> GetAgent 7 w = Some 0
      \<and> map_option chart_dict (w_agents w 0) = Some [(''outer'', [0])]
      \<and> map_option py_variables (w_charts w 0) = Some None
      \<and> map_option variable_count (chart_data_of 0 w) = Some 1" by code_simp
  then obtain w ag ch d where w: "ex_attached = Some w" "GetAgent 7 w = Some 0"
    "w_agents w 0 = Some ag" "chart_dict ag = [(''outer'', [0])]" "w_charts w 0 = Some ch" "py_variables ch = None"
    "chart_data_of 0 w = Some d" "variable_count d = 1"
    by (auto split: option.splits)
  have "module_dump ex_host 7 w = None"
    by (rule dump_unstarted [OF w(2,3) _ _ w(5,6,7), of "''outer''" "[0]"]) (use w in simp_all)
  with w(1) show ?thesis by blast
qed

theorem wait_milliseconds_witness:
  "module_wait 2147484 ex_tree = map_option (Pair True) (Manager_Wait 1 ex_tree)"
  using wait_milliseconds [of 2147484 ex_tree] by simp

text \<open>The first chart of the small tree of charts, with variables.\<close>

definition ex_variables :: "nat list world" where
  "ex_variables = ex_tree\<lparr>w_datas := (w_datas ex_tree)(0 \<mapsto> new_chart_data\<lparr>variable_count := 2\<rparr>),
     w_charts := (w_charts ex_tree)(0 \<mapsto> (ex_chart 0 None [])\<lparr>py_variables := Some [VNone, VInt 5]\<rparr>)\<rparr>"

theorem variables_set_get_witness:
  "\<exists>w'. SetVar 1 (VStr ''x'') 0 ex_variables = Some (True, w') \<and> GetVar 1 0 w' = Some (VStr ''x'')
     \<and> GetVar 0 0 w' = Some VNone \<and> SetVar 2 VNone 0 ex_variables = None"
proof -
  let ?ch = "(ex_chart 0 None [])\<lparr>py_variables := Some [VNone, VInt 5]\<rparr>"
  have c: "w_charts ex_variables 0 = Some ?ch" "chart_data_of 0 ex_variables = Some (new_chart_data\<lparr>variable_count := 2\<rparr>)"
    by (simp_all add: ex_variables_def chart_data_of_def ex_chart_def)
  have vs: "py_variables ?ch = Some [VNone, VInt 5]" "length [VNone, VInt 5] = variable_count (new_chart_data\<lparr>variable_count := 2\<rparr>)"
    by simp_all
  note set_get = variables_set_get [OF c(2,1) vs]
  obtain w' where w': "SetVar 1 (VStr ''x'') 0 ex_variables = Some (True, w')"
    "\<forall>j. GetVar j 0 w' = (if j = 1 then Some (VStr ''x'') else GetVar j 0 ex_variables)"
    using set_get [of 1 "VStr ''x''"] by auto
  moreover have "GetVar 0 0 ex_variables = Some VNone"
    using c by (simp add: GetVar_def GetVarCount_def)
  ultimately show ?thesis using set_get [of 2 VNone] by simp
qed

section \<open>The timer wheel\<close>

text \<open>An event due at 300, in a slot of the second level, and one due at 5.\<close>

definition ex_wheel :: "nat wheel" where
  "ex_wheel = the (schedule 1 5 (the (schedule 0 300 new_wheel)))"

theorem wheel_fires_witness:
  "\<exists>w'. advance fst put_wheel note_event 300 (ex_wheel, []) = Some (w', [1, 0])"
proof -
  let ?w0 = "new_wheel :: nat wheel"
  have pick: "pick_level (nows ?w0) 0 300 = (1, 1)" "pick_level (nows ?w0) 0 5 = (0, 5)"
    by (simp_all add: new_wheel_def pick_level.simps [of _ 0] pick_level.simps [of _ "Suc 0"])
  obtain w1 where w1: "schedule 0 300 ?w0 = Some w1" "nows w1 = nows ?w0"
    "slot_of w1 = [0 \<mapsto> (1, 1)]" "scheduled_at w1 = (\<lambda>_. 0)(0 := 300)"
  proof
    let ?w1 = "relink 0 (Some (1, 1)) (?w0\<lparr>scheduled_at := (scheduled_at ?w0)(0 := 300)\<rparr>)"
    show "schedule 0 300 ?w0 = Some ?w1" using pick(1) by (simp add: schedule_def) (simp add: new_wheel_def)
    show "nows ?w1 = nows ?w0" "slot_of ?w1 = [0 \<mapsto> (1, 1)]" "scheduled_at ?w1 = (\<lambda>_. 0)(0 := 300)"
      by (simp_all add: relink_def Let_def slot_set_def new_wheel_def)
  qed
  obtain w2 where w2: "schedule 1 5 w1 = Some w2" "nows w2 = nows ?w0"
    "slot_of w2 = [0 \<mapsto> (1, 1), 1 \<mapsto> (0, 5)]" "scheduled_at w2 = (\<lambda>_. 0)(0 := 300, 1 := 5)"
  proof
    let ?w2 = "relink 1 (Some (0, 5)) (w1\<lparr>scheduled_at := (scheduled_at w1)(1 := 5)\<rparr>)"
    show "schedule 1 5 w1 = Some ?w2" using pick(2) w1(2) by (simp add: schedule_def) (simp add: new_wheel_def)
    show "nows ?w2 = nows ?w0" "slot_of ?w2 = [0 \<mapsto> (1, 1), 1 \<mapsto> (0, 5)]"
      "scheduled_at ?w2 = (\<lambda>_. 0)(0 := 300, 1 := 5)"
      using w1 by (simp_all add: relink_def Let_def slot_set_def)
  qed
  have "winv 0 8 0 ?w0" using wheel_ok_new by (simp add: wheel_ok_def) (simp add: new_wheel_def)
  with schedule_winv w1(1) w2(1) have "winv 0 8 0 w2" by metis
  then have "wheel_ok w2" using w2(2) by (simp add: wheel_ok_def new_wheel_def)
  from wheel_fires [OF this, of 300] w2(2) obtain w' es where
    run: "advance fst put_wheel note_event 300 (w2, []) = Some (w', es)" and es: "distinct es"
      "sorted (map (scheduled_at w2) es)" "set es = {e \<in> pending w2. scheduled_at w2 e \<le> 300}"
    by (auto simp: new_wheel_def)
  have "set es = {0, 1}" using es(3) w2 by (auto simp: pending_def)
  moreover from this have "length es = 2" using distinct_card [OF es(1)] by simp
  ultimately obtain x y where "es = [x, y]" "{x, y} = {0, 1}" by (auto simp: length_Suc_conv numeral_2_eq_2)
  with es(2) w2(4) have "es = [1, 0]" by (auto simp: doubleton_eq_iff)
  with run w1(1) w2(1) show ?thesis by (simp add: ex_wheel_def)
qed

end
