(* ===== verification/Reached_Again.thy ===== *)
theory Reached_Again
  imports Reachable Event_Loader
begin

text \<open>
  What becomes of a node that waits when the flow of its chart reaches it again: \<open>DfsExecutor::Push\<close>
  takes it out of the list in which it waits, and the pass that finds it running drops it.
\<close>

section \<open>The pass over a node that is running\<close>

lemma pushed:
  assumes "cs_inv (w_cs w)" "get_node n w = Some nd"
  obtains w1 where "exec_Push i n w = Some w1" "get_node n w1 = Some nd" "cs_inv (w_cs w1)"
    "Exec_GetTop i (w_cs w1) = Some n"
proof -
  let ?cs = "set_of n (Some (CExec i)) ((purge n (w_cs w))
    \<lparr>cs_exec := (cs_exec (purge n (w_cs w)))(i := cs_exec (purge n (w_cs w)) i @ [n])\<rparr>)"
  have push: "Exec_Push i n (w_cs w) = Some ?cs"
    using assms(1) by (simp add: Exec_Push_def leave_purge)
  show ?thesis
  proof (rule that [of "w\<lparr>w_cs := ?cs\<rparr>"])
    show "exec_Push i n w = Some (w\<lparr>w_cs := ?cs\<rparr>)" using push assms(2) by (simp add: exec_Push_def on_cs_def)
    show "get_node n (w\<lparr>w_cs := ?cs\<rparr>) = Some nd" using assms(2) by (simp add: get_node_def)
    show "cs_inv (w_cs (w\<lparr>w_cs := ?cs\<rparr>))" using Exec_Push_inv [OF assms(1) push] by simp
    show "Exec_GetTop i (w_cs (w\<lparr>w_cs := ?cs\<rparr>)) = Some n" by (simp add: Exec_GetTop_def set_of_def)
  qed
qed

lemma top_popped:
  assumes "cs_inv (w_cs w)" "Exec_GetTop i (w_cs w) = Some n" "get_node n w = Some nd"
  obtains w' where "exec_Pop i w = Some (n, w')" "get_node n w' = Some nd" "\<not> contained n (w_cs w')"
proof -
  from assms(2) have top: "cs_exec (w_cs w) i \<noteq> []" "last (cs_exec (w_cs w) i) = n"
    by (auto simp: Exec_GetTop_def split: if_splits)
  then have "n \<in> set (cs_exec (w_cs w) i)" by auto
  then have "cs_of (w_cs w) n = Some (CExec i)" using assms(1) by (simp add: cs_inv_def)
  then obtain cs where pop: "Exec_Pop i (w_cs w) = Some (n, cs)" "cs_of cs n = None"
    using top by (simp add: Exec_Pop_def Let_def set_of_def)
  have "\<not> contained n cs" using contained_of Exec_Pop_inv [OF assms(1) pop(1)] pop(2) by blast
  moreover have "exec_Pop i w = Some (n, w\<lparr>w_cs := cs\<rparr>)" using pop(1) assms(3) by (simp add: exec_Pop_def)
  moreover have "get_node n (w\<lparr>w_cs := cs\<rparr>) = Some nd" using assms(3) by (simp add: get_node_def)
  ultimately show ?thesis using that [of "w\<lparr>w_cs := cs\<rparr>"] by simp
qed

section \<open>Properties\<close>

text \<open>C9. A node that waits (it is running, and does not wait for all of its branches) and is reached
  again by the flow ends in no container at all while its status stays running: nothing will resume it.\<close>

theorem reached_again_lost:
  assumes "cs_inv (w_cs w)" "get_node n w = Some nd" "status nd = Running" "\<not> is_wait_all nd"
  shows "\<exists>w1 w2. exec_Push i n w = Some w1 \<and> dfs_pass H K i (r, w1) = Some (True, w2)
    \<and> \<not> contained n (w_cs w2) \<and> get_node n w2 = Some nd"
proof -
  obtain w1 where w1: "exec_Push i n w = Some w1" "get_node n w1 = Some nd" "cs_inv (w_cs w1)"
    "Exec_GetTop i (w_cs w1) = Some n" by (rule pushed [OF assms(1,2)])
  obtain w2 where w2: "exec_Pop i w1 = Some (n, w2)" "get_node n w2 = Some nd" "\<not> contained n (w_cs w2)"
    by (rule top_popped [OF w1(3,4,2)])
  have "dfs_pass H K i (r, w1) = Some (True, w2)"
    using w1(2,4) w2(1) assms(3,4) by (simp add: dfs_pass_def)
  with w1(1) w2 show ?thesis by blast
qed

section \<open>A diamond\<close>

text \<open>The node 1 waits for the event 3 and leads to the node 3; the node 2 waits for nothing and leads to
  the nodes \<open>again\<close>.\<close>

definition diamond_node :: "nat \<Rightarrow> nat list \<Rightarrow> string \<Rightarrow> node_data" where
  "diamond_node i s f = (new_node_data i)\<lparr>children_true := s, node_func := Some (Script [] f),
     is_event := (f = ''wait'')\<rparr>"

definition diamond_data :: "nat list \<Rightarrow> chart_data" where
  "diamond_data again = new_chart_data\<lparr>chart_name := ''diamond'', node_list :=
     [(new_node_data 0)\<lparr>children_false := [1, 2], children_true := [1, 2]\<rparr>,
      diamond_node 1 [3] ''wait'', diamond_node 2 again ''go'', diamond_node 3 [] ''after'']\<rparr>"

fun diamond_func :: "string \<Rightarrow> string \<Rightarrow> nat \<Rightarrow> nat list \<Rightarrow> nat list script" where
  "diamond_func code name self e =
     (if name = ''wait'' then Call (Py_wait_event (Some self) 3) (e @ [1]) (\<lambda>r e. Ret (VBool True) (e @ [2]))
      else if name = ''go'' then Ret (VBool True) (e @ [3])
      else Ret (VBool True) (e @ [4]))"

definition diamond_host :: "nat list host" where
  "diamond_host = \<lparr>h_func = diamond_func, h_callable = (\<lambda>_. False), h_call = (\<lambda>_ _ e. Ret VNone e),
     h_float = (\<lambda>_. None), h_str = (\<lambda>_. ''-''), h_depth = 3\<rparr>"

text \<open>An agent starts the chart and the manager makes a step; then the event is sent.\<close>

definition diamond_waiting :: "nat list \<Rightarrow> nat list world option" where
  "diamond_waiting again = do {
     let w = (new_manager [])\<lparr>w_chart_dict := [''diamond'' \<mapsto> 0], w_datas := [0 \<mapsto> diamond_data again],
       w_events := add_event 3 0 ''Hit'' EventManager\<rparr>;
     (_, w) \<leftarrow> module_call diamond_host (Py_register 7 100) w;
     (_, w) \<leftarrow> module_call diamond_host (Py_attach 7 ''diamond'' None) w;
     (_, w) \<leftarrow> module_call diamond_host (Py_start 7 None) w;
     Manager_Step diamond_host 1 w }"

definition diamond_end :: "nat list \<Rightarrow> (nat list \<times> node_status list) option" where
  "diamond_end again = do {
     w \<leftarrow> diamond_waiting again;
     (_, w) \<leftarrow> module_call diamond_host (Py_event 7 3 []) w;
     w \<leftarrow> Manager_Step diamond_host 1 w;
     ch \<leftarrow> w_charts w 0;
     Some (w_env w, map status (nodes ch)) }"

text \<open>In a diamond whose second path reaches the waiting node, the event the node waits for no longer
  wakes it: the node stays running and the node behind it never runs, whereas it does when the second
  path ends before.\<close>

lemma diamond_event_lost:
  "diamond_end [] = Some ([1, 2, 3, 4], [Idle, Idle, Idle, Idle])
   \<and> diamond_end [1] = Some ([1, 2, 3], [Idle, Running, Idle, Idle])"
  by code_simp

lemma diamond_waiting_reachable:
  assumes "diamond_waiting again = Some w"
  shows "reachable (\<lambda>a. a \<noteq> Py_suspend_node) diamond_host w"
proof -
  let ?r = "reachable (\<lambda>a. a \<noteq> Py_suspend_node) diamond_host"
  let ?w = "(new_manager [])\<lparr>w_chart_dict := [''diamond'' \<mapsto> 0], w_datas := [0 \<mapsto> diamond_data again],
       w_events := add_event 3 0 ''Hit'' EventManager\<rparr> :: nat list world"
  from assms obtain r1 w1 r2 w2 r3 w3 where
    "module_call diamond_host (Py_register 7 100) ?w = Some (r1, w1)"
    "module_call diamond_host (Py_attach 7 ''diamond'' None) w1 = Some (r2, w2)"
    "module_call diamond_host (Py_start 7 None) w2 = Some (r3, w3)" "Manager_Step diamond_host 1 w3 = Some w"
    unfolding diamond_waiting_def Let_def by (auto elim!: bind_SomeE)
  note run = this
  have "?r ?w" by (rule reachable.start)
  then have "?r w1" by (rule reachable.step) (rule host_step.call [OF _ run(1)], simp)
  then have "?r w2" by (rule reachable.step) (rule host_step.call [OF _ run(2)], simp)
  then have "?r w3" by (rule reachable.step) (rule host_step.call [OF _ run(3)], simp)
  then show "?r w" by (rule reachable.step) (rule host_step.step [OF run(4)])
qed

text \<open>The node of the diamond that waits, in the world after the first step.\<close>

theorem reached_again_lost_witness:
  "\<exists>w w1 w2. diamond_waiting [] = Some w \<and> cs_of (w_cs w) (NP 0 1) = Some (CWait 0 3)
     \<and> exec_Push 0 (NP 0 1) w = Some w1 \<and> dfs_pass diamond_host (top_knot diamond_host) 0 (False, w1) = Some (True, w2)
     \<and> \<not> contained (NP 0 1) (w_cs w2)"
proof -
  have "case diamond_waiting [] of None \<Rightarrow> False | Some w \<Rightarrow> cs_of (w_cs w) (NP 0 1) = Some (CWait 0 3)
    \<and> (case get_node (NP 0 1) w of None \<Rightarrow> False | Some nd \<Rightarrow> status nd = Running \<and> \<not> is_wait_all nd)"
    by code_simp
  then obtain w and nd :: node where w: "diamond_waiting [] = Some w" "cs_of (w_cs w) (NP 0 1) = Some (CWait 0 3)"
    "get_node (NP 0 1) w = Some nd" "status nd = Running" "\<not> is_wait_all nd"
    by (auto split: option.splits)
  have "host_calls_only (\<lambda>a. a \<noteq> Py_suspend_node) diamond_host"
    by (simp add: host_calls_only_def diamond_host_def)
  from reachable_safe [OF this diamond_waiting_reachable [OF w(1)]] have "cs_inv (w_cs w)" by (simp add: safe_def)
  from reached_again_lost [OF this w(3-5)] w(1,2) show ?thesis by blast
qed

end
