(* ===== verification/Depth_First.thy ===== *)
theory Depth_First
  imports Control_Nodes Manager
begin

text \<open>
  What running a flow does: on a chart whose nodes have functions that neither call back into the
  engine nor wait, \<open>DfsExecutor::RunFlow\<close> runs the nodes in the order of a recursive depth-first
  traversal, each node's result choosing the children to go on with. The recursive traversal is
  \<open>visit\<close>; \<open>walk\<close> is the same on an explicit stack, one node at a time.
\<close>

section \<open>The traversal\<close>

text \<open>The outcome of running a node with the given flags: its result and the state of the scripts.\<close>

definition eval_node :: "'e host \<Rightarrow> bool \<Rightarrow> chart_data \<Rightarrow> nat \<Rightarrow> node list \<Rightarrow> nat \<Rightarrow> 'e \<Rightarrow> node_result \<times> 'e" where
  "eval_node H stop d obj ns j e =
     (if skip (ns ! j) then (result (ns ! j), e)
      else case node_func (node_list d ! j) of
          Some (Script code name) \<Rightarrow>
            (case h_func H code name obj e of
               Ret v e' \<Rightarrow> (result_of_bool (ObjIsBool v), e')
             | Raise e' \<Rightarrow> (if stop then rSTOP else rFALSE, e')
             | Call a e' k \<Rightarrow> (rFALSE, e'))
        | _ \<Rightarrow> (rFALSE, e))"

definition children_of :: "chart_data \<Rightarrow> node_result \<Rightarrow> nat \<Rightarrow> nat list" where
  "children_of d r j = (if r = rSTOP then [] else GetSubsequenceIds (r = rTRUE) (node_list d ! j))"

fun visit :: "(nat \<Rightarrow> 'e \<Rightarrow> node_result \<times> 'e) \<Rightarrow> chart_data \<Rightarrow> nat \<Rightarrow> nat list \<Rightarrow> 'e \<Rightarrow> (nat list \<times> 'e) option" where
  "visit f d k [] e = Some ([], e)"
| "visit f d 0 (j # js) e = None"
| "visit f d (Suc k) (j # js) e =
     (let (r, e1) = f j e
      in do { (t1, e2) \<leftarrow> visit f d k (children_of d r j) e1;
              (t2, e3) \<leftarrow> visit f d k js e2;
              Some (j # t1 @ t2, e3) })"

fun walk :: "(nat \<Rightarrow> 'e \<Rightarrow> node_result \<times> 'e) \<Rightarrow> chart_data \<Rightarrow> nat \<Rightarrow> nat list \<Rightarrow> 'e \<Rightarrow> (nat list \<times> 'e) option" where
  "walk f d k [] e = (if k = 0 then Some ([], e) else None)"
| "walk f d 0 (j # js) e = None"
| "walk f d (Suc k) (j # js) e =
     (let (r, e1) = f j e
      in map_option (\<lambda>(t, e'). (j # t, e')) (walk f d k (children_of d r j @ js) e1))"

lemma visit_walk:
  "visit f d k js e = Some (t, e1) \<Longrightarrow> walk f d m rest e1 = Some (u, e2)
   \<Longrightarrow> walk f d (length t + m) (js @ rest) e = Some (t @ u, e2)"
proof (induction f d k js e arbitrary: t e1 m rest u e2 rule: visit.induct)
  case (3 f d k j js e)
  obtain r e0 where f: "f j e = (r, e0)" by fastforce
  with "3.prems"(1) obtain t1 t2 e2' where v: "visit f d k (children_of d r j) e0 = Some (t1, e2')"
    "visit f d k js e2' = Some (t2, e1)" "t = j # t1 @ t2" by (auto elim!: bind_SomeE)
  have "walk f d (length t2 + m) (js @ rest) e2' = Some (t2 @ u, e2)"
    using "3.IH"(2) [OF f [symmetric] refl v(1) refl v(2) "3.prems"(2)] by simp
  from "3.IH"(1) [OF f [symmetric] refl v(1) this] show ?case using f v(3) by (simp add: add.assoc)
qed auto

lemma walk_set: "walk f d k js e = Some (t, e') \<Longrightarrow> set js \<subseteq> set t"
proof (induction f d k js e arbitrary: t e' rule: walk.induct)
  case (3 f d k j js e)
  obtain r e0 where f: "f j e = (r, e0)" by fastforce
  with "3.prems" obtain u where u: "walk f d k (children_of d r j @ js) e0 = Some (u, e')" "t = j # u" by auto
  from "3.IH" [OF f [symmetric] refl u(1)] u(2) show ?case by auto
qed (auto split: if_splits)

lemma walk_distinct: "walk f d k js e = Some (t, e') \<Longrightarrow> distinct t \<Longrightarrow> distinct js"
proof (induction f d k js e arbitrary: t e' rule: walk.induct)
  case (3 f d k j js e)
  obtain r e0 where f: "f j e = (r, e0)" by fastforce
  with "3.prems"(1) obtain u where u: "walk f d k (children_of d r j @ js) e0 = Some (u, e')" "t = j # u" by auto
  from "3.IH" [OF f [symmetric] refl u(1)] walk_set [OF u(1)] u(2) "3.prems"(2) show ?case by auto
qed (auto split: if_splits)

section \<open>Worlds that differ in the nodes of one chart\<close>

text \<open>The world \<open>w\<close> with the nodes of the chart \<open>c\<close>, the containers, the state of the scripts and the
  current node of the executor \<open>i\<close> replaced: everything a flow through such nodes touches.\<close>

definition at :: "'e world \<Rightarrow> nat \<Rightarrow> nat \<Rightarrow> chart \<Rightarrow> node list \<Rightarrow> cstore \<Rightarrow> 'e \<Rightarrow> nptr option \<Rightarrow> 'e world" where
  "at w i c ch ns cs e m = w\<lparr>w_charts := (w_charts w)(c \<mapsto> ch\<lparr>nodes := ns\<rparr>), w_cs := cs, w_env := e,
     w_cur_node := (w_cur_node w)(i := m)\<rparr>"

lemma at_sel [simp]:
  "w_charts (at w i c ch ns cs e m) = (w_charts w)(c \<mapsto> ch\<lparr>nodes := ns\<rparr>)" "w_cs (at w i c ch ns cs e m) = cs"
  "w_env (at w i c ch ns cs e m) = e" "w_cur_node (at w i c ch ns cs e m) = (w_cur_node w)(i := m)"
  "w_agents (at w i c ch ns cs e m) = w_agents w" "w_datas (at w i c ch ns cs e m) = w_datas w"
  "w_cur_agent (at w i c ch ns cs e m) = w_cur_agent w" "w_index (at w i c ch ns cs e m) = w_index w"
  "w_stop_when_error (at w i c ch ns cs e m) = w_stop_when_error w"
  "w_next_chart (at w i c ch ns cs e m) = w_next_chart w"
  by (simp_all add: at_def)

lemma at_upd [simp]:
  "(at w i c ch ns cs e m)\<lparr>w_cs := cs'\<rparr> = at w i c ch ns cs' e m"
  "(at w i c ch ns cs e m)\<lparr>w_env := e'\<rparr> = at w i c ch ns cs e' m"
  "(at w i c ch ns cs e m)\<lparr>w_cur_node := (w_cur_node w)(i := m')\<rparr> = at w i c ch ns cs e m'"
  by (simp_all add: at_def)

lemma at_node [simp]:
  "j < length ns \<Longrightarrow> get_node (NP c j) (at w i c ch ns cs e m) = Some (ns ! j)"
  "j < length ns \<Longrightarrow> upd_node (NP c j) f (at w i c ch ns cs e m) = Some (at w i c ch (ns[j := f (ns ! j)]) cs e m)"
  by (simp_all add: get_node_def upd_node_def upd_chart_def) (simp add: at_def)

lemma at_data [simp]:
  "chart_data_of c (at w i c ch ns cs e m) = w_datas w (chart_data_ptr ch)"
  "agent_of (NP c j) (at w i c ch ns cs e m) = chart_agent ch"
  by (simp_all add: chart_data_of_def agent_of_def)

lemma at_data_of [simp]:
  "w_datas w (chart_data_ptr ch) = Some d \<Longrightarrow> j < length (node_list d)
   \<Longrightarrow> data_of (NP c j) (at w i c ch ns cs e m) = Some (node_list d ! j)"
  by (simp add: data_of_def GetNodeData_def)

section \<open>The stack of nodes\<close>

text \<open>The stack of the executor \<open>i\<close> holds the nodes \<open>js\<close> of the chart, the first on top.\<close>

definition stacked :: "nat \<Rightarrow> nat \<Rightarrow> nat list \<Rightarrow> nptr list \<Rightarrow> cstore \<Rightarrow> bool" where
  "stacked i c js hist cs \<longleftrightarrow> cs_inv cs \<and> cs_exec cs i = map (NP c) (rev js) \<and> cs_hist cs i = hist"

lemma stacked_push:
  assumes "stacked i c js hist cs" "j \<notin> set js"
  obtains cs' where "Exec_Push i (NP c j) cs = Some cs'" "stacked i c (j # js) hist cs'"
proof -
  let ?n = "NP c j"
  let ?cs = "set_of ?n (Some (CExec i)) ((purge ?n cs)
    \<lparr>cs_exec := (cs_exec (purge ?n cs))(i := cs_exec (purge ?n cs) i @ [?n])\<rparr>)"
  have inv: "cs_inv cs" and js: "cs_exec cs i = map (NP c) (rev js)" and hist: "cs_hist cs i = hist"
    using assms(1) by (simp_all add: stacked_def)
  have push: "Exec_Push i ?n cs = Some ?cs" using inv by (simp add: Exec_Push_def leave_purge)
  have "without ?n (map (NP c) (rev js)) = map (NP c) (rev js)"
    using assms(2) by (intro without_notin) auto
  then have "stacked i c (j # js) hist ?cs"
    using Exec_Push_inv [OF inv push] js hist by (simp add: stacked_def set_of_def)
  with push show ?thesis by (rule that)
qed

lemma stacked_pop:
  assumes "stacked i c (j # js) hist cs"
  obtains cs' where "Exec_Pop i cs = Some (NP c j, cs')" "stacked i c js (hist @ [NP c j]) cs'"
    "cs_of cs (NP c j) = Some (CExec i)" "Exec_GetTop i cs = Some (NP c j)"
proof -
  have inv: "cs_inv cs" and js: "cs_exec cs i = map (NP c) (rev js) @ [NP c j]" and hist: "cs_hist cs i = hist"
    using assms by (simp_all add: stacked_def)
  then have own: "cs_of cs (NP c j) = Some (CExec i)" by (auto simp: cs_inv_def)
  have top: "cs_exec cs i \<noteq> []" "last (cs_exec cs i) = NP c j" "butlast (cs_exec cs i) = map (NP c) (rev js)"
    using js by simp_all
  then obtain cs' where pop: "Exec_Pop i cs = Some (NP c j, cs')" "cs_exec cs' i = map (NP c) (rev js)"
    "cs_hist cs' i = hist @ [NP c j]"
    using own hist by (simp add: Exec_Pop_def Let_def set_of_def)
  then have "stacked i c js (hist @ [NP c j]) cs'" using Exec_Pop_inv [OF inv pop(1)] by (simp add: stacked_def)
  then show ?thesis using that pop(1) own top by (simp add: Exec_GetTop_def)
qed

section \<open>One node\<close>

text \<open>Nodes that differ at most in the number of their predecessor.\<close>

definition like :: "node \<Rightarrow> node \<Rightarrow> bool" where
  "like nd nd' \<longleftrightarrow> (\<exists>p. nd' = nd\<lparr>pre_node_id := p\<rparr>)"

lemma like_refl [simp]: "like nd nd"
  unfolding like_def by (rule exI [of _ "pre_node_id nd"]) simp

lemma like_pre: "like nd nd' \<Longrightarrow> like nd (nd'\<lparr>pre_node_id := p\<rparr>)"
  unfolding like_def by auto

lemma like_sel:
  assumes "like nd nd'"
  shows "status nd' = status nd" "run_flag nd' = run_flag nd" "skip nd' = skip nd" "result nd' = result nd"
    "attacher nd' = attacher nd"
  using assms by (auto simp: like_def)

lemma push_children:
  assumes "stacked i c js hist cs" "distinct ks" "set ks \<inter> set js = {}" "set ks \<subseteq> {..<length ns}" "j < length ns"
  shows "\<exists>ns' cs'. foldM (push_child i (NP c j)) (rev ks) (at w i c ch ns cs e m) = Some (at w i c ch ns' cs' e m)
    \<and> stacked i c (ks @ js) hist cs' \<and> length ns' = length ns \<and> (\<forall>k < length ns. like (ns ! k) (ns' ! k))"
  using assms(2-)
proof (induction ks)
  case Nil
  with assms(1) show ?case by (intro exI [of _ ns] exI [of _ cs]) simp
next
  case (Cons k ks)
  then obtain ns1 cs1 where
    run: "foldM (push_child i (NP c j)) (rev ks) (at w i c ch ns cs e m) = Some (at w i c ch ns1 cs1 e m)"
    and st: "stacked i c (ks @ js) hist cs1" and len: "length ns1 = length ns"
    and like: "\<forall>k < length ns. like (ns ! k) (ns1 ! k)" by auto
  let ?ns = "ns1[k := (ns1 ! k)\<lparr>pre_node_id := int (node_id (ns1 ! j))\<rparr>]"
  have k: "k < length ns1" "k \<notin> set (ks @ js)" using Cons.prems len by auto
  obtain cs2 where push: "Exec_Push i (NP c k) cs1 = Some cs2" "stacked i c (k # ks @ js) hist cs2"
    using stacked_push [OF st k(2)] by blast
  have "push_child i (NP c j) k (at w i c ch ns1 cs1 e m) = Some (at w i c ch ?ns cs2 e m)"
    using k(1) Cons.prems(4) len push(1) by (simp add: push_child_def exec_Push_def on_cs_def)
  moreover have "\<forall>l < length ns. like (ns ! l) (?ns ! l)"
    using like len k(1) by (simp add: nth_list_update like_pre)
  ultimately show ?case using run push(2) len
    by (intro exI [of _ ?ns] exI [of _ cs2]) (simp add: foldM_append)
qed

text \<open>Functions that neither call the engine nor are control functions.\<close>

definition immediate :: "'e host \<Rightarrow> nat \<Rightarrow> chart_data \<Rightarrow> bool" where
  "immediate H obj d \<longleftrightarrow> (\<forall>nd code name e. nd \<in> set (node_list d) \<longrightarrow>
     (\<forall>f ids. node_func nd \<noteq> Some (Control f ids))
     \<and> (node_func nd = Some (Script code name) \<longrightarrow> (\<forall>a e' k. h_func H code name obj e \<noteq> Call a e' k)))"

text \<open>What a flow needs: a running chart without owner, an agent, and the data.\<close>

definition flow_chart :: "'e host \<Rightarrow> 'e world \<Rightarrow> nat \<Rightarrow> chart \<Rightarrow> agent \<Rightarrow> chart_data \<Rightarrow> bool" where
  "flow_chart H w c ch ag d \<longleftrightarrow> chart_running ch
     \<and> (\<exists>a. chart_agent ch = Some a \<and> w_agents w a = Some ag)
     \<and> w_datas w (chart_data_ptr ch) = Some d \<and> immediate H (game_object ag) d"

lemma node_run:
  assumes "flow_chart H w c ch ag d" "j < length ns" "length (node_list d) = length ns" "w_index w = i"
    and eval: "eval_node H (w_stop_when_error w) d (game_object ag) ns j e = (r, e')"
  obtains nd where "Node_Run H K (NP c j) (at w i c ch ns cs e (Some (NP c j))) = Some (at w i c ch (ns[j := nd]) cs e' (Some (NP c j)))"
    "result nd = r" "status nd = status (ns ! j)" "attacher nd = attacher (ns ! j)"
proof -
  let ?m = "Some (NP c j)"
  obtain a where a: "chart_agent ch = Some a" "w_agents w a = Some ag"
    and d: "w_datas w (chart_data_ptr ch) = Some d" and im: "immediate H (game_object ag) d"
    using assms(1) by (auto simp: flow_chart_def)
  show ?thesis
  proof (cases "skip (ns ! j)")
    case True
    with eval assms(2) show ?thesis
      by (intro that [of "(ns ! j)\<lparr>skip := False\<rparr>"]) (auto simp: Node_Run_def SetSkip_def eval_node_def)
  next
    case False
    let ?nd = "(ns ! j)\<lparr>run_flag := True, result := rFALSE\<rparr>"
    have mem: "node_list d ! j \<in> set (node_list d)" using assms(2,3) by simp
    show ?thesis
    proof (cases "node_func (node_list d ! j)")
      case None
      with False eval assms(2,3) d show ?thesis
        by (intro that [of ?nd]) (auto simp: Node_Run_def SetRunFlag_def SetResult_def eval_node_def)
    next
      case (Some f)
      with im mem obtain code name where f: "f = Script code name" and
        nocall: "\<And>a e' k. h_func H code name (game_object ag) e \<noteq> Call a e' k"
        unfolding immediate_def by (cases f) metis+
      have "NodeFunc_call H K f a (at w i c ch (ns[j := ?nd]) cs e ?m) = Some (r, at w i c ch (ns[j := ?nd]) cs e' ?m)"
        using eval False Some f nocall a assms(4)
        by (cases "h_func H code name (game_object ag) e")
          (auto simp: NodeFunc_call_def PyNodeFunc_call_def eval_node_def GetCurrentNode_def)
      with False assms(2,3) d Some a show ?thesis
        by (intro that [of "?nd\<lparr>result := r\<rparr>"]) (auto simp: Node_Run_def SetRunFlag_def SetResult_def)
    qed
  qed
qed

lemma dfs_add_children:
  assumes fc: "flow_chart H w c ch ag d" and len: "length (node_list d) = length ns" "j < length ns"
    and st: "stacked i c js hist cs" and r: "result (ns ! j) = r"
    and ks: "distinct (children_of d r j @ js)" "set (children_of d r j) \<subseteq> {..<length ns} - {j}"
  obtains ns' cs' where "AddSubsequenceNodes i (NP c j) (at w i c ch ns cs e m) = Some (at w i c ch ns' cs' e m)"
    "stacked i c (children_of d r j @ js) hist cs'" "length ns' = length ns"
    "\<forall>k < length ns. k \<noteq> j \<longrightarrow> like (ns ! k) (ns' ! k)"
    "status (ns' ! j) = status (ns ! j)" "attacher (ns' ! j) = attacher (ns ! j)"
proof (cases "r = rSTOP")
  case True
  with r len(2) st show ?thesis
    by (intro that [of ns cs]) (simp_all add: AddSubsequenceNodes_def children_of_def)
next
  case False
  let ?nd = "if r = rTRUE then (ns ! j)\<lparr>true_count := true_count (ns ! j) + 1\<rparr>
    else (ns ! j)\<lparr>false_count := false_count (ns ! j) + 1\<rparr>"
  let ?ns = "ns[j := ?nd]"
  have children: "children_of d r j = GetSubsequenceIds (r = rTRUE) (node_list d ! j)"
    using False by (simp add: children_of_def)
  have data: "w_datas w (chart_data_ptr ch) = Some d" using fc by (simp add: flow_chart_def)
  obtain ns' cs' where
    run: "foldM (push_child i (NP c j)) (rev (children_of d r j)) (at w i c ch ?ns cs e m) = Some (at w i c ch ns' cs' e m)"
    and st': "stacked i c (children_of d r j @ js) hist cs'" and len': "length ns' = length ns"
    and like: "\<forall>k < length ns. like (?ns ! k) (ns' ! k)"
    using push_children [OF st, of "children_of d r j" ?ns j w ch e m] ks len(2) by auto
  have "AddSubsequenceNodes i (NP c j) (at w i c ch ns cs e m) = Some (at w i c ch ns' cs' e m)"
    using run r False len data children by (simp add: AddSubsequenceNodes_def)
  moreover have "\<forall>k < length ns. k \<noteq> j \<longrightarrow> like (ns ! k) (ns' ! k)" using like by auto
  moreover have "like ?nd (ns' ! j)" using like len(2) by (metis nth_list_update_eq)
  then have "status (ns' ! j) = status (ns ! j)" "attacher (ns' ! j) = attacher (ns ! j)"
    by (simp_all add: like_sel(1,5) split: if_splits)
  ultimately show ?thesis using that st' len' by blast
qed

lemma node_pass:
  assumes fc: "flow_chart H w c ch ag d" and len: "length (node_list d) = length ns" "j < length ns"
    and i: "w_index w = i" and st: "stacked i c (j # js) hist cs"
    and idle: "status (ns ! j) \<noteq> Running" "\<not> run_flag (ns ! j)"
    and eval: "eval_node H (w_stop_when_error w) d (game_object ag) ns j e = (r, e')"
    and ks: "distinct (children_of d r j @ js)" "set (children_of d r j) \<subseteq> {..<length ns} - {j}"
  obtains ns' cs' where "dfs_pass H K i (b, at w i c ch ns cs e m) = Some (b, at w i c ch ns' cs' e' (Some (NP c j)))"
    "stacked i c (children_of d r j @ js) (hist @ [NP c j]) cs'" "length ns' = length ns"
    "\<forall>k < length ns. k \<noteq> j \<longrightarrow> like (ns ! k) (ns' ! k)"
    "status (ns' ! j) = EndRun" "attacher (ns' ! j) = attacher (ns ! j)"
proof -
  let ?m = "Some (NP c j)"
  obtain cs1 where pop: "Exec_Pop i cs = Some (NP c j, cs1)" "stacked i c js (hist @ [NP c j]) cs1"
    and own: "cs_of cs (NP c j) = Some (CExec i)" "Exec_GetTop i cs = Some (NP c j)"
    by (rule stacked_pop [OF st])
  obtain nd where run: "Node_Run H K (NP c j) (at w i c ch ns cs e ?m) = Some (at w i c ch (ns[j := nd]) cs e' ?m)"
    and nd: "result nd = r" "status nd = status (ns ! j)" "attacher nd = attacher (ns ! j)"
    by (rule node_run [OF fc len(2,1) i eval])
  let ?ns = "ns[j := nd\<lparr>status := EndRun\<rparr>]"
  obtain ns' cs' where add: "AddSubsequenceNodes i (NP c j) (at w i c ch ?ns cs1 e' ?m) = Some (at w i c ch ns' cs' e' ?m)"
    and st': "stacked i c (children_of d r j @ js) (hist @ [NP c j]) cs'" and len': "length ns' = length ns"
    and like: "\<forall>k < length ns. k \<noteq> j \<longrightarrow> like (ns ! k) (ns' ! k)"
    and j: "status (ns' ! j) = EndRun" "attacher (ns' ! j) = attacher (ns ! j)"
    using dfs_add_children [OF fc, of ?ns j i js "hist @ [NP c j]" cs1 r e' ?m] len pop(2) nd ks by auto
  have data: "w_datas w (chart_data_ptr ch) = Some d" using fc by (simp add: flow_chart_def)
  have "dfs_pass H K i (b, at w i c ch ns cs e m) = Some (b, at w i c ch ns' cs' e' ?m)"
    using own idle len data run nd(2) pop(1) add
    by (simp add: dfs_pass_def exec_Pop_def SetStatus_def)
  then show ?thesis by (rule that [OF _ st' len' like j])
qed

section \<open>The loop\<close>

text \<open>The nodes that are still to be run are as they were at the beginning.\<close>

definition unrun :: "node list \<Rightarrow> node list \<Rightarrow> nat list \<Rightarrow> bool" where
  "unrun ns0 ns t \<longleftrightarrow> length ns = length ns0 \<and> set t \<subseteq> {..<length ns0}
     \<and> (\<forall>j \<in> set t. like (ns0 ! j) (ns ! j) \<and> \<not> run_flag (ns ! j) \<and> status (ns ! j) \<noteq> Running)"

lemma eval_node_like:
  "like (ns0 ! j) (ns ! j) \<Longrightarrow> eval_node H stop d obj ns j e = eval_node H stop d obj ns0 j e"
  by (simp add: eval_node_def like_sel)

lemma like_trans: "like x y \<Longrightarrow> like y z \<Longrightarrow> like x z"
  by (auto simp: like_def)

lemma loop_walks:
  assumes fc: "flow_chart H w c ch ag d" and len: "length (node_list d) = length ns0" and i: "w_index w = i"
    and "walk (eval_node H (w_stop_when_error w) d (game_object ag) ns0) d k js e = Some (t, e')"
    and "stacked i c js hist cs" "unrun ns0 ns t" "distinct t" "k \<le> left"
  shows "\<exists>ns' cs' m'. dfs_loop H K i c left (b, at w i c ch ns cs e m) = Some (b, at w i c ch ns' cs' e' m')
    \<and> stacked i c [] (hist @ map (NP c) t) cs' \<and> length ns' = length ns0
    \<and> (\<forall>j < length ns0. attacher (ns' ! j) = attacher (ns ! j)
        \<and> status (ns' ! j) = (if j \<in> set t then EndRun else status (ns ! j)))"
  using assms(4-)
proof (induction k arbitrary: js e t ns cs m hist left)
  case 0
  then have "js = []" "t = []" "e' = e" by (cases js; simp)+
  with 0 have "dfs_loop H K i c left (b, at w i c ch ns cs e m) = Some (b, at w i c ch ns cs e m)"
    by (cases left) (simp_all add: stacked_def)
  with 0 \<open>js = []\<close> \<open>t = []\<close> \<open>e' = e\<close> show ?case
    by (intro exI [of _ ns] exI [of _ cs] exI [of _ m]) (simp add: unrun_def)
next
  case (Suc k)
  let ?eval = "eval_node H (w_stop_when_error w) d (game_object ag)"
  obtain j js0 where js: "js = j # js0" using Suc.prems(1) by (cases js) auto
  obtain r e1 where r: "?eval ns0 j e = (r, e1)" by fastforce
  with Suc.prems(1) js obtain u where u: "walk (?eval ns0) d k (children_of d r j @ js0) e1 = Some (u, e')" "t = j # u"
    by auto
  have j: "j < length ns" "like (ns0 ! j) (ns ! j)" "\<not> run_flag (ns ! j)" "status (ns ! j) \<noteq> Running"
    and u_un: "\<forall>l \<in> set u. l < length ns \<and> l \<noteq> j" and lens: "length ns = length ns0"
    using Suc.prems(3,4) u(2) by (auto simp: unrun_def)
  have sub: "set (children_of d r j @ js0) \<subseteq> set u" by (rule walk_set [OF u(1)])
  have dist: "distinct (children_of d r j @ js0)" by (rule walk_distinct [OF u(1)]) (use Suc.prems(4) u(2) in simp)
  from Suc.prems(5) obtain left' where left: "left = Suc left'" "k \<le> left'" by (cases left) auto
  have dlen: "length (node_list d) = length ns" using len lens by simp
  have st0: "stacked i c (j # js0) hist cs" using Suc.prems(2) js by simp
  have ev: "?eval ns j e = (r, e1)" by (simp only: eval_node_like [OF j(2)] r)
  have below: "set (children_of d r j) \<subseteq> {..<length ns} - {j}" using sub u_un by auto
  obtain ns1 cs1 where pass: "dfs_pass H K i (b, at w i c ch ns cs e m) = Some (b, at w i c ch ns1 cs1 e1 (Some (NP c j)))"
    and st: "stacked i c (children_of d r j @ js0) (hist @ [NP c j]) cs1" and len1: "length ns1 = length ns"
    and like: "\<forall>l < length ns. l \<noteq> j \<longrightarrow> like (ns ! l) (ns1 ! l)"
    and ended: "status (ns1 ! j) = EndRun" "attacher (ns1 ! j) = attacher (ns ! j)"
    by (rule node_pass [OF fc dlen j(1) i st0 j(4,3) ev dist below])
  have "unrun ns0 ns1 u"
    using Suc.prems(3) u(2) u_un like len1 lens unfolding unrun_def
    by (auto intro: like_trans simp: like_sel)
  from Suc.IH [OF u(1) st this _ left(2), of "Some (NP c j)"] Suc.prems(4) u(2) obtain ns2 cs2 m2 where
    rest: "dfs_loop H K i c left' (b, at w i c ch ns1 cs1 e1 (Some (NP c j))) = Some (b, at w i c ch ns2 cs2 e' m2)"
      "stacked i c [] ((hist @ [NP c j]) @ map (NP c) u) cs2" "length ns2 = length ns0"
    and nodes: "\<forall>l < length ns0. attacher (ns2 ! l) = attacher (ns1 ! l)
        \<and> status (ns2 ! l) = (if l \<in> set u then EndRun else status (ns1 ! l))" by auto
  have "dfs_loop H K i c left (b, at w i c ch ns cs e m) = Some (b, at w i c ch ns2 cs2 e' m2)"
    using Suc.prems(2) js pass rest(1) fc left(1) by (simp add: stacked_def flow_chart_def)
  moreover have "attacher (ns2 ! l) = attacher (ns ! l)
      \<and> status (ns2 ! l) = (if l \<in> set t then EndRun else status (ns ! l))" if "l < length ns0" for l
    using nodes that like ended u(2) u_un lens by (cases "l = j") (auto simp: like_sel)
  ultimately show ?case using rest(2,3) u(2) by (intro exI [of _ ns2] exI [of _ cs2] exI [of _ m2]) simp
qed

section \<open>The end of a run\<close>

lemma node_stop_at:
  assumes "j < length ns" "attacher (ns ! j) = None" "cs_inv cs"
  shows "Node_Stop (NP c j) (at w i c ch ns cs e m) = Some (at w i c ch
    (ns[j := (ns ! j)\<lparr>status := Idle, result := rSTOP, run_flag := False, skip := False\<rparr>]) (purge (NP c j) cs) e m)"
  using assms by (simp add: Node_Stop_def Node_Stop_with_def on_cs_def leave_purge)

lemma stacked_purge: "stacked i c [] hist cs \<Longrightarrow> stacked i c [] hist (purge n cs)"
  by (simp add: stacked_def purge_inv)

lemma restore_nodes:
  assumes "set t \<subseteq> {..<length ns}" "stacked i c [] hist cs" "\<forall>j < length ns. attacher (ns ! j) = None"
  shows "\<exists>ns' cs'. foldM (\<lambda>n w. do { w \<leftarrow> SetRunFlag False n w; nd \<leftarrow> get_node n w;
        if status nd = EndRun then Node_Stop n w else Some w }) (map (NP c) t) (at w i c ch ns cs e m)
      = Some (at w i c ch ns' cs' e m)
    \<and> stacked i c [] hist cs' \<and> length ns' = length ns
    \<and> (\<forall>j < length ns. attacher (ns' ! j) = None \<and> (status (ns' ! j) = Running \<longleftrightarrow> status (ns ! j) = Running))"
  using assms
proof (induction t arbitrary: ns cs)
  case Nil
  then show ?case by (intro exI [of _ ns] exI [of _ cs]) simp
next
  case (Cons j t)
  let ?ns = "ns[j := (ns ! j)\<lparr>run_flag := False\<rparr>]"
  let ?stop = "status (ns ! j) = EndRun"
  let ?ns1 = "if ?stop then ?ns[j := (?ns ! j)\<lparr>status := Idle, result := rSTOP, run_flag := False, skip := False\<rparr>] else ?ns"
  let ?cs1 = "if ?stop then purge (NP c j) cs else cs"
  have j: "j < length ns" "attacher (?ns ! j) = None" "cs_inv cs"
    using Cons.prems by (simp_all add: stacked_def)
  have step: "do { w \<leftarrow> SetRunFlag False (NP c j) (at w i c ch ns cs e m); nd \<leftarrow> get_node (NP c j) w;
      if status nd = EndRun then Node_Stop (NP c j) w else Some w } = Some (at w i c ch ?ns1 ?cs1 e m)"
    using j node_stop_at [of j ?ns cs c w i ch e m] by (simp add: SetRunFlag_def)
  have "set t \<subseteq> {..<length ?ns1}" "stacked i c [] hist ?cs1" "\<forall>l < length ?ns1. attacher (?ns1 ! l) = None"
    using Cons.prems j(1) by (auto simp: nth_list_update stacked_purge)
  from Cons.IH [OF this] obtain ns' cs' where rest:
    "foldM (\<lambda>n w. do { w \<leftarrow> SetRunFlag False n w; nd \<leftarrow> get_node n w;
        if status nd = EndRun then Node_Stop n w else Some w }) (map (NP c) t) (at w i c ch ?ns1 ?cs1 e m)
      = Some (at w i c ch ns' cs' e m)" "stacked i c [] hist cs'" "length ns' = length ?ns1"
    "\<forall>l < length ?ns1. attacher (ns' ! l) = None \<and> (status (ns' ! l) = Running \<longleftrightarrow> status (?ns1 ! l) = Running)"
    by blast
  have "status (?ns1 ! l) = Running \<longleftrightarrow> status (ns ! l) = Running" if "l < length ns" for l
    using that j(1) by (auto simp: nth_list_update)
  with rest step show ?case
    by (intro exI [of _ ns'] exI [of _ cs']) simp
qed

lemma wf_charts_at:
  assumes "wf_charts w" "w_charts w c = Some ch" "\<forall>nd \<in> set ns. attacher nd = None"
  shows "wf_charts (at w i c ch ns cs e m)"
proof -
  let ?w = "at w i c ch ns cs e m"
  have sub: "subchart_of n ?w = (if np_chart n = c then None else subchart_of n w)" for n
    using assms(3) by (auto simp: subchart_of_def get_node_def)
  show ?thesis
    using assms(1,2) unfolding wf_charts_def sub by (auto split: if_splits)
qed

section \<open>A whole run\<close>

text \<open>A running chart without owner and callback whose nodes are at rest, started at the node \<open>s\<close>.\<close>

definition flow_ready :: "'e host \<Rightarrow> 'e world \<Rightarrow> nat \<Rightarrow> nat \<Rightarrow> chart \<Rightarrow> agent \<Rightarrow> chart_data \<Rightarrow> bool" where
  "flow_ready H w c s ch ag d \<longleftrightarrow> w_charts w c = Some ch \<and> flow_chart H w c ch ag d
     \<and> agent_status ag = AgentRunning \<and> owner_node ch = None \<and> \<not> h_callable H (py_call ch)
     \<and> length (node_list d) = length (nodes ch) \<and> s < length (nodes ch)
     \<and> (\<forall>j < length (nodes ch). \<not> run_flag (nodes ch ! j) \<and> attacher (nodes ch ! j) = None
          \<and> (j \<noteq> s \<longrightarrow> status (nodes ch ! j) \<noteq> Running))"

lemma shape_keep:
  "w_env (shape w) = w_env w" "w_index (shape w) = w_index w" "w_cur_node (shape w) = w_cur_node w"
  "w_cur_agent (shape w) = w_cur_agent w"
  by (simp_all add: shape_def)

lemma shape_chart_call: "py_call (shape_chart ch) = py_call ch"
  by (simp add: shape_chart_def)

lemma shape_frame: "shape w' = shape w \<Longrightarrow> w_env w' = w_env w \<and> w_index w' = w_index w
    \<and> w_cur_node w' = w_cur_node w \<and> w_cur_agent w' = w_cur_agent w"
  by (metis shape_keep)

lemma finish_stops:
  assumes ch: "w_charts w c = Some ch" "chart_running ch" "owner_node ch = None" "\<not> h_callable H (py_call ch)"
    and wf: "wf_world w" and idle: "\<forall>nd \<in> set (nodes ch). status nd \<noteq> Running"
  obtains w' where "finish_chart H K False c w = Some w'" "chart_stopped c w'" "wf_world w'" "shape w' = shape w"
proof -
  obtain w1 where stop: "Chart_Stop c w = Some w1" using Chart_Stop_total [OF wf] ch(1) by blast
  then have rel: "stop_rel w w1" and st: "chart_stopped c w1"
    using Chart_Stop_rel wf by (auto simp: wf_world_def)
  obtain ch1 where ch1: "w_charts w1 c = Some ch1" "shape_chart ch1 = shape_chart ch"
    using stop_rel_chart [OF rel ch(1)] by blast
  then have "py_call ch1 = py_call ch" by (metis shape_chart_call)
  then have ret: "PyChart_Return_bool H K True c w = Some w1"
    using ch stop ch1(1) by (simp add: PyChart_Return_bool_def Chart_Return_def InvokeCallback_def)
  obtain w2 where w2: "set_running False c w1 = Some w2"
    using ch1(1) by (auto simp: set_running_def upd_chart_def)
  have rel2: "stop_rel w1 w2" by (rule set_running_rel [OF w2])
  have wf1: "wf_world w1" by (rule stop_rel_wf [OF rel wf])
  have "chart_stopped c w2"
    using st w2 stop_rel_stopped [OF rel2] wf1
    by (auto simp: chart_stopped_def set_running_def upd_chart_def wf_world_def)
  moreover have "finish_chart H K False c w = Some w2"
    using ch ret w2 idle by (simp add: finish_chart_def CheckRunning_def list_ex_iff)
  moreover have "shape w2 = shape w" using rel rel2 by (simp add: stop_rel_def)
  ultimately show ?thesis using that stop_rel_wf [OF rel2 wf1] by blast
qed

lemma at_self: "w_charts w c = Some ch \<Longrightarrow> at w i c ch (nodes ch) (w_cs w) (w_env w) (w_cur_node w i) = w"
  by (simp add: at_def fun_upd_idem)

lemma hist_clear_stacked: "stacked i c [] hist cs \<Longrightarrow> cs_inv (hist_clear i cs)"
  by (simp add: stacked_def hist_clear_inv)

lemma Dfs_visits:
  assumes ready: "flow_ready H w c s ch ag d" and wf: "wf_world w" and i: "w_index w = i" "cs_hist (w_cs w) i = []"
    and visit: "visit (eval_node H (w_stop_when_error w) d (game_object ag) (nodes ch)) d k [s] (w_env w) = Some (t, e)"
    and t: "distinct t" "set t \<subseteq> {..<length (nodes ch)}" "length t \<le> MAX_NODES_PER_EXECUTION"
  obtains w' where "Dfs_RunFlow H K (NP c s) w = Some w'" "w_env w' = e" "chart_stopped c w'" "w_index w' = i"
proof -
  let ?eval = "eval_node H (w_stop_when_error w) d (game_object ag)" and ?ns = "nodes ch"
  obtain a where a: "chart_agent ch = Some a" "w_agents w a = Some ag"
    and running: "chart_running ch" and data: "w_datas w (chart_data_ptr ch) = Some d"
    and chart: "w_charts w c = Some ch" "owner_node ch = None" "\<not> h_callable H (py_call ch)"
    and len: "length (node_list d) = length ?ns" "s < length ?ns" and act: "agent_status ag = AgentRunning"
    and fc: "flow_chart H w c ch ag d"
    and nodes: "\<And>j. j < length ?ns \<Longrightarrow> \<not> run_flag (?ns ! j) \<and> attacher (?ns ! j) = None
          \<and> (j \<noteq> s \<longrightarrow> status (?ns ! j) \<noteq> Running)"
    using ready by (auto simp: flow_ready_def flow_chart_def)
  let ?w = "w\<lparr>w_cur_agent := (w_cur_agent w)(i := Some a)\<rparr>"
  let ?start = "?ns[s := (?ns ! s)\<lparr>status := Idle\<rparr>]" and ?m = "w_cur_node w i"
  have self: "?w = at ?w i c ch ?ns (w_cs w) (w_env w) ?m" by (rule sym, rule at_self [of ?w, simplified]) (rule chart(1))
  have walk: "walk (?eval ?ns) d (length t) [s] (w_env w) = Some (t, e)"
    using visit_walk [OF visit, of 0 "[]"] by simp
  have ev: "?eval ?start = ?eval ?ns" using len(2) by (auto simp: eval_node_def fun_eq_iff nth_list_update)
  have clear: "stacked i c [] [] (Exec_clear i (w_cs w))"
    using wf i(2) Exec_clear_inv [of "w_cs w" i] by (simp add: stacked_def wf_world_def) (simp add: Exec_clear_def)
  obtain cs0 where push: "Exec_Push i (NP c s) (Exec_clear i (w_cs w)) = Some cs0" "stacked i c [s] [] cs0"
    using stacked_push [OF clear, of s] by auto
  have start: "\<not> run_flag (?start ! j) \<and> attacher (?start ! j) = None \<and> status (?start ! j) \<noteq> Running"
    if "j < length ?ns" for j using nodes [OF that] that len(2) by (simp add: nth_list_update)
  have un: "unrun ?start ?start t" using start t(2) by (auto simp: unrun_def)
  obtain ns1 cs1 m1 where loop: "dfs_loop H K i c MAX_NODES_PER_EXECUTION (False, at ?w i c ch ?start cs0 (w_env w) ?m)
      = Some (False, at ?w i c ch ns1 cs1 e m1)" "stacked i c [] (map (NP c) t) cs1" "length ns1 = length ?ns"
    and ns1: "\<forall>j < length ?ns. attacher (ns1 ! j) = None \<and> status (ns1 ! j) \<noteq> Running"
  proof -
    have fc': "flow_chart H ?w c ch ag d" using fc by (simp add: flow_chart_def)
    have walk': "walk (eval_node H (w_stop_when_error ?w) d (game_object ag) ?start) d (length t) [s] (w_env w) = Some (t, e)"
      using walk ev by simp
    have "length (node_list d) = length ?start" "w_index ?w = i" using len(1) i(1) by simp_all
    from loop_walks [OF fc' this walk' push(2) un t(1,3), of K False ?m] obtain ns' cs' m' where
      "dfs_loop H K i c MAX_NODES_PER_EXECUTION (False, at ?w i c ch ?start cs0 (w_env w) ?m) = Some (False, at ?w i c ch ns' cs' e m')"
      "stacked i c [] ([] @ map (NP c) t) cs'" "length ns' = length ?start"
      "\<forall>j < length ?start. attacher (ns' ! j) = attacher (?start ! j)
        \<and> status (ns' ! j) = (if j \<in> set t then EndRun else status (?start ! j))" by blast
    with start show ?thesis by (intro that [of ns' cs' m']) simp_all
  qed
  obtain ns2 cs2 where restore: "restore_history i (at ?w i c ch ns1 cs1 e m1) = Some (at ?w i c ch ns2 cs2 e m1)"
    and cs2: "cs_inv cs2" and ns2: "length ns2 = length ?ns" "\<forall>nd \<in> set ns2. attacher nd = None \<and> status nd \<noteq> Running"
  proof -
    have "set t \<subseteq> {..<length ns1}" "\<forall>j < length ns1. attacher (ns1 ! j) = None" using t(2) loop(3) ns1 by simp_all
    from restore_nodes [OF this(1) loop(2) this(2), of ?w ch e m1] obtain ns2 cs2 where
      r: "foldM (\<lambda>n w. do { w \<leftarrow> SetRunFlag False n w; nd \<leftarrow> get_node n w;
          if status nd = EndRun then Node_Stop n w else Some w }) (map (NP c) t) (at ?w i c ch ns1 cs1 e m1)
        = Some (at ?w i c ch ns2 cs2 e m1)" "stacked i c [] (map (NP c) t) cs2" "length ns2 = length ns1"
      "\<forall>j < length ns1. attacher (ns2 ! j) = None \<and> (status (ns2 ! j) = Running \<longleftrightarrow> status (ns1 ! j) = Running)"
      by blast
    have hist: "cs_hist cs1 i = map (NP c) t" using loop(2) by (simp add: stacked_def)
    have "restore_history i (at ?w i c ch ns1 cs1 e m1) = Some (at ?w i c ch ns2 (hist_clear i cs2) e m1)"
      unfolding restore_history_def by (simp add: hist r(1) on_cs_def)
    then show ?thesis
    proof (rule that)
      show "cs_inv (hist_clear i cs2)" by (rule hist_clear_stacked [OF r(2)])
      show "length ns2 = length ?ns" "\<forall>nd \<in> set ns2. attacher nd = None \<and> status nd \<noteq> Running"
        using r(3,4) loop(3) ns1 by (auto simp: in_set_conv_nth)
    qed
  qed
  let ?w2 = "at ?w i c ch ns2 cs2 e m1"
  have "wf_charts ?w" using wf by (simp add: wf_world_def wf_charts_def subchart_of_def get_node_def)
  then have wf2: "wf_world ?w2"
    using wf_charts_at [of ?w c ch ns2 i cs2 e m1] chart(1) ns2(2) cs2 by (simp add: wf_world_def)
  obtain w3 where fin: "finish_chart H K False c ?w2 = Some w3" and st: "chart_stopped c w3" and sh: "shape w3 = shape ?w2"
    by (rule finish_stops [of ?w2 c "ch\<lparr>nodes := ns2\<rparr>" H K]) (use running chart wf2 ns2(2) in auto)
  let ?w' = "w3\<lparr>w_cur_node := (w_cur_node w3)(i := None), w_cur_agent := (w_cur_agent w3)(i := None)\<rparr>"
  have node: "get_node (NP c s) w = Some (?ns ! s)" using chart(1) len(2) by (simp add: get_node_def)
  have idle: "SetStatus Idle (NP c s) ?w = Some (at ?w i c ch ?start (w_cs w) (w_env w) ?m)"
  proof -
    have "SetStatus Idle (NP c s) (at ?w i c ch ?ns (w_cs w) (w_env w) ?m) = Some (at ?w i c ch ?start (w_cs w) (w_env w) ?m)"
      using len(2) by (simp add: SetStatus_def)
    then show ?thesis unfolding self [symmetric] .
  qed
  have "Dfs_RunFlow H K (NP c s) w = Some ?w'"
    unfolding Dfs_RunFlow_def Let_def i(1)
    using a act running chart(1) node idle push(1) len(2) loop(1) restore fin
    by (simp add: agent_of_def on_cs_def exec_Push_def)
  moreover have "w_env ?w' = e" "w_index ?w' = i" using shape_frame [OF sh] i(1) by simp_all
  moreover have "chart_stopped c ?w'"
    using st by (simp add: chart_stopped_def node_stopped_def node_reset_def has_timer_def get_node_def)
  ultimately show ?thesis using that by blast
qed

lemma RunFlow_visits:
  assumes "flow_ready H w c s ch ag d" "wf_world w"
    and "w_index w + 1 < MAX_STACK_SIZE" "cs_hist (w_cs w) (w_index w + 1) = []"
    and "visit (eval_node H (w_stop_when_error w) d (game_object ag) (nodes ch)) d k [s] (w_env w) = Some (t, e)"
    and "distinct t" "set t \<subseteq> {..<length (nodes ch)}" "length t \<le> MAX_NODES_PER_EXECUTION"
  shows "\<exists>w'. RunFlow H (NP c s) w = Some (True, w') \<and> w_env w' = e \<and> chart_stopped c w' \<and> w_index w' = w_index w"
proof -
  let ?i = "w_index w + 1" and ?w = "w\<lparr>w_index := w_index w + 1\<rparr>"
  obtain left where left: "MAX_STACK_SIZE - 1 - w_index w = Suc left"
    using assms(3) by (metis Suc_diff_Suc Suc_eq_plus1 add.commute diff_diff_left less_diff_conv)
  have "flow_ready H ?w c s ch ag d" using assms(1) by (simp add: flow_ready_def flow_chart_def)
  moreover have "wf_world ?w" using assms(2) by (simp add: wf_world_def wf_charts_def subchart_of_def get_node_def)
  ultimately obtain w' where w': "Dfs_RunFlow H (knot_of H (run_flow H left)) (NP c s) ?w = Some w'"
    "w_env w' = e" "chart_stopped c w'" "w_index w' = ?i"
    using Dfs_visits [of H ?w c s ch ag d ?i k t e] assms(4-) by auto
  have "RunFlow H (NP c s) w = Some (True, w'\<lparr>w_index := w_index w\<rparr>)"
    using w'(1) assms(3) unfolding RunFlow_def left by simp
  moreover have "chart_stopped c (w'\<lparr>w_index := w_index w\<rparr>)"
    using w'(3) by (simp add: chart_stopped_def node_stopped_def node_reset_def has_timer_def get_node_def)
  ultimately show ?thesis using w'(2) by (intro exI [of _ "w'\<lparr>w_index := w_index w\<rparr>"]) simp
qed

end
