(* ===== verification/Flow_Order.thy ===== *)
theory Flow_Order
  imports Depth_First
begin

text \<open>
  The order in which a flow runs the nodes of a chart, stated over \<open>Manager::RunFlow\<close>, and that the
  flow over a chart that is a tree returns.
\<close>

section \<open>Trees\<close>

definition edges :: "chart_data \<Rightarrow> (nat \<times> nat) set" where
  "edges d = {(j, l). j < length (node_list d) \<and> (\<exists>b. l \<in> set (GetSubsequenceIds b (node_list d ! j)))}"

text \<open>A chart that is a tree: children come after their parents, and have one parent only.\<close>

definition tree_chart :: "chart_data \<Rightarrow> bool" where
  "tree_chart d \<longleftrightarrow> (\<forall>(j, l) \<in> edges d. j < l \<and> l < length (node_list d))
     \<and> (\<forall>(j, l) \<in> edges d. \<forall>(j', l') \<in> edges d. l = l' \<longrightarrow> j = j')
     \<and> (\<forall>nd \<in> set (node_list d). \<forall>b. distinct (GetSubsequenceIds b nd))"

lemma treeD:
  assumes "tree_chart d" "(j, l) \<in> edges d"
  shows "j < l" "l < length (node_list d)" "(j', l) \<in> edges d \<Longrightarrow> j' = j"
  using assms unfolding tree_chart_def by blast+

lemma children_edges: "j < length (node_list d) \<Longrightarrow> l \<in> set (children_of d r j) \<Longrightarrow> (j, l) \<in> edges d"
  by (auto simp: children_of_def edges_def split: if_splits)

lemma children_distinct: "tree_chart d \<Longrightarrow> j < length (node_list d) \<Longrightarrow> distinct (children_of d r j)"
  by (simp add: tree_chart_def children_of_def)

lemma visit_mono: "visit f d k js e = Some x \<Longrightarrow> k \<le> k' \<Longrightarrow> visit f d k' js e = Some x"
proof (induction f d k js e arbitrary: x k' rule: visit.induct)
  case (3 f d k j js e)
  obtain r e0 where f: "f j e = (r, e0)" by fastforce
  obtain m where m: "k' = Suc m" "k \<le> m" using "3.prems"(2) by (cases k') auto
  from f "3.prems"(1) obtain t1 e1 t2 e2 where v: "visit f d k (children_of d r j) e0 = Some (t1, e1)"
    "visit f d k js e1 = Some (t2, e2)" "x = (j # t1 @ t2, e2)" by (auto elim!: bind_SomeE)
  have "visit f d m (children_of d r j) e0 = Some (t1, e1)" "visit f d m js e1 = Some (t2, e2)"
    using "3.IH"(1) [OF f [symmetric] refl v(1) m(2)] "3.IH"(2) [OF f [symmetric] refl v(1) refl v(2) m(2)] by simp_all
  with f v(3) m(1) show ?case by simp
qed auto

lemma visit_total:
  assumes tree: "tree_chart d"
  shows "\<forall>j \<in> set js. lo \<le> j \<and> j < length (node_list d) \<Longrightarrow> \<exists>k x. visit f d k js e = Some x"
proof (induction "length (node_list d) - lo" arbitrary: lo js e rule: less_induct)
  case less
  from less.prems show ?case
  proof (induction js arbitrary: e)
    case (Cons j js)
    obtain r e0 where f: "f j e = (r, e0)" by fastforce
    have j: "lo \<le> j" "j < length (node_list d)" using Cons.prems by simp_all
    then have "\<forall>l \<in> set (children_of d r j). Suc j \<le> l \<and> l < length (node_list d)"
      using treeD(1,2) [OF tree] children_edges [OF j(2)] by (simp add: Suc_le_eq) blast
    then obtain k1 t1 e1 where k1: "visit f d k1 (children_of d r j) e0 = Some (t1, e1)"
      using less.hyps [of "Suc j" "children_of d r j" e0] j by fastforce
    obtain k2 t2 e2 where k2: "visit f d k2 js e1 = Some (t2, e2)" using Cons by fastforce
    have "visit f d (Suc (max k1 k2)) (j # js) e = Some (j # t1 @ t2, e2)"
      using f visit_mono [OF k1, of "max k1 k2"] visit_mono [OF k2, of "max k1 k2"] by simp
    then show ?case by blast
  qed auto
qed

lemma tree_le:
  assumes "tree_chart d" "(j, x) \<in> (edges d)\<^sup>*"
  shows "j \<le> x"
  using assms(2) by (induction rule: rtrancl_induct) (use treeD(1) [OF assms(1)] in force)+

lemma siblings_apart:
  assumes tree: "tree_chart d" and p: "(p, j) \<in> edges d" "(p, l) \<in> edges d"
    and x: "(j, x) \<in> (edges d)\<^sup>*" "(l, x) \<in> (edges d)\<^sup>*"
  shows "j = l"
proof (rule ccontr)
  assume "j \<noteq> l"
  have no: False if "(u, v) \<in> (edges d)\<^sup>*" "u \<noteq> v" "(p, u) \<in> edges d" "(p, v) \<in> edges d" for u v
  proof -
    from that(1,2) obtain y where y: "(u, y) \<in> (edges d)\<^sup>*" "(y, v) \<in> edges d" by (metis rtranclE)
    with treeD(3) [OF tree that(4)] have "y = p" by simp
    with y(1) tree_le [OF tree] treeD(1) [OF tree that(3)] show False by fastforce
  qed
  have "single_valued ((edges d)\<inverse>)" using treeD(3) [OF tree] by (auto intro!: single_valuedI)
  from single_valued_confluent [OF this, of x j l] x
  have "(j, l) \<in> (edges d)\<^sup>* \<or> (l, j) \<in> (edges d)\<^sup>*" by (auto simp: rtrancl_converse)
  then show False using no [of j l] no [of l j] \<open>j \<noteq> l\<close> p by blast
qed

lemma visit_ConsE:
  assumes "visit f d k (j # js) e = Some (t, e')"
  obtains m r e0 t1 e1 t2 where "k = Suc m" "f j e = (r, e0)" "visit f d m (children_of d r j) e0 = Some (t1, e1)"
    "visit f d m js e1 = Some (t2, e')" "t = j # t1 @ t2"
proof (cases k)
  case (Suc m)
  obtain r e0 where f: "f j e = (r, e0)" by fastforce
  with assms Suc obtain t1 e1 t2 where "visit f d m (children_of d r j) e0 = Some (t1, e1)"
    "visit f d m js e1 = Some (t2, e')" "t = j # t1 @ t2" by (auto elim!: bind_SomeE)
  with Suc f show ?thesis by (rule that)
qed (use assms in simp)

lemma visit_below:
  assumes tree: "tree_chart d"
  shows "visit f d k js e = Some (t, e') \<Longrightarrow> set js \<subseteq> {..<length (node_list d)}
    \<Longrightarrow> set t \<subseteq> {..<length (node_list d)} \<and> set t \<subseteq> (edges d)\<^sup>* `` set js"
proof (induction k arbitrary: js e t e' rule: less_induct)
  case (less k)
  show ?case
  proof (cases js)
    case Nil
    with less.prems show ?thesis by simp
  next
    case (Cons j js0)
    obtain m r e0 t1 e1 t2 where m: "k = Suc m" and v: "visit f d m (children_of d r j) e0 = Some (t1, e1)"
      "visit f d m js0 e1 = Some (t2, e')" "t = j # t1 @ t2"
      by (rule visit_ConsE [OF less.prems(1) [unfolded Cons]])
    have j: "j < length (node_list d)" and js0: "set js0 \<subseteq> {..<length (node_list d)}" using less.prems(2) Cons by auto
    have kids: "set (children_of d r j) \<subseteq> {..<length (node_list d)}" "set (children_of d r j) \<subseteq> edges d `` {j}"
      using children_edges [OF j] treeD(2) [OF tree] by blast+
    note sub1 = less.IH [OF _ v(1) kids(1), unfolded m, OF lessI]
    note sub2 = less.IH [OF _ v(2) js0, unfolded m, OF lessI]
    have "(edges d)\<^sup>* `` set (children_of d r j) \<subseteq> (edges d)\<^sup>* `` {j}"
      using kids(2) by (auto intro: converse_rtrancl_into_rtrancl)
    with sub1 sub2 v(3) Cons j show ?thesis by (simp add: subset_iff) blast
  qed
qed

text \<open>No two nodes of the list have a common descendant.\<close>

definition apart :: "chart_data \<Rightarrow> nat list \<Rightarrow> bool" where
  "apart d js \<longleftrightarrow> distinct js \<and> (\<forall>j \<in> set js. \<forall>l \<in> set js. \<forall>x.
     (j, x) \<in> (edges d)\<^sup>* \<longrightarrow> (l, x) \<in> (edges d)\<^sup>* \<longrightarrow> j = l)"

lemma children_apart:
  assumes "tree_chart d" "j < length (node_list d)"
  shows "apart d (children_of d r j)"
  unfolding apart_def
  using children_distinct [OF assms] siblings_apart [OF assms(1)] children_edges [OF assms(2)] by blast

lemma visit_distinct:
  assumes tree: "tree_chart d"
  shows "visit f d k js e = Some (t, e') \<Longrightarrow> set js \<subseteq> {..<length (node_list d)} \<Longrightarrow> apart d js \<Longrightarrow> distinct t"
proof (induction k arbitrary: js e t e' rule: less_induct)
  case (less k)
  show ?case
  proof (cases js)
    case Nil
    with less.prems show ?thesis by simp
  next
    case (Cons j js0)
    obtain m r e0 t1 e1 t2 where m: "k = Suc m" and v: "visit f d m (children_of d r j) e0 = Some (t1, e1)"
      "visit f d m js0 e1 = Some (t2, e')" "t = j # t1 @ t2"
      by (rule visit_ConsE [OF less.prems(1) [unfolded Cons]])
    have j: "j < length (node_list d)" and js0: "set js0 \<subseteq> {..<length (node_list d)}" using less.prems(2) Cons by auto
    have kids: "set (children_of d r j) \<subseteq> {..<length (node_list d)}" "set (children_of d r j) \<subseteq> edges d `` {j}"
      using children_edges [OF j] treeD(2) [OF tree] by blast+
    have "apart d js0" using less.prems(3) Cons by (auto simp: apart_def)
    then have dist: "distinct t1" "distinct t2"
      using less.IH [OF _ v(1) kids(1) children_apart [OF tree j]] less.IH [OF _ v(2) js0] m by simp_all
    have t1: "\<exists>l. (j, l) \<in> edges d \<and> (l, x) \<in> (edges d)\<^sup>*" if "x \<in> set t1" for x
      using visit_below [OF tree v(1) kids(1)] kids(2) that by blast
    have t2: "\<exists>l \<in> set js0. (l, x) \<in> (edges d)\<^sup>*" if "x \<in> set t2" for x
      using visit_below [OF tree v(2) js0] that by blast
    have clash: False if "(j, x) \<in> (edges d)\<^sup>*" "x \<in> set t2" for x
      using t2 [OF that(2)] that(1) less.prems(3) Cons by (auto simp: apart_def)
    have "j \<notin> set t1" using t1 tree_le [OF tree] treeD(1) [OF tree] by fastforce
    moreover have "j \<notin> set t2" using clash by blast
    moreover have "set t1 \<inter> set t2 = {}" using t1 clash by (meson converse_rtrancl_into_rtrancl disjoint_iff)
    ultimately show ?thesis using dist v(3) by simp
  qed
qed

section \<open>Properties\<close>

text \<open>C1. Running a flow through nodes with immediate functions runs them in the order of the recursive
  depth-first traversal, each exactly when the traversal gets to it, and ends with the chart returned
  and stopped: the stack of the executor implements the traversal.\<close>

theorem flow_runs_depth_first:
  assumes "flow_ready H w c s ch ag d" "wf_world w"
    and "w_index w + 1 < MAX_STACK_SIZE" "cs_hist (w_cs w) (w_index w + 1) = []"
    and "visit (eval_node H (w_stop_when_error w) d (game_object ag) (nodes ch)) d k [s] (w_env w) = Some (t, e)"
    and "distinct t" "set t \<subseteq> {..<length (nodes ch)}" "length t \<le> MAX_NODES_PER_EXECUTION"
  shows "\<exists>w'. RunFlow H (NP c s) w = Some (True, w') \<and> w_env w' = e \<and> chart_stopped c w' \<and> w_index w' = w_index w"
  using assms by (rule RunFlow_visits)

text \<open>C2. On a chart that is a tree of at most as many nodes as one execution may run, the traversal
  exists and runs no node twice, and the flow returns with its outcome.\<close>

theorem tree_flow_returns:
  assumes ready: "flow_ready H w c s ch ag d" and "wf_world w"
    and "w_index w + 1 < MAX_STACK_SIZE" "cs_hist (w_cs w) (w_index w + 1) = []"
    and tree: "tree_chart d" and "length (nodes ch) \<le> MAX_NODES_PER_EXECUTION"
  shows "\<exists>k t e w'. visit (eval_node H (w_stop_when_error w) d (game_object ag) (nodes ch)) d k [s] (w_env w) = Some (t, e)
    \<and> distinct t \<and> RunFlow H (NP c s) w = Some (True, w') \<and> w_env w' = e \<and> chart_stopped c w'"
proof -
  have s: "set [s] \<subseteq> {..<length (node_list d)}" and len: "length (node_list d) = length (nodes ch)"
    using ready by (simp_all add: flow_ready_def)
  obtain k t e where v: "visit (eval_node H (w_stop_when_error w) d (game_object ag) (nodes ch)) d k [s] (w_env w) = Some (t, e)"
    using visit_total [OF tree, of "[s]" 0] s by fastforce
  have dist: "distinct t" by (rule visit_distinct [OF tree v s]) (simp add: apart_def)
  have sub: "set t \<subseteq> {..<length (nodes ch)}" using visit_below [OF tree v s] len by simp
  have "length t \<le> length (nodes ch)" using dist sub by (metis card_lessThan card_mono distinct_card finite_lessThan)
  then have "length t \<le> MAX_NODES_PER_EXECUTION" using assms(6) by simp
  from RunFlow_visits [OF assms(1-4) v dist sub this] v dist show ?thesis by blast
qed

section \<open>An example\<close>

text \<open>A tree of six nodes; the scripts write their names into a log.\<close>

definition log_host :: "string list host" where
  "log_host = \<lparr>h_func = (\<lambda>code name obj e. Ret (VBool (name \<noteq> ''no'')) (e @ [name])), h_callable = (\<lambda>_. False),
     h_call = (\<lambda>_ _ e. Ret VNone e), h_float = (\<lambda>_. None), h_str = (\<lambda>_. ''-''), h_depth = 0\<rparr>"

definition log_node :: "nat \<Rightarrow> nat list \<Rightarrow> nat list \<Rightarrow> string \<Rightarrow> node_data" where
  "log_node i f s name = (new_node_data i)\<lparr>children_false := f, children_true := s, node_func := Some (Script [] name)\<rparr>"

definition log_data :: chart_data where
  "log_data = new_chart_data\<lparr>node_list := [(new_node_data 0)\<lparr>children_true := [1, 4]\<rparr>,
     log_node 1 [] [2, 3] ''a'', log_node 2 [] [] ''b'', log_node 3 [] [] ''c'', log_node 4 [5] [] ''no'',
     log_node 5 [] [] ''d'']\<rparr>"

definition log_agent :: agent where
  "log_agent = \<lparr>agent_id = 1, tick_interval = 1000, agent_status = AgentRunning, chart_dict = [([], [0])], game_object = 7\<rparr>"

definition log_chart :: chart where
  "log_chart = \<lparr>owner_node = None, chart_data_ptr = 0, chart_agent = Some 0, chart_running = True,
     nodes = (new_node (node_list log_data ! 0))\<lparr>status := Running, skip := True\<rparr> # map new_node (tl (node_list log_data)),
     py_variables = Some [], py_call = VNone, py_init_table = None\<rparr>"

definition log_world :: "string list world" where
  "log_world = (new_manager [])\<lparr>w_agents := [0 \<mapsto> log_agent], w_charts := [0 \<mapsto> log_chart], w_datas := [0 \<mapsto> log_data],
     w_next_chart := 1, w_next_agent := 1\<rparr>"

lemma log_ready: "flow_ready log_host log_world 0 0 log_chart log_agent log_data"
proof -
  have "immediate log_host 7 log_data" by (auto simp: immediate_def log_data_def log_node_def new_node_data_def new_chart_data_def log_host_def)
  moreover have "\<forall>j < 6. \<not> run_flag (nodes log_chart ! j) \<and> attacher (nodes log_chart ! j) = None
      \<and> (j \<noteq> 0 \<longrightarrow> status (nodes log_chart ! j) \<noteq> Running)" by code_simp
  ultimately show ?thesis
    by (simp add: flow_ready_def flow_chart_def log_world_def log_agent_def)
      (simp add: log_chart_def log_data_def log_host_def new_chart_data_def)
qed

lemma log_wf: "wf_world log_world"
proof -
  have "attacher nd = None" if "nd \<in> set (nodes log_chart)" for nd
    using that by (auto simp: log_chart_def new_node_def)
  then have sub: "subchart_of n log_world = None" for n
    by (auto simp: subchart_of_def get_node_def log_world_def split: option.splits)
  have "cs_inv (w_cs log_world)"
    by (simp add: log_world_def new_manager_def cs_inv_def empty_cstore_def rings_def)
  moreover have "wf_charts log_world"
    unfolding wf_charts_def sub by (auto simp: log_world_def log_chart_def log_data_def new_chart_data_def)
  ultimately show ?thesis by (simp add: wf_world_def)
qed

lemma log_edges: "edges log_data = {(0, 1), (0, 4), (1, 2), (1, 3), (4, 5)}"
proof -
  have "edges log_data = (\<Union>j < 6. \<Union>b. {j} \<times> set (GetSubsequenceIds b (node_list log_data ! j)))"
    by (auto simp: edges_def log_data_def new_chart_data_def)
  also have "\<dots> = {(0, 1), (0, 4), (1, 2), (1, 3), (4, 5)}"
    by (auto simp: lessThan_Suc numeral_eq_Suc UNIV_bool log_data_def log_node_def new_chart_data_def new_node_data_def
        GetSubsequenceIds_def)
  finally show ?thesis .
qed

lemma log_tree: "tree_chart log_data"
proof -
  have "\<forall>nd \<in> set (node_list log_data). \<forall>b. distinct (GetSubsequenceIds b nd)"
    by (auto simp: log_data_def log_node_def new_chart_data_def new_node_data_def GetSubsequenceIds_def)
  then show ?thesis
    unfolding tree_chart_def log_edges by (simp add: log_data_def new_chart_data_def)
qed

lemma log_visit: "visit (eval_node log_host False log_data 7 (nodes log_chart)) log_data 4 [0] []
    = Some ([0, 1, 2, 3, 4, 5], [''a'', ''b'', ''c'', ''no'', ''d''])"
  by code_simp

lemma log_start: "w_index log_world = 0" "cs_hist (w_cs log_world) = (\<lambda>_. [])" "w_env log_world = []"
    "w_stop_when_error log_world = False" "length (nodes log_chart) = 6" "game_object log_agent = 7"
  by (simp_all add: log_world_def new_manager_def empty_cstore_def log_chart_def log_data_def new_chart_data_def log_agent_def)

theorem flow_runs_depth_first_witness:
  "\<exists>w'. RunFlow log_host (NP 0 0) log_world = Some (True, w') \<and> w_env w' = [''a'', ''b'', ''c'', ''no'', ''d'']
     \<and> chart_stopped 0 w'"
  using flow_runs_depth_first [OF log_ready log_wf, of 4 "[0, 1, 2, 3, 4, 5]" "[''a'', ''b'', ''c'', ''no'', ''d'']"] log_visit
  by (auto simp: log_start MAX_STACK_SIZE_def MAX_NODES_PER_EXECUTION_def)

theorem tree_flow_returns_witness:
  "\<exists>w'. RunFlow log_host (NP 0 0) log_world = Some (True, w') \<and> chart_stopped 0 w'"
  using tree_flow_returns [OF log_ready log_wf _ _ log_tree]
  by (auto simp: log_start MAX_STACK_SIZE_def MAX_NODES_PER_EXECUTION_def)

end
