(* ===== verification/Json_Debugger.thy ===== *)
theory Json_Debugger
  imports Debugger Documents Base64
begin

text \<open>
  The protocol of the debugger (\<open>src/debug/json_debugger.cpp\<close>, \<open>src/debug/debugger.cpp\<close>) with the functions
  of the manager and the asynchronous manager it calls (\<open>src/core/manager.cpp\<close>, \<open>async_manager.cpp\<close>,
  \<open>node_func.cpp\<close>). A message is the document the JSON library parses or writes.
\<close>

section \<open>Lists of charts\<close>

record chart_info =
  ci_agent_id :: nat
  ci_owner_node_addr :: nat
  ci_owner_node_id :: int
  ci_owner_node_uid :: string
  ci_object_name :: string
  ci_chart_name :: string
  ci_owner_chart_name :: string
  ci_chart_uid :: string

definition ChartInfo :: chart_info where
  "ChartInfo = \<lparr>ci_agent_id = 2 ^ 64 - 1, ci_owner_node_addr = 2 ^ 64 - 1, ci_owner_node_id = - 1,
     ci_owner_node_uid = [], ci_object_name = [], ci_chart_name = [], ci_owner_chart_name = [], ci_chart_uid = []\<rparr>"

text \<open>\<open>std::string::find\<close> finds the text.\<close>

definition contains_text :: "string \<Rightarrow> string \<Rightarrow> bool" where
  "contains_text x s \<longleftrightarrow> list_ex (\<lambda>i. take (length x) (drop i s) = x) [0..<Suc (length s)]"

definition filtered :: "string \<Rightarrow> string \<Rightarrow> bool" where
  "filtered search name \<longleftrightarrow> search = [] \<or> contains_text search name"

definition addr_of :: "debug_env \<Rightarrow> nptr option \<Rightarrow> nat" where
  "addr_of E n = (case n of None \<Rightarrow> 0 | Some n \<Rightarrow> node_addr E n)"

definition chart_info_of :: "debug_env \<Rightarrow> agent \<Rightarrow> string \<Rightarrow> nat \<Rightarrow> 'e world \<Rightarrow> chart_info option" where
  "chart_info_of E ag name c w =
     do { ch \<leftarrow> w_charts w c;
          let ci = ChartInfo\<lparr>ci_agent_id := agent_id ag, ci_owner_node_addr := addr_of E (owner_node ch)\<rparr>;
          ci \<leftarrow> (case owner_node ch of
                  None \<Rightarrow> Some ci
                | Some n \<Rightarrow>
                    do { nd \<leftarrow> get_node n w;
                         d \<leftarrow> data_of n w;
                         owner_name \<leftarrow> Chart_Name (np_chart n) w;
                         Some (ci\<lparr>ci_owner_node_id := int (node_id nd), ci_owner_node_uid := node_uid d,
                                  ci_owner_chart_name := owner_name\<rparr>) });
          Some (ci\<lparr>ci_object_name := object_name E (game_object ag), ci_chart_name := name,
                   ci_chart_uid := chart_uid E c\<rparr>) }"

definition GetDebugChartList :: "debug_env \<Rightarrow> string \<Rightarrow> string \<Rightarrow> 'e world \<Rightarrow> chart_info list option" where
  "GetDebugChartList E obj_search chart_search w =
     map_option concat (mapM (\<lambda>(_, a).
       do { ag \<leftarrow> w_agents w a;
            if \<not> filtered obj_search (object_name E (game_object ag)) then Some []
            else map_option concat (mapM (\<lambda>(name, cs).
                   if \<not> filtered chart_search name then Some []
                   else mapM (\<lambda>c. chart_info_of E ag name c w) cs) (chart_dict ag)) })
     (w_agent_map w))"

definition GetChartsByName :: "string \<Rightarrow> 'e world \<Rightarrow> nat list option" where
  "GetChartsByName name w =
     map_option concat (mapM (\<lambda>(_, a).
       do { ag \<leftarrow> w_agents w a;
            Some (case map_of (chart_dict ag) name of None \<Rightarrow> [] | Some cs \<Rightarrow> cs) })
     (w_agent_map w))"

section \<open>Writing\<close>

definition Serialize_ChartInfo_Json :: "chart_info \<Rightarrow> json" where
  "Serialize_ChartInfo_Json ci =
     JObj [(''agent_id'', JInt (int (ci_agent_id ci))), (''owner_node_addr'', JInt (int (ci_owner_node_addr ci))),
       (''owner_node_id'', JInt (ci_owner_node_id ci)), (''owner_node_uid'', JStr (ci_owner_node_uid ci)),
       (''object_name'', JStr (ci_object_name ci)), (''chart_name'', JStr (ci_chart_name ci)),
       (''owner_chart_name'', JStr (ci_owner_chart_name ci)), (''graph_uid'', JStr (ci_chart_uid ci))]"

fun IsInt :: "json \<Rightarrow> bool" where
  "IsInt (JInt i) = (- (2 ^ 31) \<le> i \<and> i < 2 ^ 31)"
| "IsInt _ = False"

fun IsInt64 :: "json \<Rightarrow> bool" where
  "IsInt64 (JInt i) = (- (2 ^ 63) \<le> i \<and> i < 2 ^ 63)"
| "IsInt64 _ = False"

fun IsString :: "json \<Rightarrow> bool" where
  "IsString (JStr _) = True"
| "IsString _ = False"

text \<open>\<open>GetUint64\<close> of a negative number is an assertion that fails.\<close>

fun GetUint64 :: "json \<Rightarrow> nat option" where
  "GetUint64 (JInt i) = (if 0 \<le> i \<and> i < 2 ^ 64 then Some (nat i) else None)"
| "GetUint64 _ = None"

text \<open>\<open>if (obj.HasMember(k) && obj[k].IsT()) ci.f = obj[k].GetT()\<close>.\<close>

definition read_member ::
  "string \<Rightarrow> (json \<Rightarrow> bool) \<Rightarrow> (json \<Rightarrow> 'a option) \<Rightarrow> ('a \<Rightarrow> chart_info \<Rightarrow> chart_info) \<Rightarrow> json \<Rightarrow> chart_info
   \<Rightarrow> chart_info option" where
  "read_member k is_type get f obj ci =
     do { m \<leftarrow> FindMember k obj;
          case m of
            Some v \<Rightarrow> if is_type v then do { x \<leftarrow> get v; Some (f x ci) } else Some ci
          | None \<Rightarrow> Some ci }"

definition Deserialize_ChartInfo_Json :: "json \<Rightarrow> chart_info \<Rightarrow> chart_info option" where
  "Deserialize_ChartInfo_Json obj ci =
     do { ci \<leftarrow> read_member ''agent_id'' IsInt GetUint64 (\<lambda>x ci. ci\<lparr>ci_agent_id := x\<rparr>) obj ci;
          ci \<leftarrow> read_member ''owner_node_addr'' IsInt64 GetUint64 (\<lambda>x ci. ci\<lparr>ci_owner_node_addr := x\<rparr>) obj ci;
          ci \<leftarrow> read_member ''owner_node_id'' IsInt GetInt (\<lambda>x ci. ci\<lparr>ci_owner_node_id := x\<rparr>) obj ci;
          ci \<leftarrow> read_member ''owner_node_uid'' IsString GetString (\<lambda>x ci. ci\<lparr>ci_owner_node_uid := x\<rparr>) obj ci;
          ci \<leftarrow> read_member ''object_name'' IsString GetString (\<lambda>x ci. ci\<lparr>ci_object_name := x\<rparr>) obj ci;
          ci \<leftarrow> read_member ''chart_name'' IsString GetString (\<lambda>x ci. ci\<lparr>ci_chart_name := x\<rparr>) obj ci;
          read_member ''owner_chart_name'' IsString GetString (\<lambda>x ci. ci\<lparr>ci_owner_chart_name := x\<rparr>) obj ci }"

fun Serialize_Data_Json :: "int \<times> debug_data \<Rightarrow> json" where
  "Serialize_Data_Json (i, NodeStatusData n uid old new res) =
     JObj ([(''type'', JStr ''node_status''), (''id'', JInt i), (''node_id'', JInt (int n)), (''node_uid'', JStr uid),
       (''old_status'', JInt old), (''new_status'', JInt new)] @ (if new = 2 then [(''result'', JBool res)] else []))"
| "Serialize_Data_Json (i, NodeMessageData n uid msg) =
     JObj [(''type'', JStr ''node_message''), (''id'', JInt i), (''node_id'', JInt (int n)), (''node_uid'', JStr uid),
       (''message'', JStr msg)]"
| "Serialize_Data_Json (i, VariableStatusData name uid old new) =
     JObj [(''type'', JStr ''variable_status''), (''id'', JInt i), (''variable_name'', JStr name), (''node_uid'', JStr uid),
       (''old_value'', JStr old), (''new_value'', JStr new)]"
| "Serialize_Data_Json (i, EventStatusData name uid args argc) =
     JObj [(''type'', JStr ''event_status''), (''id'', JInt i), (''event_name'', JStr name), (''node_uid'', JStr uid),
       (''arg_count'', JInt argc), (''event_params'', JArr (map JStr (take (nat argc) args)))]"

definition id_member :: "int \<Rightarrow> (string \<times> json) list" where
  "id_member msg_id = (if msg_id \<noteq> - 1 then [(''id'', JInt msg_id)] else [])"

definition rpc :: "string \<Rightarrow> (string \<times> json) list \<Rightarrow> json" where
  "rpc method rest = JObj ([(''jsonrpc'', JStr ''2.0''), (''method'', JStr method)] @ rest)"

definition ErrorReply :: "int \<Rightarrow> string \<Rightarrow> int \<Rightarrow> json" where
  "ErrorReply error_code msg msg_id =
     JObj ([(''error'', JObj [(''code'', JInt error_code), (''message'', JStr msg)])] @ id_member msg_id)"

definition SimpleReply_list :: "string \<Rightarrow> string list \<Rightarrow> int \<Rightarrow> json" where
  "SimpleReply_list method xs msg_id = rpc method ([(''result'', JArr (map JStr xs))] @ id_member msg_id)"

definition SimpleReply_map :: "string \<Rightarrow> (string \<times> string) list \<Rightarrow> int \<Rightarrow> json" where
  "SimpleReply_map method kvs msg_id =
     rpc method ([(''result'', JObj (map (\<lambda>(k, v). (k, JStr v)) kvs))] @ id_member msg_id)"

definition StopMessage :: "string \<Rightarrow> json" where
  "StopMessage name = rpc ''stop_chart'' [(''params'', JObj [(''chart_name'', JStr name)])]"

definition HeartBeat :: json where
  "HeartBeat = rpc ''heart_beat'' []"

definition GenChartInfo :: "debug_env \<Rightarrow> nat \<Rightarrow> 'e world \<Rightarrow> json option" where
  "GenChartInfo E c w =
     do { ch \<leftarrow> w_charts w c;
          name \<leftarrow> Chart_Name c w;
          a \<leftarrow> chart_agent ch;
          ag \<leftarrow> w_agents w a;
          Some (rpc ''quick_debug'' [(''params'', JObj [(''chart_name'', JStr name),
            (''agent_id'', JInt (int (agent_id ag))), (''owner_node_addr'', JInt (int (addr_of E (owner_node ch))))])]) }"

definition edge_json :: "chart_data \<Rightarrow> node_data \<Rightarrow> nat \<Rightarrow> json option" where
  "edge_json d nd child =
     do { cd \<leftarrow> GetNodeData child d;
          Some (JObj [(''parent'', JStr (node_uid nd)), (''child'', JStr (node_uid cd))]) }"

definition ChartDataToJson :: "chart_data \<Rightarrow> json option" where
  "ChartDataToJson d =
     do { let ns = map (\<lambda>nd. JObj [(''uid'', JStr (node_uid nd)), (''text'', JStr (node_text nd))]) (node_list d);
          es \<leftarrow> mapM (\<lambda>nd. mapM (edge_json d nd) (GetSubsequenceIds False nd @ GetSubsequenceIds True nd)) (node_list d);
          Some (JObj [(''nodes'', JArr ns), (''edges'', JArr (concat es))]) }"

definition ChartInitData :: "string \<Rightarrow> chart_data \<Rightarrow> int \<Rightarrow> json option" where
  "ChartInitData method d msg_id =
     do { data \<leftarrow> ChartDataToJson d;
          Some (rpc method ([(''result'', JObj [(''chart_name'', JStr (chart_name d)), (''chart_data'', data)])]
            @ id_member msg_id)) }"

text \<open>The data of a chart; the empty text is \<open>None\<close>.\<close>

definition PrepareChartDebugData ::
  "debug_env \<Rightarrow> nat \<Rightarrow> 'e world \<Rightarrow> json debugger \<Rightarrow> (json option \<times> json debugger) option" where
  "PrepareChartDebugData E c w g =
     (let xs = debug_data_list (chart_debugs g c) in
      if xs = [] then Some (None, g)
      else do { ch \<leftarrow> w_charts w c;
                name \<leftarrow> Chart_Name c w;
                a \<leftarrow> chart_agent ch;
                _ \<leftarrow> w_agents w a;
                Some (Some (rpc ''debug_chart'' [(''params'', JObj [(''chart_name'', JStr name),
                    (''frame'', JInt (int (w_frame w))), (''time'', JInt (int (Now w))),
                    (''chart_uid'', JStr (chart_uid E c)), (''running_data'', JArr (map Serialize_Data_Json xs))])]),
                  upd_debug c ClearDebugData g) })"

definition GetChartList :: "debug_env \<Rightarrow> string \<Rightarrow> string \<Rightarrow> int \<Rightarrow> 'e world \<Rightarrow> json option" where
  "GetChartList E obj_search chart_search msg_id w =
     do { cis \<leftarrow> GetDebugChartList E chart_search obj_search w;
          Some (rpc ''get_chart_list'' ([(''result'', JObj [(''chart_info'', JArr (map Serialize_ChartInfo_Json cis))])]
            @ id_member msg_id)) }"

section \<open>Breakpoints\<close>

text \<open>The node data of a node: its chart data and its index.\<close>

definition data_key :: "nptr \<Rightarrow> 'e world \<Rightarrow> (nat \<times> nat) option" where
  "data_key n w = map_option (\<lambda>ch. (chart_data_ptr ch, np_index n)) (w_charts w (np_chart n))"

text \<open>\<open>AsyncManager::ContinueBreakpoint\<close> iterates over the list of waiting nodes. Activating the node under
  the iterator takes it out of that list, so that the next step of the loop reads an erased element.\<close>

fun continue_loop ::
  "(nptr \<Rightarrow> 'e world \<Rightarrow> bool) \<Rightarrow> (nptr \<Rightarrow> 'e world \<Rightarrow> 'm debugger \<Rightarrow> 'm debugger option) \<Rightarrow> nptr list
   \<Rightarrow> 'e world \<times> 'm debugger \<Rightarrow> ('e world \<times> 'm debugger) option" where
  "continue_loop meant set_execute [] s = Some s"
| "continue_loop meant set_execute (n # ns) (w, g) =
     (if meant n w
      then do { g \<leftarrow> set_execute n w g;
                w \<leftarrow> ActivateNode n False w;
                if n \<in> set (cs_await (w_cs w)) then continue_loop meant set_execute ns (w, g) else None }
      else continue_loop meant set_execute ns (w, g))"

definition ContinueBreakpoint_chart :: "nat \<Rightarrow> 'e world \<Rightarrow> 'm debugger \<Rightarrow> ('e world \<times> 'm debugger) option" where
  "ContinueBreakpoint_chart c w g =
     continue_loop (\<lambda>n w. np_chart n = c \<and> (case data_key n w of None \<Rightarrow> False | Some k \<Rightarrow> k \<in> break_points g))
       (\<lambda>n w g. do { k \<leftarrow> data_key n w;
                     Some (if breakpoint_funcs g k = None then g
                           else g\<lparr>breakpoint_funcs := (breakpoint_funcs g)(k \<mapsto> True)\<rparr>) })
       (cs_await (w_cs w)) (w, g)"

definition ContinueBreakpoint_data :: "nat \<times> nat \<Rightarrow> 'e world \<Rightarrow> 'm debugger \<Rightarrow> ('e world \<times> 'm debugger) option" where
  "ContinueBreakpoint_data k w g =
     continue_loop (\<lambda>n w. data_key n w = Some k) (\<lambda>n w g. Some g) (cs_await (w_cs w)) (w, g)"

text \<open>\<open>Manager::SetBreakpoint\<close> and \<open>DeleteBreakpoint\<close>.\<close>

definition SetBreakpoint :: "nat \<times> nat \<Rightarrow> 'm debugger \<Rightarrow> bool \<times> 'm debugger" where
  "SetBreakpoint k g =
     (if breakpoint_funcs g k \<noteq> None then (False, g)
      else (True, g\<lparr>breakpoint_funcs := (breakpoint_funcs g)(k \<mapsto> False)\<rparr>))"

definition DeleteBreakpoint ::
  "nat \<times> nat \<Rightarrow> 'e world \<Rightarrow> 'm debugger \<Rightarrow> (bool \<times> 'e world \<times> 'm debugger) option" where
  "DeleteBreakpoint k w g =
     (if breakpoint_funcs g k = None then Some (False, w, g)
      else map_option (Pair True)
             (ContinueBreakpoint_data k w (g\<lparr>breakpoint_funcs := (breakpoint_funcs g)(k := None)\<rparr>)))"

text \<open>\<open>BreakpointFunc::call\<close>; the original function may be a null pointer.\<close>

definition original_call ::
  "'e host \<Rightarrow> 'e knot \<Rightarrow> nat \<times> nat \<Rightarrow> nat \<Rightarrow> 'e world \<Rightarrow> (node_result \<times> 'e world) option" where
  "original_call H K k a w =
     do { d \<leftarrow> w_datas w (fst k);
          nd \<leftarrow> GetNodeData (snd k) d;
          f \<leftarrow> node_func nd;
          NodeFunc_call H K f a w }"

definition BreakpointFunc_call ::
  "'e host \<Rightarrow> 'e knot \<Rightarrow> nat \<times> nat \<Rightarrow> nat \<Rightarrow> 'e world \<Rightarrow> 'm debugger
   \<Rightarrow> (node_result \<times> 'e world \<times> 'm debugger) option" where
  "BreakpointFunc_call H K k a w g =
     do { continue_flag \<leftarrow> breakpoint_funcs g k;
          if continue_flag
          then do { let g = g\<lparr>breakpoint_funcs := (breakpoint_funcs g)(k \<mapsto> False)\<rparr>;
                    (r, w) \<leftarrow> original_call H K k a w;
                    Some (r, w, g) }
          else do { n \<leftarrow> GetCurrentNode w;
                    if \<not> IsDebug (np_chart n) g
                    then do { (r, w) \<leftarrow> original_call H K k a w; Some (r, w, g) }
                    else do { (w, g) \<leftarrow> debug_SetStatus Running n w g;
                              w \<leftarrow> AddNode n w;
                              Some (rTRUE, w, g) } } }"

section \<open>Finding a chart\<close>

fun to_string :: "nat \<Rightarrow> string" where
  "to_string n = (if n < 10 then [char_of (48 + n)] else to_string (n div 10) @ [char_of (48 + n mod 10)])"

declare to_string.simps [simp del]

record debug_chart_info =
  dci_agent_id :: nat
  dci_owner_node :: nat
  dci_chart :: "nat option"
  dci_chart_name :: string

text \<open>A missing member and a value of another type are failed assertions.\<close>

definition GetDebugChartInfoFromJson :: "json \<Rightarrow> debug_chart_info option" where
  "GetDebugChartInfoFromJson params =
     do { name \<leftarrow> member_value ''chart_name'' params; name \<leftarrow> GetString name;
          i \<leftarrow> member_value ''agent_id'' params; i \<leftarrow> GetUint64 i;
          x \<leftarrow> member_value ''owner_node_addr'' params; x \<leftarrow> GetUint64 x;
          Some \<lparr>dci_agent_id = i, dci_owner_node = x, dci_chart = None, dci_chart_name = name\<rparr> }"

primrec find_addr :: "debug_env \<Rightarrow> nat \<Rightarrow> nat list \<Rightarrow> 'e world \<Rightarrow> nat option option" where
  "find_addr E x [] w = Some None"
| "find_addr E x (c # cs) w =
     do { ch \<leftarrow> w_charts w c;
          if addr_of E (owner_node ch) = x then Some (Some c) else find_addr E x cs w }"

definition Debugger_FindChart ::
  "debug_env \<Rightarrow> debug_chart_info \<Rightarrow> 'e world \<Rightarrow> (string \<times> debug_chart_info) option" where
  "Debugger_FindChart E info w =
     (case map_of (w_agent_map w) (dci_agent_id info) of
        None \<Rightarrow> Some (''agent_id '' @ to_string (dci_agent_id info) @ '' not exist'', info)
      | Some a \<Rightarrow>
          do { ag \<leftarrow> w_agents w a;
               found \<leftarrow> (case map_of (chart_dict ag) (dci_chart_name info) of
                           None \<Rightarrow> Some None
                         | Some cs \<Rightarrow> find_addr E (dci_owner_node info) cs w);
               Some (case found of
                       None \<Rightarrow> (''chart_name '' @ dci_chart_name info @ '' does not exist'', info)
                     | Some c \<Rightarrow> ([], info\<lparr>dci_chart := Some c\<rparr>)) })"

section \<open>Handlers\<close>

text \<open>The state a handler works on; \<open>DebugConnection\<close> forwards to the websocket manager with the
  connection \<open>h\<close>.\<close>

definition Reply :: "debug_env \<Rightarrow> nat \<Rightarrow> json \<Rightarrow> 'e world \<times> json debugger \<Rightarrow> 'e world \<times> json debugger" where
  "Reply E h msg = (\<lambda>(w, g). (w, send E h msg g))"

text \<open>The two searches are passed in the wrong order twice.\<close>

definition GetChartListHandler ::
  "debug_env \<Rightarrow> nat \<Rightarrow> json \<Rightarrow> int \<Rightarrow> 'e world \<times> json debugger \<Rightarrow> ('e world \<times> json debugger) option" where
  "GetChartListHandler E h params msg_id s =
     do { name \<leftarrow> member_value ''chart_name'' params; name \<leftarrow> GetString name;
          obj_name \<leftarrow> member_value ''obj_name'' params; obj_name \<leftarrow> GetString obj_name;
          reply \<leftarrow> GetChartList E name obj_name msg_id (fst s);
          Some (Reply E h reply s) }"

definition DebugChartHandler ::
  "debug_env \<Rightarrow> nat \<Rightarrow> json \<Rightarrow> int \<Rightarrow> 'e world \<times> json debugger \<Rightarrow> ('e world \<times> json debugger) option" where
  "DebugChartHandler E h params msg_id s =
     do { info \<leftarrow> GetDebugChartInfoFromJson params;
          (msg, info) \<leftarrow> Debugger_FindChart E info (fst s);
          case dci_chart info of
            None \<Rightarrow> Some (Reply E h (ErrorReply (- 1) msg msg_id) s)
          | Some c \<Rightarrow>
              do { d \<leftarrow> chart_data_of c (fst s);
                   reply \<leftarrow> ChartInitData ''debug_chart'' d msg_id;
                   let (w, g) = Reply E h reply s;
                   g \<leftarrow> StartDebugChart c h w g;
                   Some (w, g) } }"

definition StopChartHandler ::
  "debug_env \<Rightarrow> nat \<Rightarrow> json \<Rightarrow> int \<Rightarrow> 'e world \<times> json debugger \<Rightarrow> ('e world \<times> json debugger) option" where
  "StopChartHandler E h params msg_id s =
     do { info \<leftarrow> GetDebugChartInfoFromJson params;
          (msg, info) \<leftarrow> Debugger_FindChart E info (fst s);
          case dci_chart info of
            None \<Rightarrow> Some (Reply E h (ErrorReply (- 1) msg msg_id) s)
          | Some c \<Rightarrow>
              (let (w, g) = Reply E h (SimpleReply_map ''stop_chart'' [(''chart_name'', dci_chart_name info)] msg_id) s
               in Some (w, StopDebugChart_hdl c h g)) }"

definition QuickDebugHandler ::
  "debug_env \<Rightarrow> nat \<Rightarrow> json \<Rightarrow> int \<Rightarrow> 'e world \<times> json debugger \<Rightarrow> ('e world \<times> json debugger) option" where
  "QuickDebugHandler E h params msg_id s =
     do { name \<leftarrow> member_value ''chart_name'' params; name \<leftarrow> GetString name;
          cs \<leftarrow> GetChartsByName name (fst s);
          case cs of
            c # _ \<Rightarrow>
              do { d \<leftarrow> chart_data_of c (fst s);
                   reply \<leftarrow> ChartInitData ''quick_debug'' d msg_id;
                   let s = Reply E h reply s;
                   info \<leftarrow> GenChartInfo E c (fst s);
                   let (w, g) = Reply E h info s;
                   g \<leftarrow> StartDebugChart c h w g;
                   Some (w, g) }
          | [] \<Rightarrow>
              (case GetChartData name (fst s) of
                 None \<Rightarrow> Some (Reply E h (ErrorReply (- 10) ''The chart is not exist in chart_data'' msg_id) s)
               | Some d \<Rightarrow>
                   do { let (w, g) = s;
                        g \<leftarrow> QuickDebugChart d h w g;
                        data \<leftarrow> w_datas w d;
                        reply \<leftarrow> ChartInitData ''quick_debug'' data msg_id;
                        Some (Reply E h reply (w, g)) }) }"

definition BreakPointHandler ::
  "debug_env \<Rightarrow> nat \<Rightarrow> json \<Rightarrow> int \<Rightarrow> 'e world \<times> json debugger \<Rightarrow> ('e world \<times> json debugger) option" where
  "BreakPointHandler E h params msg_id s =
     do { name \<leftarrow> member_value ''chart_name'' params; name \<leftarrow> GetString name;
          case GetChartData name (fst s) of
            None \<Rightarrow> Some (Reply E h (ErrorReply (- 10) ''The chart is not exist in chart_data'' msg_id) s)
          | Some d \<Rightarrow>
              do { uid \<leftarrow> member_value ''node_uid'' params; uid \<leftarrow> GetString uid;
                   data \<leftarrow> w_datas (fst s) d;
                   case GetNodeData_uid uid data of
                     None \<Rightarrow> Some (Reply E h (ErrorReply (- 4) ''The uid is not exist in chart_data'' msg_id) s)
                   | Some i \<Rightarrow>
                       do { command \<leftarrow> member_value ''command'' params; command \<leftarrow> GetString command;
                            let k = (d, i);
                            let reply = (\<lambda>x. SimpleReply_map ''break_point''
                                  [(''chart_name'', name), (''node_uid'', uid), (''command'', x)] msg_id);
                            if command = ''set''
                            then Some (Reply E h (reply ''set'')
                                   (if k \<in> break_points (snd s) then s
                                    else (fst s, snd (SetBreakpoint k ((snd s)\<lparr>break_points := insert k (break_points (snd s))\<rparr>)))))
                            else if command \<noteq> ''delete'' then None
                            else do { s \<leftarrow> (if k \<in> break_points (snd s)
                                           then map_option snd (DeleteBreakpoint k (fst s)
                                                  ((snd s)\<lparr>break_points := break_points (snd s) - {k}\<rparr>))
                                           else Some s);
                                      Some (Reply E h (reply ''delete'') s) } } } }"

definition ContinueHandler ::
  "debug_env \<Rightarrow> nat \<Rightarrow> json \<Rightarrow> int \<Rightarrow> 'e world \<times> json debugger \<Rightarrow> ('e world \<times> json debugger) option" where
  "ContinueHandler E h params msg_id s =
     do { info \<leftarrow> GetDebugChartInfoFromJson params;
          (msg, info) \<leftarrow> Debugger_FindChart E info (fst s);
          case dci_chart info of
            None \<Rightarrow> Some (Reply E h (ErrorReply (- 1) msg msg_id) s)
          | Some c \<Rightarrow>
              (let (w, g) = Reply E h (SimpleReply_map ''continue'' [(''chart_name'', dci_chart_name info)] msg_id) s
               in ContinueBreakpoint_chart c w g) }"

text \<open>\<open>PyManager::RunScript\<close>; \<open>source\<close> is the program a text stands for. Scripts run outside any flow.\<close>

definition RunScript ::
  "'e host \<Rightarrow> (string \<Rightarrow> 'e \<Rightarrow> 'e script) \<Rightarrow> string \<Rightarrow> 'e world \<Rightarrow> ((bool \<times> string list) \<times> 'e world) option" where
  "RunScript H source text' w =
     do { (r, w) \<leftarrow> run_script H (top_knot H) (source text' (w_env w)) w;
          Some ((case r of None \<Rightarrow> (False, [''run python script error'']) | Some v \<Rightarrow> (True, [h_str H v])), w) }"

definition GmHandler ::
  "'e host \<Rightarrow> (string \<Rightarrow> 'e \<Rightarrow> 'e script) \<Rightarrow> debug_env \<Rightarrow> nat \<Rightarrow> json \<Rightarrow> int \<Rightarrow> 'e world \<times> json debugger
   \<Rightarrow> ('e world \<times> json debugger) option" where
  "GmHandler H source E h params msg_id s =
     do { script \<leftarrow> member_value ''script'' params; script \<leftarrow> GetString script;
          ((ok, out), w) \<leftarrow> RunScript H source script (fst s);
          if ok then Some (Reply E h (SimpleReply_list ''gm'' out msg_id) (w, snd s))
          else if out = [] then None
          else Some (Reply E h (ErrorReply (- 10) (hd out) msg_id) (w, snd s)) }"

text \<open>A text that is no base64 makes the decoder throw; \<open>HandleMessage\<close> catches the exception.\<close>

definition HotFixHandler ::
  "'e host \<Rightarrow> (string \<Rightarrow> 'e \<Rightarrow> 'e script) \<Rightarrow> debug_env \<Rightarrow> nat \<Rightarrow> json \<Rightarrow> int \<Rightarrow> 'e world \<times> json debugger
   \<Rightarrow> ('e world \<times> json debugger) option" where
  "HotFixHandler H source E h params msg_id s =
     do { charts_func \<leftarrow> member_value ''charts_func'' params; charts_func \<leftarrow> GetString charts_func;
          case base64_decode charts_func False of
            Inl _ \<Rightarrow> Some s
          | Inr script \<Rightarrow>
              do { ((ok, _), w) \<leftarrow> RunScript H source script (fst s);
                   Some (Reply E h (if ok then SimpleReply_list ''hotfix'' [] msg_id
                                    else ErrorReply (- 15) ''run charts_func error'' msg_id) (w, snd s)) } }"

text \<open>\<open>HandleMessage\<close>; \<open>None\<close> stands for a text that is no JSON. The table of handlers is the chain of
  cases.\<close>

definition HandleMessage ::
  "'e host \<Rightarrow> (string \<Rightarrow> 'e \<Rightarrow> 'e script) \<Rightarrow> debug_env \<Rightarrow> nat \<Rightarrow> json option \<Rightarrow> 'e world \<times> json debugger
   \<Rightarrow> ('e world \<times> json debugger) option" where
  "HandleMessage H source E h msg s =
     (case msg of
        None \<Rightarrow> Some s
      | Some doc \<Rightarrow>
          do { rpc_member \<leftarrow> FindMember ''jsonrpc'' doc;
               if rpc_member = None then Some s
               else do {
                 id_value \<leftarrow> FindMember ''id'' doc;
                 msg_id \<leftarrow> (case id_value of None \<Rightarrow> Some (- 1) | Some v \<Rightarrow> GetInt v);
                 method \<leftarrow> member_value ''method'' doc; method \<leftarrow> GetString method;
                 let handle = (\<lambda>f. do { params \<leftarrow> member_value ''params'' doc;
                                        case params of JObj _ \<Rightarrow> f params msg_id s | _ \<Rightarrow> None });
                 if method = ''get_chart_list'' then handle (GetChartListHandler E h)
                 else if method = ''debug_chart'' then handle (DebugChartHandler E h)
                 else if method = ''stop_chart'' then handle (StopChartHandler E h)
                 else if method = ''quick_debug'' then handle (QuickDebugHandler E h)
                 else if method = ''break_point'' then handle (BreakPointHandler E h)
                 else if method = ''continue'' then handle (ContinueHandler E h)
                 else if method = ''gm'' then handle (GmHandler H source E h)
                 else if method = ''hotfix'' then handle (HotFixHandler H source E h)
                 else Some (Reply E h (ErrorReply (- 32601) (''method '' @ method @ '' not find'') msg_id) s) } })"

section \<open>Hooks of charts\<close>

text \<open>\<open>Agent::StartChart\<close> with the flag of the chart data, the end of \<open>DfsExecutor::RunFlow\<close>, \<open>~Chart\<close> and
  \<open>Manager::Step\<close>.\<close>

definition start_hook :: "debug_env \<Rightarrow> nat \<Rightarrow> 'e world \<Rightarrow> json debugger \<Rightarrow> json debugger option" where
  "start_hook E c w g =
     do { ch \<leftarrow> w_charts w c;
          if chart_data_ptr ch \<in> quick_debug g
          then do { g \<leftarrow> StartQuickDebug E (GenChartInfo E) c w g;
                    Some (g\<lparr>quick_debug := quick_debug g - {chart_data_ptr ch}\<rparr>) }
          else Some g }"

definition stop_hook :: "debug_env \<Rightarrow> nat \<Rightarrow> 'e world \<Rightarrow> json debugger \<Rightarrow> json debugger option" where
  "stop_hook E c w g =
     do { ch \<leftarrow> w_charts w c;
          if (case owner_node ch of None \<Rightarrow> IsDebug c g | Some n \<Rightarrow> \<not> IsDebug (np_chart n) g)
          then StopDebugChart E (PrepareChartDebugData E) StopMessage c w g
          else Some g }"

definition delete_hook :: "debug_env \<Rightarrow> nat \<Rightarrow> 'e world \<Rightarrow> json debugger \<Rightarrow> json debugger option" where
  "delete_hook E c w g =
     do { ch \<leftarrow> w_charts w c;
          g \<leftarrow> (if IsDebug c g \<and> chart_agent ch \<noteq> None
                then StopDebugChart E (PrepareChartDebugData E) StopMessage c w g else Some g);
          Some (upd_debug c ClearDebugData g) }"

text \<open>The text sent for a chart without data cannot occur here: \<open>Step\<close> skips such charts.\<close>

definition step_hook :: "debug_env \<Rightarrow> 'e world \<Rightarrow> json debugger \<Rightarrow> json debugger option" where
  "step_hook E = WebsocketManager_Step E (PrepareChartDebugData E) (JStr [])"

end
