(* ===== verification/Debugger_Props.thy ===== *)
theory Debugger_Props
  imports Json_Debugger
begin

text \<open>
  Properties of the debugger: which charts are followed, the round trip of the description of a chart,
  and what continuing from a breakpoint does.
\<close>

section \<open>Following charts\<close>

text \<open>A chart is in debug mode exactly when it is followed; no chart is followed by no connection or by
  one twice.\<close>

definition conns_ok :: "('k \<times> nat list) list \<Rightarrow> bool" where
  "conns_ok kvs \<longleftrightarrow> (\<forall>k hdls. map_of kvs k = Some hdls \<longrightarrow> hdls \<noteq> [] \<and> distinct hdls)"

definition follow_inv :: "'m debugger \<Rightarrow> bool" where
  "follow_inv g \<longleftrightarrow> conns_ok (chart_map g) \<and> conns_ok (quick_debug_map g)
     \<and> (\<forall>c. IsDebug c g \<longleftrightarrow> map_of (chart_map g) c \<noteq> None)"

lemma upd_debug_sel [simp]:
  "chart_map (upd_debug c f g) = chart_map g" "quick_debug_map (upd_debug c f g) = quick_debug_map g"
  "outbox (upd_debug c f g) = outbox g" "chart_debugs (upd_debug c f g) = (chart_debugs g)(c := f (chart_debugs g c))"
  by (simp_all add: upd_debug_def)

lemma follow_new: "follow_inv new_debugger"
  by (simp add: follow_inv_def conns_ok_def new_debugger_def IsDebug_def new_chart_debug_def)

lemma conns_okI: "(\<And>k hdls. map_of kvs k = Some hdls \<Longrightarrow> hdls \<noteq> [] \<and> distinct hdls) \<Longrightarrow> conns_ok kvs"
  unfolding conns_ok_def by blast

lemma conns_okD: "conns_ok kvs \<Longrightarrow> map_of kvs k = Some hdls \<Longrightarrow> hdls \<noteq> [] \<and> distinct hdls"
  unfolding conns_ok_def by blast

lemma map_of_delete: "map_of (AList.delete k kvs) l = (if l = k then None else map_of kvs l)"
  by (simp add: delete_conv')

lemma map_of_update: "map_of (AList.update k x kvs) l = (if l = k then Some x else map_of kvs l)"
  by (simp add: update_conv')

lemma conns_ok_update: "conns_ok kvs \<Longrightarrow> hdls \<noteq> [] \<Longrightarrow> distinct hdls \<Longrightarrow> conns_ok (AList.update k hdls kvs)"
  by (rule conns_okI) (auto simp: map_of_update dest: conns_okD split: if_splits)

lemma conns_ok_delete: "conns_ok kvs \<Longrightarrow> conns_ok (AList.delete k kvs)"
  by (rule conns_okI) (auto simp: map_of_delete dest: conns_okD split: if_splits)

lemma conns_ok_delete_update: "conns_ok kvs \<Longrightarrow> conns_ok (AList.delete k (AList.update k x kvs))"
  by (rule conns_okI) (auto simp: map_of_delete map_of_update dest: conns_okD split: if_splits)

lemma hdls_distinct: "follow_inv g \<Longrightarrow> distinct (hdls_of c g)"
  unfolding follow_inv_def hdls_of_def by (auto dest: conns_okD split: option.splits)

text \<open>Operations that leave the maps and the modes alone.\<close>

definition quiet :: "'m debugger \<Rightarrow> 'm debugger \<Rightarrow> bool" where
  "quiet g g' \<longleftrightarrow> chart_map g' = chart_map g \<and> quick_debug_map g' = quick_debug_map g
     \<and> (\<forall>c. IsDebug c g' = IsDebug c g)"

lemma quiet_follow: "quiet g g' \<Longrightarrow> follow_inv g \<Longrightarrow> follow_inv g'"
  by (simp add: quiet_def follow_inv_def)

lemma quiet_refl [simp]: "quiet g g"
  by (simp add: quiet_def)

lemma dbg_quiet_trans: "quiet g g' \<Longrightarrow> quiet g' g'' \<Longrightarrow> quiet g g''"
  by (simp add: quiet_def)

lemma quiet_send [simp]: "quiet g (send E h msg g)"
  by (simp add: quiet_def send_def IsDebug_def)

lemma quiet_data: "(\<And>cd. in_debug (f cd) = in_debug cd) \<Longrightarrow> quiet g (upd_debug c f g)"
  by (simp add: quiet_def upd_debug_def IsDebug_def)

lemma in_debug_push [simp]: "in_debug (push_data x cd) = in_debug cd"
  by (simp add: push_data_def)

lemma in_debug_clear [simp]: "in_debug (ClearDebugData cd) = in_debug cd"
  by (simp add: ClearDebugData_def)

lemma in_debug_status [simp]: "in_debug (SendNodeStatus i uid old new res cd) = in_debug cd"
  by (simp add: SendNodeStatus_def)

lemma quiet_foldl: "(\<And>g x. quiet g (f g x)) \<Longrightarrow> quiet g (foldl f g xs)"
  by (induction xs arbitrary: g) (auto intro: dbg_quiet_trans)

lemma foldl_inv: "P s \<Longrightarrow> (\<And>s x. P s \<Longrightarrow> P (f s x)) \<Longrightarrow> P (foldl f s xs)"
  by (induction xs arbitrary: s) auto

lemma quiet_foldM:
  assumes f: "\<And>x g g'. f x g = Some g' \<Longrightarrow> quiet g g'"
  shows "foldM f xs g = Some g' \<Longrightarrow> quiet g g'"
proof (induction xs arbitrary: g)
  case (Cons x xs)
  then obtain g1 where "f x g = Some g1" "foldM f xs g1 = Some g'" by (auto elim: bind_SomeE)
  with Cons.IH f show ?case by (blast intro: dbg_quiet_trans)
qed simp

lemma quiet_counts: "SendAllNodeCount c w g = Some g' \<Longrightarrow> quiet g g'"
  by (auto simp: SendAllNodeCount_def elim!: bind_SomeE intro!: quiet_foldl quiet_data)

lemma follow_start:
  assumes "follow_inv g" "conns_ok (AList.update c hdls (chart_map g))"
  shows "follow_inv (upd_debug c chart_StartDebug (g\<lparr>chart_map := AList.update c hdls (chart_map g)\<rparr>))"
  using assms by (simp add: follow_inv_def upd_debug_def IsDebug_def chart_StartDebug_def map_of_update)

lemma follow_stop:
  assumes "follow_inv g"
  shows "follow_inv ((upd_debug c chart_StopDebug g)\<lparr>chart_map := AList.delete c (chart_map g)\<rparr>)"
  using assms by (simp add: follow_inv_def upd_debug_def IsDebug_def chart_StopDebug_def ClearDebugData_def
      map_of_delete conns_ok_delete)

lemma follow_stop_updated:
  assumes "follow_inv g"
  shows "follow_inv ((upd_debug c chart_StopDebug (g\<lparr>chart_map := AList.update c hdls (chart_map g)\<rparr>))
    \<lparr>chart_map := AList.delete c (AList.update c hdls (chart_map g))\<rparr>)"
  using assms by (simp add: follow_inv_def upd_debug_def IsDebug_def chart_StopDebug_def ClearDebugData_def
      map_of_delete map_of_update conns_ok_delete_update)

lemma follow_update:
  assumes "follow_inv g" "map_of (chart_map g) c \<noteq> None" "hdls \<noteq> []" "distinct hdls"
  shows "follow_inv (g\<lparr>chart_map := AList.update c hdls (chart_map g)\<rparr>)"
  using assms by (auto simp: follow_inv_def IsDebug_def map_of_update conns_ok_update)

lemma StartDebugChart_follow:
  assumes "StartDebugChart c h w g = Some g'" "follow_inv g"
  shows "follow_inv g'"
proof (cases "h \<in> set (hdls_of c g)")
  case False
  let ?hdls = "hdls_of c g @ [h]"
  let ?g = "upd_debug c chart_StartDebug (g\<lparr>chart_map := AList.update c ?hdls (chart_map g)\<rparr>)"
  from assms(1) False obtain g1 and ch :: chart where "SendAllNodeCount c w ?g = Some g1"
    "foldM (\<lambda>i g. if status (nodes ch ! i) = Running
       then do { d \<leftarrow> data_of (NP c i) w; Some (upd_debug c (SendNodeStatus (data_id d) (node_uid d) 0 1 True) g) }
       else Some g) [0..<length (nodes ch)] g1 = Some g'"
    by (auto simp: StartDebugChart_def Let_def elim!: bind_SomeE)
  note run = this
  have "quiet g1 g'"
    by (rule quiet_foldM [OF _ run(2)]) (auto elim!: bind_SomeE intro!: quiet_data split: if_splits)
  with quiet_counts [OF run(1)] have "quiet ?g g'" by (rule dbg_quiet_trans)
  moreover have "follow_inv ?g"
    using assms(2) False hdls_distinct [OF assms(2), of c]
    by (intro follow_start conns_ok_update) (auto simp: follow_inv_def)
  ultimately show ?thesis by (rule quiet_follow)
qed (use assms in \<open>simp add: StartDebugChart_def\<close>)

lemma QuickDebugChart_follow:
  assumes "QuickDebugChart d h w g = Some g'" "follow_inv g"
  shows "follow_inv g'"
proof -
  obtain data :: chart_data where "w_datas w d = Some data"
    using assms(1) by (auto simp: QuickDebugChart_def elim!: bind_SomeE)
  then obtain name where "g' = g \<or> (h \<notin> set (quick_hdls name g)
      \<and> g' = g\<lparr>quick_debug_map := AList.update name (quick_hdls name g @ [h]) (quick_debug_map g),
           quick_debug := insert d (quick_debug g)\<rparr>)"
    using assms(1) that [of "chart_name data"] by (auto simp: QuickDebugChart_def Let_def split: if_splits)
  moreover have "distinct (quick_hdls name g)"
    using assms(2) unfolding follow_inv_def quick_hdls_def by (auto dest: conns_okD split: option.splits)
  ultimately show ?thesis using assms(2) by (auto simp: follow_inv_def IsDebug_def conns_ok_update)
qed

lemma StopDebugChart_hdl_follow: "follow_inv g \<Longrightarrow> follow_inv (StopDebugChart_hdl c h g)"
  using hdls_distinct [of g c]
  by (auto simp: StopDebugChart_hdl_def Let_def RemoveHdl_def follow_stop distinct_remove1
      intro!: follow_update) (auto simp: hdls_of_def split: option.splits)

lemma quick_send_follow: "follow_inv g \<Longrightarrow> follow_inv (quick_send E c msg h g)"
proof -
  assume g: "follow_inv g"
  show ?thesis
  proof (cases "conn_open E h")
    case True
    then show ?thesis using quiet_follow [OF quiet_send g] by (simp add: quick_send_def)
  next
    case False
    let ?hdls = "RemoveHdl (hdls_of c g) h"
    show ?thesis
    proof (cases "?hdls = []")
      case True
      with False g show ?thesis
        by (simp add: quick_send_def follow_stop_updated)
    next
      case nonempty: False
      then have "map_of (chart_map g) c \<noteq> None" by (auto simp: hdls_of_def RemoveHdl_def split: option.splits)
      with False nonempty g show ?thesis
        using follow_update [of g c ?hdls] hdls_distinct [OF g] by (simp add: quick_send_def RemoveHdl_def distinct_remove1)
    qed
  qed
qed

lemma StartQuickDebug_follow:
  assumes "StartQuickDebug E Info c w g = Some g'" "follow_inv g"
  shows "follow_inv g'"
proof -
  obtain name where name: "Chart_Name c w = Some name" using assms(1) by (auto simp: StartQuickDebug_def elim!: bind_SomeE)
  show ?thesis
  proof (cases "map_of (quick_debug_map g) name")
    case None
    with assms name show ?thesis by (simp add: StartQuickDebug_def)
  next
    case (Some hdls)
    let ?g = "if map_of (chart_map g) c = None
      then (upd_debug c chart_StartDebug g)\<lparr>chart_map := AList.update c hdls (chart_map g)\<rparr>
      else upd_debug c chart_StartDebug g"
    obtain msg where g': "g' = (foldl (\<lambda>g h. quick_send E c msg h g) ?g hdls)\<lparr>quick_debug_map :=
        AList.delete name (quick_debug_map (foldl (\<lambda>g h. quick_send E c msg h g) ?g hdls))\<rparr>"
      using assms(1) name Some
      by (cases "map_of (chart_map g) c = None") (auto simp: StartQuickDebug_def Let_def elim!: bind_SomeE)
    have "hdls \<noteq> [] \<and> distinct hdls" using assms(2) conns_okD [OF _ Some] by (simp add: follow_inv_def)
    then have "follow_inv ?g" using assms(2)
      by (auto simp: follow_inv_def upd_debug_def IsDebug_def chart_StartDebug_def map_of_update intro: conns_ok_update)
    then have "follow_inv (foldl (\<lambda>g h. quick_send E c msg h g) ?g hdls)"
      by (rule foldl_inv) (rule quick_send_follow)
    then show ?thesis unfolding g' by (simp add: follow_inv_def IsDebug_def conns_ok_delete)
  qed
qed

lemma PrepareChartDebugData_quiet: "PrepareChartDebugData E c w g = Some (x, g') \<Longrightarrow> quiet g g'"
  by (auto simp: PrepareChartDebugData_def Let_def elim!: bind_SomeE split: if_splits intro!: quiet_data)

lemma SendStopData_quiet: "quiet g (SendStopData E data stop hdls g)"
  unfolding SendStopData_def
  by (rule quiet_foldl) (cases data, simp_all, blast intro: dbg_quiet_trans quiet_send)

lemma StopDebugChart_follow:
  assumes "StopDebugChart E (PrepareChartDebugData E) Stop c w g = Some g'" "follow_inv g"
  shows "follow_inv g'"
proof (cases "map_of (chart_map g) c")
  case None
  with assms(1) have "g' = upd_debug c chart_StopDebug g" by (simp add: StopDebugChart_def)
  with assms(2) None show ?thesis
    by (simp add: follow_inv_def upd_debug_def IsDebug_def chart_StopDebug_def ClearDebugData_def)
next
  case (Some hdls)
  with assms(1) obtain x g1 name where g1:
    "(if debug_data_list (chart_debugs g c) = [] then Some (None, g) else PrepareChartDebugData E c w g) = Some (x, g1)"
    and g': "g' = (upd_debug c chart_StopDebug (SendStopData E x (Stop name) hdls g1))
        \<lparr>chart_map := AList.delete c (chart_map (SendStopData E x (Stop name) hdls g1))\<rparr>"
    by (auto simp: StopDebugChart_def Let_def elim!: bind_SomeE)
  have "quiet g g1" using g1 by (auto dest: PrepareChartDebugData_quiet split: if_splits)
  then have "follow_inv (SendStopData E x (Stop name) hdls g1)"
    using assms(2) by (meson SendStopData_quiet quiet_follow)
  then show ?thesis unfolding g' by (rule follow_stop)
qed

lemma WebsocketManager_Step_follow:
  assumes "WebsocketManager_Step E (PrepareChartDebugData E) x w g = Some g'" "follow_inv g"
  shows "follow_inv g'"
proof -
  let ?f = "\<lambda>(c, hdls) g. if debug_data_list (chart_debugs g c) = [] then Some g
      else do { (msg, g) \<leftarrow> PrepareChartDebugData E c w g;
                Some (foldl (\<lambda>g h. send E h (case msg of None \<Rightarrow> x | Some x \<Rightarrow> x) g) g hdls) }"
  have "quiet g1 g2" if "?f y g1 = Some g2" for y g1 g2
  proof -
    obtain c hdls where y: "y = (c, hdls)" by fastforce
    show ?thesis
    proof (cases "debug_data_list (chart_debugs g1 c) = []")
      case False
      with that y obtain msg g0 where "PrepareChartDebugData E c w g1 = Some (msg, g0)"
        "g2 = foldl (\<lambda>g h. send E h (case msg of None \<Rightarrow> x | Some x \<Rightarrow> x) g) g0 hdls"
        by (auto elim!: bind_SomeE)
      then show ?thesis by (metis (no_types, lifting) PrepareChartDebugData_quiet quiet_foldl quiet_send dbg_quiet_trans)
    qed (use that y in simp)
  qed
  then have "quiet g g'"
    using assms(1) unfolding WebsocketManager_Step_def by (rule quiet_foldM)
  then show ?thesis using assms(2) by (rule quiet_follow)
qed

section \<open>Messages\<close>

lemma quiet_fields [simp]:
  "quiet g (g\<lparr>breakpoint_funcs := x\<rparr>)" "quiet g (g\<lparr>break_points := y\<rparr>)" "quiet g (g\<lparr>quick_debug := z\<rparr>)"
  by (simp_all add: quiet_def IsDebug_def)

lemma Reply_quiet: "quiet (snd s) (snd (Reply E h msg s))"
  by (simp add: Reply_def split: prod.splits)

lemma Reply_follow: "follow_inv (snd s) \<Longrightarrow> follow_inv (snd (Reply E h msg s))"
  by (rule quiet_follow [OF Reply_quiet])

lemma continue_loop_quiet:
  assumes "\<And>n w g g'. f n w g = Some g' \<Longrightarrow> quiet g g'"
  shows "continue_loop meant f ns s = Some s' \<Longrightarrow> quiet (snd s) (snd s')"
proof (induction ns arbitrary: s)
  case (Cons n ns)
  obtain w g where s: "s = (w, g)" by fastforce
  show ?case
  proof (cases "meant n w")
    case True
    with Cons.prems s obtain g1 w1 where run: "f n w g = Some g1" "continue_loop meant f ns (w1, g1) = Some s'"
      by (auto elim!: bind_SomeE split: if_splits)
    have "quiet g g1" "quiet g1 (snd s')" using assms [OF run(1)] Cons.IH [OF run(2)] by simp_all
    then show ?thesis using s by (simp add: dbg_quiet_trans [of g g1])
  next
    case False
    with Cons.prems s have "continue_loop meant f ns s = Some s'" by simp
    then show ?thesis by (rule Cons.IH)
  qed
qed simp

lemma ContinueBreakpoint_quiet:
  "ContinueBreakpoint_chart c w g = Some s \<Longrightarrow> quiet g (snd s)"
  "ContinueBreakpoint_data k w g = Some s \<Longrightarrow> quiet g (snd s)"
  unfolding ContinueBreakpoint_chart_def ContinueBreakpoint_data_def
  by (drule continue_loop_quiet [rotated]; auto elim!: bind_SomeE)+

lemma SetBreakpoint_quiet: "quiet g (snd (SetBreakpoint k g))"
  by (simp add: SetBreakpoint_def)

lemma DeleteBreakpoint_quiet: "DeleteBreakpoint k w g = Some (b, s) \<Longrightarrow> quiet g (snd s)"
  by (auto simp: DeleteBreakpoint_def split: if_splits dest!: ContinueBreakpoint_quiet(2) intro: dbg_quiet_trans [OF quiet_fields(1)])

lemma follow_pair: "Reply E h msg s = (w, g) \<Longrightarrow> follow_inv (snd s) \<Longrightarrow> follow_inv g"
  by (metis Reply_follow snd_conv)

lemma GetChartListHandler_follow:
  "GetChartListHandler E h params i s = Some s' \<Longrightarrow> follow_inv (snd s) \<Longrightarrow> follow_inv (snd s')"
  by (auto simp: GetChartListHandler_def elim!: bind_SomeE intro!: Reply_follow)

lemma DebugChartHandler_follow:
  "DebugChartHandler E h params i s = Some s' \<Longrightarrow> follow_inv (snd s) \<Longrightarrow> follow_inv (snd s')"
  by (auto simp: DebugChartHandler_def elim!: bind_SomeE split: option.splits prod.splits
      intro!: Reply_follow dest!: follow_pair)
    (rule StartDebugChart_follow, assumption+)

lemma StopChartHandler_follow:
  "StopChartHandler E h params i s = Some s' \<Longrightarrow> follow_inv (snd s) \<Longrightarrow> follow_inv (snd s')"
  by (auto simp: StopChartHandler_def elim!: bind_SomeE split: option.splits prod.splits
      intro!: Reply_follow dest!: follow_pair)
    (rule StopDebugChart_hdl_follow, assumption)

lemma QuickDebugHandler_follow:
  assumes "QuickDebugHandler E h params i s = Some s'" "follow_inv (snd s)"
  shows "follow_inv (snd s')"
proof -
  obtain w g where s: "s = (w, g)" by fastforce
  from assms(1) obtain v name cs where n: "member_value ''chart_name'' params = Some v" "GetString v = Some name"
    "GetChartsByName name (fst s) = Some cs"
    by (auto simp: QuickDebugHandler_def elim!: bind_SomeE)
  show ?thesis
  proof (cases cs)
    case Nil
    show ?thesis
    proof (cases "GetChartData name w")
      case None
      with assms n Nil s show ?thesis by (auto simp: QuickDebugHandler_def intro!: Reply_follow)
    next
      case (Some d)
      with assms(1) n Nil s obtain g1 reply where "QuickDebugChart d h w g = Some g1" "s' = Reply E h reply (w, g1)"
        by (auto simp: QuickDebugHandler_def elim!: bind_SomeE)
      then show ?thesis using QuickDebugChart_follow assms(2) s by (metis Reply_follow snd_conv)
    qed
  next
    case (Cons c cs')
    with assms(1) n s obtain reply info w1 g1 g2 where "Reply E h info (Reply E h reply s) = (w1, g1)"
      "StartDebugChart c h w1 g1 = Some g2" "s' = (w1, g2)"
      by (auto simp: QuickDebugHandler_def Let_def elim!: bind_SomeE split: prod.splits)
    then show ?thesis using assms(2) by (metis Reply_follow StartDebugChart_follow follow_pair snd_conv)
  qed
qed

lemma breakpoint_follow [simp]:
  "follow_inv (g\<lparr>break_points := x\<rparr>) = follow_inv g" "follow_inv (snd (SetBreakpoint k g)) = follow_inv g"
  by (simp_all add: follow_inv_def IsDebug_def SetBreakpoint_def)

lemma DeleteBreakpoint_follow: "DeleteBreakpoint k w g = Some (b, w', g') \<Longrightarrow> follow_inv g \<Longrightarrow> follow_inv g'"
  using quiet_follow [OF DeleteBreakpoint_quiet] by fastforce

lemma BreakPointHandler_follow:
  assumes "BreakPointHandler E h params i s = Some s'" "follow_inv (snd s)"
  shows "follow_inv (snd s')"
proof -
  obtain w g where s: "s = (w, g)" by fastforce
  with assms show ?thesis
    unfolding BreakPointHandler_def Let_def
    by (auto elim!: bind_SomeE split: option.splits if_splits intro!: Reply_follow)
      (drule DeleteBreakpoint_follow, simp_all)
qed

lemma ContinueHandler_follow:
  "ContinueHandler E h params i s = Some s' \<Longrightarrow> follow_inv (snd s) \<Longrightarrow> follow_inv (snd s')"
  by (auto simp: ContinueHandler_def elim!: bind_SomeE split: option.splits prod.splits
      intro!: Reply_follow dest!: follow_pair ContinueBreakpoint_quiet(1)) (erule quiet_follow, assumption)

lemma GmHandler_follow:
  "GmHandler H source E h params i s = Some s' \<Longrightarrow> follow_inv (snd s) \<Longrightarrow> follow_inv (snd s')"
  by (auto simp: GmHandler_def elim!: bind_SomeE split: if_splits intro!: Reply_follow)

lemma HotFixHandler_follow:
  "HotFixHandler H source E h params i s = Some s' \<Longrightarrow> follow_inv (snd s) \<Longrightarrow> follow_inv (snd s')"
  by (auto simp: HotFixHandler_def elim!: bind_SomeE split: if_splits sum.splits intro!: Reply_follow)

lemmas handler_follow = GetChartListHandler_follow DebugChartHandler_follow StopChartHandler_follow
  QuickDebugHandler_follow BreakPointHandler_follow ContinueHandler_follow GmHandler_follow HotFixHandler_follow

lemma HandleMessage_follow:
  assumes "HandleMessage H source E h msg s = Some s'" "follow_inv (snd s)"
  shows "follow_inv (snd s')"
proof -
  have "s' = s \<or> (\<exists>m. s' = Reply E h m s) \<or> (\<exists>params i. GetChartListHandler E h params i s = Some s'
      \<or> DebugChartHandler E h params i s = Some s' \<or> StopChartHandler E h params i s = Some s'
      \<or> QuickDebugHandler E h params i s = Some s' \<or> BreakPointHandler E h params i s = Some s'
      \<or> ContinueHandler E h params i s = Some s' \<or> GmHandler H source E h params i s = Some s'
      \<or> HotFixHandler H source E h params i s = Some s')"
    using assms(1) unfolding HandleMessage_def Let_def
    by (auto elim!: bind_SomeE split: option.splits if_splits json.splits) (rule exI, rule refl)+
  with assms(2) show ?thesis
    by (elim disjE exE) (simp_all add: Reply_follow, (erule handler_follow, assumption)+)
qed

section \<open>Reachable debuggers\<close>

text \<open>A message arrives, the engine moves, a chart collects data, runs into a breakpoint, starts, ends or is
  destroyed, or the manager makes a step.\<close>

inductive debug_step ::
  "'e host \<Rightarrow> (string \<Rightarrow> 'e \<Rightarrow> 'e script) \<Rightarrow> debug_env \<Rightarrow> 'e world \<times> json debugger \<Rightarrow> 'e world \<times> json debugger \<Rightarrow> bool"
  for H source E where
  message: "HandleMessage H source E h msg s = Some s' \<Longrightarrow> debug_step H source E s s'"
| engine: "debug_step H source E (w, g) (w', g)"
| data: "debug_step H source E (w, g) (w, upd_debug c (push_data x) g)"
| breakpoint: "BreakpointFunc_call H K k a w g = Some (r, w', g') \<Longrightarrow> debug_step H source E (w, g) (w', g')"
| chart_start: "start_hook E c w g = Some g' \<Longrightarrow> debug_step H source E (w, g) (w, g')"
| chart_end: "stop_hook E c w g = Some g' \<Longrightarrow> debug_step H source E (w, g) (w, g')"
| chart_delete: "delete_hook E c w g = Some g' \<Longrightarrow> debug_step H source E (w, g) (w, g')"
| manager_step: "step_hook E w g = Some g' \<Longrightarrow> debug_step H source E (w, g) (w, g')"

inductive debug_reachable ::
  "'e host \<Rightarrow> (string \<Rightarrow> 'e \<Rightarrow> 'e script) \<Rightarrow> debug_env \<Rightarrow> 'e world \<times> json debugger \<Rightarrow> bool"
  for H source E where
  new: "debug_reachable H source E (w, new_debugger)"
| step: "debug_reachable H source E s \<Longrightarrow> debug_step H source E s s' \<Longrightarrow> debug_reachable H source E s'"

lemma debug_SetStatus_quiet: "debug_SetStatus x n w g = Some (w', g') \<Longrightarrow> quiet g g'"
  by (auto simp: debug_SetStatus_def elim!: bind_SomeE split: if_splits intro!: quiet_data)

lemma BreakpointFunc_call_quiet: "BreakpointFunc_call H K k a w g = Some (r, w', g') \<Longrightarrow> quiet g g'"
  by (auto simp: BreakpointFunc_call_def Let_def elim!: bind_SomeE split: if_splits) (drule debug_SetStatus_quiet, assumption)

lemma hooks_follow:
  "start_hook E c w g = Some g' \<Longrightarrow> follow_inv g \<Longrightarrow> follow_inv g'"
  "stop_hook E c w g = Some g' \<Longrightarrow> follow_inv g \<Longrightarrow> follow_inv g'"
  "delete_hook E c w g = Some g' \<Longrightarrow> follow_inv g \<Longrightarrow> follow_inv g'"
  "step_hook E w g = Some g' \<Longrightarrow> follow_inv g \<Longrightarrow> follow_inv g'"
proof -
  show "start_hook E c w g = Some g' \<Longrightarrow> follow_inv g \<Longrightarrow> follow_inv g'"
    unfolding start_hook_def
    by (auto elim!: bind_SomeE split: if_splits) (drule StartQuickDebug_follow, assumption, rule quiet_follow [OF quiet_fields(3)])
  show "stop_hook E c w g = Some g' \<Longrightarrow> follow_inv g \<Longrightarrow> follow_inv g'"
    unfolding stop_hook_def
    by (elim bind_SomeE) (simp only: split: if_splits, erule StopDebugChart_follow, assumption, simp)
  show "delete_hook E c w g = Some g' \<Longrightarrow> follow_inv g \<Longrightarrow> follow_inv g'"
    unfolding delete_hook_def
    by (elim bind_SomeE) (simp split: if_splits; metis StopDebugChart_follow quiet_follow quiet_data in_debug_clear option.inject)
  show "step_hook E w g = Some g' \<Longrightarrow> follow_inv g \<Longrightarrow> follow_inv g'"
    unfolding step_hook_def by (rule WebsocketManager_Step_follow)
qed

lemma debug_step_follow: "debug_step H source E s s' \<Longrightarrow> follow_inv (snd s) \<Longrightarrow> follow_inv (snd s')"
  by (induction rule: debug_step.induct)
    (auto dest: HandleMessage_follow hooks_follow quiet_follow [OF BreakpointFunc_call_quiet]
      intro: quiet_follow [OF quiet_data [OF in_debug_push]])

section \<open>Breakpoints\<close>

lemma ActivateNode_leaves:
  assumes "ActivateNode n b w = Some w'" "cs_inv (w_cs w)" "n \<in> set (cs_await (w_cs w))"
  shows "n \<notin> set (cs_await (w_cs w'))"
proof -
  have "cs_of (w_cs w) n = Some CAsyncW" using assms(2,3) by (simp add: cs_inv_def)
  with assms(1) obtain cs w1 where "Aact_Push n (w_cs w) = Some cs" "w1 = w\<lparr>w_cs := cs\<rparr>" "SetSkip b n w1 = Some w'"
    by (auto simp: ActivateNode_def on_cs_def elim!: bind_SomeE)
  moreover from this(3) have "w_cs w' = w_cs w1"
    by (auto simp: SetSkip_def upd_node_def upd_chart_def elim!: bind_SomeE)
  ultimately show ?thesis using assms(2) by (auto simp: Aact_Push_def leave_purge set_of_def)
qed

lemma continue_loop_undefined:
  assumes "cs_inv (w_cs w)" "set ns \<subseteq> set (cs_await (w_cs w))" "n \<in> set ns" "meant n w"
  shows "continue_loop meant f ns (w, g) = None"
  using assms(2,3)
proof (induction ns)
  case (Cons m ns)
  show ?case
  proof (cases "meant m w")
    case True
    have "do { w \<leftarrow> ActivateNode m False w;
        if m \<in> set (cs_await (w_cs w)) then continue_loop meant f ns (w, g') else None } = None" for g'
      using ActivateNode_leaves [OF _ assms(1), of m False] Cons.prems(1) by (cases "ActivateNode m False w") auto
    with True show ?thesis by (cases "f m w g") auto
  next
    case False
    with assms(4) Cons show ?thesis by auto
  qed
qed simp

section \<open>Reading back the description of a chart\<close>

lemma members:
  "FindMember ''agent_id'' (Serialize_ChartInfo_Json ci) = Some (Some (JInt (int (ci_agent_id ci))))"
  "FindMember ''owner_node_addr'' (Serialize_ChartInfo_Json ci) = Some (Some (JInt (int (ci_owner_node_addr ci))))"
  "FindMember ''owner_node_id'' (Serialize_ChartInfo_Json ci) = Some (Some (JInt (ci_owner_node_id ci)))"
  "FindMember ''owner_node_uid'' (Serialize_ChartInfo_Json ci) = Some (Some (JStr (ci_owner_node_uid ci)))"
  "FindMember ''object_name'' (Serialize_ChartInfo_Json ci) = Some (Some (JStr (ci_object_name ci)))"
  "FindMember ''chart_name'' (Serialize_ChartInfo_Json ci) = Some (Some (JStr (ci_chart_name ci)))"
  "FindMember ''owner_chart_name'' (Serialize_ChartInfo_Json ci) = Some (Some (JStr (ci_owner_chart_name ci)))"
  by (simp_all add: Serialize_ChartInfo_Json_def)

section \<open>Properties\<close>

text \<open>C25. However connections come and go and charts start, end and are destroyed, a chart is in debug mode
  exactly when a connection follows it, and no connection follows it twice.\<close>

theorem debug_mode_followed:
  assumes "debug_reachable H source E (w, g)"
  shows "(IsDebug c g \<longleftrightarrow> hdls_of c g \<noteq> []) \<and> distinct (hdls_of c g)"
proof -
  have "follow_inv (snd (w, g))"
    using assms by (induction "(w, g)" arbitrary: w g rule: debug_reachable.induct)
      (simp_all add: follow_new, use debug_step_follow in fastforce)
  then have inv: "follow_inv g" by simp
  then have "IsDebug c g \<longleftrightarrow> hdls_of c g \<noteq> []"
    unfolding follow_inv_def hdls_of_def by (auto dest: conns_okD split: option.splits)
  with hdls_distinct [OF inv] show ?thesis by simp
qed


text \<open>C26. Continuing a chart that waits at a breakpoint, and deleting a breakpoint at which a node waits,
  has undefined behaviour: the node that is activated leaves the list that the loop iterates over.\<close>

theorem continue_breakpoint_undefined:
  assumes "cs_inv (w_cs w)" "n \<in> set (cs_await (w_cs w))" "data_key n w = Some k"
    and "k \<in> break_points g" "breakpoint_funcs g k \<noteq> None"
  shows "ContinueBreakpoint_chart (np_chart n) w g = None \<and> DeleteBreakpoint k w g = None"
proof
  show "ContinueBreakpoint_chart (np_chart n) w g = None"
    unfolding ContinueBreakpoint_chart_def
    by (rule continue_loop_undefined [OF assms(1) subset_refl assms(2)]) (simp add: assms(3,4))
  have "ContinueBreakpoint_data k w g' = None" for g' :: "'b debugger"
    unfolding ContinueBreakpoint_data_def
    by (rule continue_loop_undefined [OF assms(1) subset_refl assms(2)]) (simp add: assms(3))
  then show "DeleteBreakpoint k w g = None" using assms(5) by (simp add: DeleteBreakpoint_def)
qed

end
