(* ===== verification/Example_Debugger.thy ===== *)
theory Example_Debugger
  imports Flow_Order Debugger_Props
begin

text \<open>
  The debugger with the world of theory \<open>Flow_Order\<close>, its chart cut to one node: a connection follows the
  chart; and the node waits at a breakpoint.
\<close>

definition dbg_env :: debug_env where
  "dbg_env = \<lparr>node_addr = (\<lambda>n. 4096 + 64 * np_chart n + 8 * np_index n), object_name = (\<lambda>_. ''obj''),
     chart_uid = (\<lambda>_. ''uid''), conn_open = (\<lambda>h. h < 9)\<rparr>"

definition dbg_message :: "string \<Rightarrow> (string \<times> json) list \<Rightarrow> json option" where
  "dbg_message method params = Some (JObj [(''jsonrpc'', JStr ''2.0''), (''method'', JStr method), (''id'', JInt 3),
     (''params'', JObj params)])"

definition dbg_chart :: "(string \<times> json) list" where
  "dbg_chart = [(''chart_name'', JStr []), (''agent_id'', JInt 1), (''owner_node_addr'', JInt 0)]"

definition dbg_world :: "string list world" where
  "dbg_world = log_world\<lparr>w_agent_map := [(1, 0)],
     w_charts := [0 \<mapsto> log_chart\<lparr>nodes := [new_node (log_node 0 [] [] ''a'')]\<rparr>],
     w_datas := [0 \<mapsto> new_chart_data\<lparr>node_list := [log_node 0 [] [] ''a'']\<rparr>]\<rparr>"

definition dbg_followed :: "(string list world \<times> json debugger) option" where
  "dbg_followed = HandleMessage log_host (\<lambda>_. Ret VNone) dbg_env 4 (dbg_message ''debug_chart'' dbg_chart)
     (dbg_world, new_debugger)"

theorem debug_mode_followed_witness:
  "\<exists>w g. dbg_followed = Some (w, g) \<and> hdls_of 0 g = [4] \<and> IsDebug 0 g \<and> \<not> IsDebug 1 g"
proof -
  have "case dbg_followed of None \<Rightarrow> False | Some (w, g) \<Rightarrow> hdls_of 0 g = [4] \<and> hdls_of 1 g = []" by code_simp
  then obtain w g where s: "dbg_followed = Some (w, g)" "hdls_of 0 g = [4]" "hdls_of 1 g = []"
    by (auto split: option.splits)
  have "debug_reachable log_host (\<lambda>_. Ret VNone) dbg_env (w, g)"
    using s(1) unfolding dbg_followed_def by (rule debug_reachable.step [OF debug_reachable.new debug_step.message])
  note followed = debug_mode_followed [OF this]
  show ?thesis using followed [of 0] followed [of 1] s by auto
qed


text \<open>The node waits at a breakpoint.\<close>

definition dbg_paused :: "string list world" where
  "dbg_paused = dbg_world\<lparr>w_cs := empty_cstore\<lparr>cs_await := [NP 0 0], cs_of := [NP 0 0 \<mapsto> CAsyncW]\<rparr>\<rparr>"

theorem continue_breakpoint_undefined_witness:
  "ContinueBreakpoint_chart 0 dbg_paused ((new_debugger :: json debugger)\<lparr>break_points := {(0, 0)}, breakpoint_funcs := [(0, 0) \<mapsto> False]\<rparr>) = None"
proof -
  have "cs_inv (w_cs dbg_paused)" by (simp add: dbg_paused_def cs_inv_def empty_cstore_def rings_def)
  moreover have "NP 0 0 \<in> set (cs_await (w_cs dbg_paused))" by (simp add: dbg_paused_def)
  moreover have "data_key (NP 0 0) dbg_paused = Some (0, 0)"
    by (simp add: data_key_def dbg_paused_def dbg_world_def log_world_def log_chart_def)
  ultimately show ?thesis
    using continue_breakpoint_undefined [of dbg_paused "NP 0 0" "(0, 0)"
        "(new_debugger :: json debugger)\<lparr>break_points := {(0, 0)}, breakpoint_funcs := [(0, 0) \<mapsto> False]\<rparr>"]
    by simp
qed

end
