(* ===== verification/Spec2Isabelle.thy ===== *)
theory Spec2Isabelle
  imports Example_Js Example_Lua Base64 Uuid Intrusive_List Example_Sessions Reached_Again Example_Debugger
begin

text \<open>
  Verification development of asyncflow, an engine that runs flowcharts: the core under
  \<open>src/src/core\<close> and \<open>src/include/core\<close>, its utilities under \<open>src/src/util\<close> and
  \<open>src/include/util\<close>, the debugger under \<open>src/src/debug\<close>, and the bindings for Python, Lua and
  JavaScript under \<open>src/src/py\<close>, \<open>src/src/lua\<close> and \<open>src/src/js\<close>.

  \<^bold>\<open>The program.\<close> A manager (\<open>manager.cpp\<close>) owns agents (\<open>agent.cpp\<close>), which own charts
  (\<open>chart.cpp\<close>), which own nodes (\<open>node.cpp\<close>). A chart is an instance of chart data
  (\<open>chart_data.cpp\<close>, \<open>node_data.cpp\<close>) loaded from JSON or YAML. Running a flow
  (\<open>executor.cpp\<close>) runs the functions of nodes depth first; a function may put its node to sleep on
  a timer (\<open>timer_manager.cpp\<close>, the wheel of \<open>ratas.h\<close>), on an event, on a subchart, or on an
  asynchronous context (\<open>async_manager.cpp\<close>). \<open>Manager::Step\<close> advances the timers, resumes
  asynchronous nodes, handles the queued events and destroys the agents that were unregistered.

  \<^bold>\<open>The model.\<close> The whole state is the record \<open>world\<close> (theory \<open>World\<close>); objects are addresses
  into its maps, and destroying an object removes the address. An operation is a function
  from worlds to an optional world: \<open>None\<close> is behaviour the C++ standard leaves undefined (a
  dangling or null pointer, an index out of range) or, for the loops defined with
  \<open>partial_function\<close>, no result at all. Exceptions of the standard library are values (\<open>exn\<close>). The
  functions of the script language are a parameter (\<open>host\<close> in theory \<open>Script\<close>): resumable scripts
  that call back into the engine.

  \<^item> \<open>AF_Prelude\<close>, \<open>Fifo\<close>: monadic folds, the interface of queues.
  \<^item> \<open>Intrusive_List\<close> (\<open>util/list.h\<close>), \<open>Base64\<close> and \<open>Uuid\<close> (\<open>util/file.cpp\<close>): utilities, with the
    round trips of the encodings.
  \<^item> \<open>Event_Queue\<close> (\<open>event_queue.h\<close>, \<open>dying_agents.h\<close>), \<open>Event_Info\<close>, \<open>Event_Loader\<close> (\<open>event_manager.cpp\<close>),
    \<open>Timer_Wheel\<close>, \<open>Timer_Exact\<close> (\<open>ratas.h\<close>), \<open>Node_Container\<close> (\<open>custom_struct.cpp\<close>): the queues and containers.
  \<^item> \<open>Chart_Data\<close>, \<open>Documents\<close> (\<open>util/json.cpp\<close>), \<open>Loaders\<close>, \<open>Loader_Props\<close>, \<open>Chart_Formats\<close>: chart data and loading
    it from JSON and YAML. The parsers are third-party code and parameters.
  \<^item> \<open>World\<close>, \<open>Lifecycle\<close>, \<open>Stopping\<close>: the state, stopping and destroying. The recursion from a chart
    to the subcharts of its nodes has the number of charts ever created as its fuel, which
    \<open>Stopping\<close> proves to be enough.
  \<^item> \<open>Node_Ops\<close>, \<open>Control_Nodes\<close>, \<open>Script\<close>, \<open>Engine\<close>, \<open>Python_Module\<close>, \<open>Executor\<close>, \<open>Manager\<close>: the operations, from
    those of a single node to \<open>Manager::Step\<close>. A flow that starts another one nests executors; the
    model recurses over the fifteen executors of the stack, and the code refuses a deeper nesting.
    Callbacks of the script language nest up to \<open>h_depth\<close>.
  \<^item> \<open>Engine_Rel\<close>, \<open>Step_Rel\<close>, \<open>Manager_Rel\<close>: locales for relations that every operation respects,
    interpreted in \<open>Engine_Frame\<close> (what a flow leaves alone), \<open>Registry\<close> (the maps of agents),
    \<open>Container_Safety\<close> (no dangling pointers in containers), \<open>Manager_Inv\<close>, \<open>Reachable\<close> (all
    worlds a host program can reach) and \<open>Timer_World\<close> (timers are executed on time).
  \<^item> \<open>Timer_Liveness\<close>: the wheel returns and fires every due event, once and in order.
  \<^item> \<open>Python_Session\<close>: the life of the Python module around one manager after the other, and the
    manager object; \<open>Module_Props\<close>: single functions of the module.
  \<^item> \<open>Depth_First\<close>, \<open>Flow_Order\<close>: the executor runs nodes in the order of a recursive traversal;
    \<open>Reached_Again\<close>: a waiting node that the flow reaches again.
  \<^item> \<open>Debugger\<close> (\<open>debug/websocket_manager.cpp\<close> and the debug data of charts), \<open>Json_Debugger\<close>
    (\<open>debug/json_debugger.cpp\<close>, breakpoints): the debugger of a build with \<open>FLOWCHART_DEBUG\<close>, as a state of
    its own beside the world; the engine calls it by hooks. \<open>Debugger_Props\<close>: which charts are followed,
    breakpoints, the description of a chart.
  \<^item> \<open>Lua_Refs\<close>, \<open>Lua_Chart\<close> (\<open>lua_chart.cpp\<close>, \<open>lua_agent.cpp\<close>, \<open>lua_nodefunc.cpp\<close>): the reference tables of the Lua
    binding, over an allocator of keys that is a parameter with the laws the manual of Lua promises,
    and the Lua part of charts and agents; \<open>Lua_Props\<close>, \<open>Lua_Params\<close>: every reference has one owner, the
    variables of charts, the parameters given to \<open>attach\<close>. \<open>Lua_Module\<close>, \<open>Lua_Functions\<close>, \<open>Lua_Agents\<close>
    (\<open>lua_manager.cpp\<close>, \<open>export_global_funcs.cpp\<close>, \<open>export_agent_class.cpp\<close>): the managers of a process and the
    functions of the Lua module; \<open>Lua_Manager_Props\<close>: a manager after the end of another one, \<open>stop_node\<close>.
  \<^item> \<open>Js_Chart\<close> (\<open>js_chart.cpp\<close>, \<open>js_agent.cpp\<close>, \<open>js_debugger.cpp\<close>, \<open>js_nodefun.cpp\<close>), \<open>Js_Functions\<close>
    (\<open>export_js.cpp\<close>, \<open>js_manager.cpp\<close>): the JavaScript binding, which knows values by numbers and tells the
    script which of them it may forget; \<open>Js_Props\<close>: the charts its debugger follows, quick debugging, how
    often a value is forgotten. The binding was left behind by the core and does not compile against
    it; the model has what its functions do.
  \<^item> \<open>Bindings\<close>: the variables of a chart as an interface (the locales \<open>variable_array\<close> and
    \<open>variable_store\<close>) that each of the three bindings provides, so that the same operations give the same
    variables in all of them.
  \<^item> \<open>Example_Worlds\<close>, \<open>Example_Sessions\<close>, \<open>Example_Debugger\<close>, \<open>Example_Lua\<close>, \<open>Example_Js\<close>: concrete hosts, worlds and
    sessions, on which the properties are evaluated.

  \<^bold>\<open>Not modelled.\<close> Logging; the sockets of the debugger; the engine is the one of a build without
  \<open>FLOWCHART_DEBUG\<close>, and the hooks of the debugger are not called by it; the functions of the Lua and JavaScript
  modules that run charts (\<open>step\<close>, \<open>start\<close>, \<open>call_sub\<close>, \<open>ret\<close>), since the engine is modelled with the charts of
  the Python binding, and the stack of Lua; the parsing of arguments in the Python module, reading files,
  and reference counts.
\<close>

end
